(* ===== verification/Nevod_Prelude.thy ===== *)
theory Nevod_Prelude
  imports Main "HOL-Library.Word"
begin

text \<open>
  The prelude of the Nevod development.

  \<^item> Python values as they travel through MessagePack payloads and SQL parameters
    (\<open>pyval\<close>), with the operations of the language the sources use on them: truthiness,
    \<^verbatim>\<open>d.get(k, default)\<close>, \<^verbatim>\<open>d[k]\<close>, \<^verbatim>\<open>str(x)\<close>, \<^verbatim>\<open>s.encode()\<close>, \<^verbatim>\<open>b.hex()\<close>,
    \<^verbatim>\<open>bytes.fromhex(s)\<close>, \<^verbatim>\<open>s.split(sep, 1)\<close>, \<^verbatim>\<open>s.rsplit(sep, 1)\<close>.
    A Python \<^verbatim>\<open>str\<close> is represented by its UTF-8 bytes, one \<open>char\<close> each, so that
    \<^verbatim>\<open>encode()\<close> only changes the type; \<open>utf8_ok\<close> says which lists of bytes are such an
    encoding.  Floating-point numbers and MessagePack extension types are left out.
  \<^item> The state and exception monad \<open>('s, 'a) io\<close> in which every coroutine of the sources is
    written.  The state survives a raise, as the effects of a Python coroutine do.
  \<^item> \<open>keeps\<close>, the notion that a computation preserves a predicate of the state on normal and
    exceptional return alike, with one introduction rule per combinator, collected in
    \<open>keeps_intros\<close>.
  \<^item> The locale \<open>stepper\<close>: steps that keep an invariant, and runs made of them.
\<close>

named_theorems keeps_intros "introduction rules for computations that keep a predicate"
named_theorems io_simps "evaluation rules of the combinators of the io monad"

section \<open>Python values\<close>

type_synonym byte = "8 word"
type_synonym bytes = "byte list"

datatype pyval =
    PNone
  | PBool bool
  | PInt int
  | PStr string
  | PBytes bytes
  | PList "pyval list"
  | PDict "(pyval \<times> pyval) list"

datatype exn =
    KeyError
  | TypeError
  | AttributeError
  | ValueError
  | UnpackError
  | OverflowError
  | InterfaceError
  | IntegrityError
  | InvalidTag
  | ConnectionClosed
  | ConnectError
  | TimeoutError
  | FileNotFoundError
  | RuntimeError
  | CallbackError
  | OSError

fun truthy :: "pyval \<Rightarrow> bool" where
  "truthy PNone = False"
| "truthy (PBool b) = b"
| "truthy (PInt i) = (i \<noteq> 0)"
| "truthy (PStr s) = (s \<noteq> [])"
| "truthy (PBytes b) = (b \<noteq> [])"
| "truthy (PList xs) = (xs \<noteq> [])"
| "truthy (PDict kvs) = (kvs \<noteq> [])"

definition py_or :: "pyval \<Rightarrow> pyval \<Rightarrow> pyval" where
  "py_or a b = (if truthy a then a else b)"

fun py_get :: "pyval \<Rightarrow> string \<Rightarrow> pyval \<Rightarrow> exn + pyval" where
  "py_get (PDict kvs) k dflt =
     Inr (case map_of kvs (PStr k) of None \<Rightarrow> dflt | Some v \<Rightarrow> v)"
| "py_get _ k dflt = Inl AttributeError"

fun py_index :: "pyval \<Rightarrow> string \<Rightarrow> exn + pyval" where
  "py_index (PDict kvs) k =
     (case map_of kvs (PStr k) of None \<Rightarrow> Inl KeyError | Some v \<Rightarrow> Inr v)"
| "py_index _ k = Inl TypeError"

definition encode :: "string \<Rightarrow> bytes" where
  "encode s = map of_char s"

fun py_encode :: "pyval \<Rightarrow> exn + bytes" where
  "py_encode (PStr s) = Inr (encode s)"
| "py_encode _ = Inl AttributeError"

text \<open>\<^verbatim>\<open>bytes(x)\<close> of a decoded value: a copy of bytes, the bytes of a list of small integers,
  zero bytes for a non-negative integer, an error otherwise.\<close>

fun byte_of_py :: "pyval \<Rightarrow> exn + byte" where
  "byte_of_py (PInt i) = (if 0 \<le> i \<and> i < 256 then Inr (of_int i) else Inl ValueError)"
| "byte_of_py (PBool b) = Inr (if b then 1 else 0)"
| "byte_of_py _ = Inl TypeError"

fun bytes_of_list :: "pyval list \<Rightarrow> exn + bytes" where
  "bytes_of_list [] = Inr []"
| "bytes_of_list (v # vs) =
     (case byte_of_py v of Inl e \<Rightarrow> Inl e
      | Inr b \<Rightarrow> (case bytes_of_list vs of Inl e \<Rightarrow> Inl e | Inr bs \<Rightarrow> Inr (b # bs)))"

fun py_bytes :: "pyval \<Rightarrow> exn + bytes" where
  "py_bytes (PBytes b) = Inr b"
| "py_bytes (PInt i) = (if i < 0 then Inl ValueError else Inr (replicate (nat i) 0))"
| "py_bytes (PBool b) = Inr (if b then [0] else [])"
| "py_bytes (PList xs) = bytes_of_list xs"
| "py_bytes (PDict kvs) = bytes_of_list (map fst kvs)"
| "py_bytes _ = Inl TypeError"

text \<open>Decimal notation of an integer, as \<^verbatim>\<open>str\<close> writes it.\<close>

definition digit_char :: "nat \<Rightarrow> char" where
  "digit_char d = char_of (48 + d)"

fun str_nat :: "nat \<Rightarrow> string" where
  "str_nat n = (if n < 10 then [digit_char n] else str_nat (n div 10) @ [digit_char (n mod 10)])"

declare str_nat.simps [simp del]

definition str_int :: "int \<Rightarrow> string" where
  "str_int i = (if i < 0 then CHR ''-'' # str_nat (nat (- i)) else str_nat (nat i))"

section \<open>UTF-8\<close>

abbreviation cont :: "char \<Rightarrow> bool" where
  "cont c \<equiv> 128 \<le> (of_char c :: nat) \<and> (of_char c :: nat) < 192"

fun utf8_ok :: "string \<Rightarrow> bool" where
  "utf8_ok [] = True"
| "utf8_ok (a # s) =
     (let n = (of_char a :: nat) in
      if n < 128 then utf8_ok s
      else if n < 194 then False
      else if n < 224 then (case s of b # s' \<Rightarrow> cont b \<and> utf8_ok s' | _ \<Rightarrow> False)
      else if n < 240 then
        (case s of b # c # s' \<Rightarrow>
           cont b \<and> cont c \<and> (n = 224 \<longrightarrow> 160 \<le> (of_char b :: nat)) \<and>
           (n = 237 \<longrightarrow> (of_char b :: nat) < 160) \<and> utf8_ok s'
         | _ \<Rightarrow> False)
      else if n < 245 then
        (case s of b # c # d # s' \<Rightarrow>
           cont b \<and> cont c \<and> cont d \<and> (n = 240 \<longrightarrow> 144 \<le> (of_char b :: nat)) \<and>
           (n = 244 \<longrightarrow> (of_char b :: nat) < 144) \<and> utf8_ok s'
         | _ \<Rightarrow> False)
      else False)"

section \<open>Hexadecimal notation\<close>

definition hex_char :: "nat \<Rightarrow> char" where
  "hex_char d = (if d < 10 then char_of (48 + d) else char_of (87 + d))"

definition hex_byte :: "byte \<Rightarrow> string" where
  "hex_byte b = [hex_char (unat b div 16), hex_char (unat b mod 16)]"

definition hex :: "bytes \<Rightarrow> string" where
  "hex bs = concat (map hex_byte bs)"

definition hex_val :: "char \<Rightarrow> nat option" where
  "hex_val c = (let n = (of_char c :: nat) in
     if 48 \<le> n \<and> n \<le> 57 then Some (n - 48)
     else if 97 \<le> n \<and> n \<le> 102 then Some (n - 87)
     else if 65 \<le> n \<and> n \<le> 70 then Some (n - 55)
     else None)"

definition is_space :: "char \<Rightarrow> bool" where
  "is_space c = (let n = (of_char c :: nat) in n = 32 \<or> (9 \<le> n \<and> n \<le> 13))"

text \<open>\<^verbatim>\<open>bytes.fromhex\<close> skips ASCII white space between pairs of digits.\<close>

fun fromhex :: "string \<Rightarrow> exn + bytes" where
  "fromhex [] = Inr []"
| "fromhex (c # s) =
     (if is_space c then fromhex s
      else (case s of
         [] \<Rightarrow> Inl ValueError
       | d # s' \<Rightarrow>
           (case (hex_val c, hex_val d) of
              (Some h, Some l) \<Rightarrow>
                (case fromhex s' of Inl e \<Rightarrow> Inl e | Inr bs \<Rightarrow> Inr (of_nat (16 * h + l) # bs))
            | _ \<Rightarrow> Inl ValueError)))"

section \<open>Splitting strings\<close>

text \<open>\<^verbatim>\<open>s.split(sep, 1)\<close> and \<^verbatim>\<open>s.rsplit(sep, 1)\<close> for a one-character separator: \<open>None\<close>
  when the separator does not occur (the source's two-element unpacking then raises).\<close>

fun split1 :: "char \<Rightarrow> string \<Rightarrow> (string \<times> string) option" where
  "split1 sep [] = None"
| "split1 sep (c # s) =
     (if c = sep then Some ([], s)
      else map_option (\<lambda>(a, b). (c # a, b)) (split1 sep s))"

definition rsplit1 :: "char \<Rightarrow> string \<Rightarrow> (string \<times> string) option" where
  "rsplit1 sep s = map_option (\<lambda>(a, b). (rev b, rev a)) (split1 sep (rev s))"

section \<open>Lemmas on strings and hexadecimal notation\<close>

lemma py_encode_Inr: "py_encode v = Inr b \<longleftrightarrow> (\<exists>s. v = PStr s \<and> b = encode s)"
  by (cases v) auto

lemma split1_append: "sep \<notin> set a \<Longrightarrow> split1 sep (a @ sep # b) = Some (a, b)"
  by (induction a) auto

lemma split1_None_iff: "split1 sep s = None \<longleftrightarrow> sep \<notin> set s"
  by (induction s) auto

lemma split1_SomeD: "split1 sep s = Some (a, b) \<Longrightarrow> s = a @ sep # b \<and> sep \<notin> set a"
  by (induction s arbitrary: a) (auto split: if_splits)

lemma rsplit1_append: "sep \<notin> set b \<Longrightarrow> rsplit1 sep (a @ sep # b) = Some (a, b)"
  using split1_append [of sep "rev b" "rev a"] by (simp add: rsplit1_def)

lemma rsplit1_None_iff: "rsplit1 sep s = None \<longleftrightarrow> sep \<notin> set s"
  by (simp add: rsplit1_def split1_None_iff)

lemma rsplit1_SomeD: "rsplit1 sep s = Some (a, b) \<Longrightarrow> s = a @ sep # b \<and> sep \<notin> set b"
proof -
  assume "rsplit1 sep s = Some (a, b)"
  then have "split1 sep (rev s) = Some (rev b, rev a)"
    by (auto simp: rsplit1_def)
  then have "rev s = rev b @ sep # rev a \<and> sep \<notin> set (rev b)"
    by (rule split1_SomeD)
  then show ?thesis
    by (metis append_Cons append_assoc append_Nil rev.simps(2) rev_append rev_rev_ident set_rev)
qed

lemma of_char_byte_inject: "(of_char c :: byte) = of_char d \<longleftrightarrow> c = d"
proof
  assume "(of_char c :: byte) = of_char d"
  then have "unat (of_char c :: byte) = unat (of_char d :: byte)"
    by simp
  moreover have "unat (of_char x :: byte) = of_char x" for x :: char
  proof -
    have "(of_char x :: byte) = of_nat (of_char x)"
      by (simp add: of_nat_of_char)
    moreover have "(of_char x :: nat) < 256"
      by simp
    ultimately show ?thesis
      by (simp add: unat_of_nat)
  qed
  ultimately show "c = d"
    by simp
qed simp

lemma encode_inject [simp]: "encode s = encode t \<longleftrightarrow> s = t"
  by (auto simp: encode_def of_char_byte_inject inj_on_def dest!: map_injective)

lemma length_encode [simp]: "length (encode s) = length s"
  by (simp add: encode_def)

lemma encode_append [simp]: "encode (s @ t) = encode s @ encode t"
  by (simp add: encode_def)

lemma encode_Nil [simp]: "encode [] = []"
  by (simp add: encode_def)

lemma length_hex [simp]: "length (hex bs) = 2 * length bs"
  by (induction bs) (auto simp: hex_def hex_byte_def)

lemma hex_Nil [simp]: "hex [] = []"
  by (simp add: hex_def)

lemma hex_Cons:
  "hex (b # bs) = hex_char (unat b div 16) # hex_char (unat b mod 16) # hex bs"
  by (simp add: hex_def hex_byte_def)

lemma of_char_hex_char:
  "d < 16 \<Longrightarrow> (of_char (hex_char d) :: nat) = (if d < 10 then 48 + d else 87 + d)"
  by (auto simp: hex_char_def)

lemma hex_val_hex_char: "d < 16 \<Longrightarrow> hex_val (hex_char d) = Some d"
  by (auto simp: hex_val_def of_char_hex_char)

lemma hex_char_not_space: "d < 16 \<Longrightarrow> \<not> is_space (hex_char d)"
  by (auto simp: is_space_def of_char_hex_char)

lemma fromhex_hex [simp]: "fromhex (hex bs) = Inr bs"
proof (induction bs)
  case (Cons b bs)
  have "unat b < 2 ^ 8"
    using unsigned_less [of b] by simp
  then have hi: "unat b div 16 < 16" and lo: "unat b mod 16 < 16"
    by (auto simp: less_mult_imp_div_less)
  have val: "of_nat (16 * (unat b div 16) + unat b mod 16) = b"
    by simp
  show ?case
    unfolding hex_Cons
    using Cons.IH val by (simp add: hex_char_not_space [OF hi] hex_val_hex_char hi lo)
qed simp

lemma hex_inject [simp]: "hex a = hex b \<longleftrightarrow> a = b"
  by (metis fromhex_hex sum.inject(2))

lemma hex_chars_lower:
  "c \<in> set (hex bs) \<Longrightarrow>
     (48 \<le> (of_char c :: nat) \<and> (of_char c :: nat) \<le> 57)
   \<or> (97 \<le> (of_char c :: nat) \<and> (of_char c :: nat) \<le> 102)"
proof (induction bs)
  case (Cons b bs)
  have "unat b < 2 ^ 8"
    using unsigned_less [of b] by simp
  then have hi: "unat b div 16 < 16" and lo: "unat b mod 16 < 16"
    by (auto simp: less_mult_imp_div_less)
  from Cons.prems consider "c = hex_char (unat b div 16)" | "c = hex_char (unat b mod 16)"
    | "c \<in> set (hex bs)"
    by (auto simp: hex_Cons)
  then show ?case
    by cases (use Cons.IH hi lo in \<open>auto simp: of_char_hex_char\<close>)
qed simp

lemma at_not_in_hex: "CHR ''@'' \<notin> set (hex bs)"
  using hex_chars_lower [of "CHR ''@''" bs] by auto

lemma utf8_ok_ascii: "(\<And>c. c \<in> set s \<Longrightarrow> (of_char c :: nat) < 128) \<Longrightarrow> utf8_ok s"
  by (induction s) (auto simp: Let_def)

lemma utf8_ok_hex [simp]: "utf8_ok (hex bs)"
proof (rule utf8_ok_ascii)
  fix c assume "c \<in> set (hex bs)"
  then show "(of_char c :: nat) < 128"
    using hex_chars_lower [of c bs] by auto
qed

text \<open>Decimal notation determines the integer.\<close>

definition digits_value :: "string \<Rightarrow> nat" where
  "digits_value s = foldl (\<lambda>a c. 10 * a + (of_char c - 48)) 0 s"

lemma of_char_digit: "d < 10 \<Longrightarrow> (of_char (digit_char d) :: nat) = 48 + d"
  by (simp add: digit_char_def)

lemma digits_value_str_nat: "digits_value (str_nat n) = n"
proof (induction n rule: str_nat.induct)
  case (1 n)
  show ?case
  proof (cases "n < 10")
    case True
    then show ?thesis by (simp add: str_nat.simps [of n] digits_value_def of_char_digit)
  next
    case False
    then have "digits_value (str_nat (n div 10)) = n div 10" by (rule "1.IH")
    with False show ?thesis
      by (simp add: str_nat.simps [of n] digits_value_def of_char_digit)
  qed
qed

lemma str_nat_no_sign: "CHR ''-'' \<notin> set (str_nat n)"
proof (induction n rule: str_nat.induct)
  case (1 n)
  have "CHR ''-'' \<noteq> digit_char d" if "d < 10" for d
  proof
    assume "CHR ''-'' = digit_char d"
    then have "(of_char CHR ''-'' :: nat) = 48 + d"
      using of_char_digit [OF that] by simp
    then show False by simp
  qed
  with 1 show ?case by (auto simp: str_nat.simps [of n])
qed

lemma str_int_inject [simp]: "str_int i = str_int j \<longleftrightarrow> i = j"
proof
  assume eq: "str_int i = str_int j"
  have "i < 0 \<longleftrightarrow> CHR ''-'' \<in> set (str_int i)" for i
    by (auto simp: str_int_def str_nat_no_sign)
  with eq have sgn: "i < 0 \<longleftrightarrow> j < 0" by metis
  with eq have "str_nat (nat \<bar>i\<bar>) = str_nat (nat \<bar>j\<bar>)"
    by (auto simp: str_int_def split: if_splits)
  then have "nat \<bar>i\<bar> = nat \<bar>j\<bar>"
    by (metis digits_value_str_nat)
  with sgn show "i = j" by linarith
qed simp

section \<open>Computations with state and exceptions\<close>

type_synonym ('s, 'a) io = "'s \<Rightarrow> (exn + 'a) \<times> 's"

definition returnM :: "'a \<Rightarrow> ('s, 'a) io" where
  "returnM x = (\<lambda>s. (Inr x, s))"

definition raiseM :: "exn \<Rightarrow> ('s, 'a) io" where
  "raiseM e = (\<lambda>s. (Inl e, s))"

definition bindM :: "('s, 'a) io \<Rightarrow> ('a \<Rightarrow> ('s, 'b) io) \<Rightarrow> ('s, 'b) io" where
  "bindM m f = (\<lambda>s. case m s of (Inl e, s') \<Rightarrow> (Inl e, s') | (Inr x, s') \<Rightarrow> f x s')"

definition tryM :: "('s, 'a) io \<Rightarrow> (exn \<Rightarrow> ('s, 'a) io) \<Rightarrow> ('s, 'a) io" where
  "tryM m h = (\<lambda>s. case m s of (Inl e, s') \<Rightarrow> h e s' | (Inr x, s') \<Rightarrow> (Inr x, s'))"

definition finallyM :: "('s, 'a) io \<Rightarrow> ('s, unit) io \<Rightarrow> ('s, 'a) io" where
  "finallyM m f = (\<lambda>s. case m s of (r, s') \<Rightarrow>
     (case f s' of (Inl e, s'') \<Rightarrow> (Inl e, s'') | (Inr _, s'') \<Rightarrow> (r, s'')))"

definition liftM :: "exn + 'a \<Rightarrow> ('s, 'a) io" where
  "liftM r = (\<lambda>s. (r, s))"

definition getM :: "('s \<Rightarrow> 'a) \<Rightarrow> ('s, 'a) io" where
  "getM f = (\<lambda>s. (Inr (f s), s))"

definition modifyM :: "('s \<Rightarrow> 's) \<Rightarrow> ('s, unit) io" where
  "modifyM f = (\<lambda>s. (Inr (), f s))"

primrec forM :: "'a list \<Rightarrow> ('a \<Rightarrow> ('s, unit) io) \<Rightarrow> ('s, unit) io" where
  "forM [] f = returnM ()"
| "forM (x # xs) f = bindM (f x) (\<lambda>_. forM xs f)"

lemma returnM_apply [io_simps]: "returnM x s = (Inr x, s)"
  by (simp add: returnM_def)

lemma raiseM_apply [io_simps]: "raiseM e s = (Inl e, s)"
  by (simp add: raiseM_def)

lemma liftM_apply [io_simps]: "liftM r s = (r, s)"
  by (simp add: liftM_def)

lemma getM_apply [io_simps]: "getM f s = (Inr (f s), s)"
  by (simp add: getM_def)

lemma modifyM_apply [io_simps]: "modifyM f s = (Inr (), f s)"
  by (simp add: modifyM_def)

lemma bindM_apply [io_simps]:
  "bindM m f s = (case m s of (Inl e, s') \<Rightarrow> (Inl e, s') | (Inr x, s') \<Rightarrow> f x s')"
  by (simp add: bindM_def)

lemma tryM_apply [io_simps]:
  "tryM m h s = (case m s of (Inl e, s') \<Rightarrow> h e s' | (Inr x, s') \<Rightarrow> (Inr x, s'))"
  by (simp add: tryM_def)

lemma bindM_return [simp]: "bindM (returnM x) f = f x"
  by (simp add: bindM_def returnM_def fun_eq_iff)

lemma bindM_assoc: "bindM (bindM m f) g = bindM m (\<lambda>x. bindM (f x) g)"
  by (auto simp: bindM_def fun_eq_iff split: prod.splits sum.splits)

lemma forM_append: "forM (xs @ ys) f = bindM (forM xs f) (\<lambda>_. forM ys f)"
  by (induction xs) (auto simp: bindM_assoc)

text \<open>The same without state: a pure function that may raise.\<close>

definition bindR :: "exn + 'a \<Rightarrow> ('a \<Rightarrow> exn + 'b) \<Rightarrow> exn + 'b" where
  "bindR r f = (case r of Inl e \<Rightarrow> Inl e | Inr x \<Rightarrow> f x)"

lemma bindR_simps [simp]: "bindR (Inl e) f = Inl e" "bindR (Inr x) f = f x"
  by (simp_all add: bindR_def)

lemma bindR_Inr_iff: "bindR r f = Inr y \<longleftrightarrow> (\<exists>x. r = Inr x \<and> f x = Inr y)"
  by (cases r) auto

section \<open>Computations that keep a predicate\<close>

definition keeps :: "('s \<Rightarrow> bool) \<Rightarrow> ('s, 'a) io \<Rightarrow> bool" where
  "keeps I m \<longleftrightarrow> (\<forall>s. I s \<longrightarrow> I (snd (m s)))"

lemma keepsI: "(\<And>s. I s \<Longrightarrow> I (snd (m s))) \<Longrightarrow> keeps I m"
  by (simp add: keeps_def)

lemma keepsD: "keeps I m \<Longrightarrow> I s \<Longrightarrow> I (snd (m s))"
  by (simp add: keeps_def)

lemma keeps_return [keeps_intros]: "keeps I (returnM x)"
  by (simp add: keeps_def io_simps)

lemma keeps_raise [keeps_intros]: "keeps I (raiseM e)"
  by (simp add: keeps_def io_simps)

lemma keeps_lift [keeps_intros]: "keeps I (liftM r)"
  by (simp add: keeps_def io_simps)

lemma keeps_get [keeps_intros]: "keeps I (getM f)"
  by (simp add: keeps_def io_simps)

lemma keeps_modify: "(\<And>s. I s \<Longrightarrow> I (f s)) \<Longrightarrow> keeps I (modifyM f)"
  by (simp add: keeps_def io_simps)

lemma keeps_bind [keeps_intros]:
  "keeps I m \<Longrightarrow> (\<And>x. keeps I (f x)) \<Longrightarrow> keeps I (bindM m f)"
  by (fastforce simp: keeps_def io_simps split: prod.splits sum.splits)

lemma keeps_try [keeps_intros]:
  "keeps I m \<Longrightarrow> (\<And>e. keeps I (h e)) \<Longrightarrow> keeps I (tryM m h)"
  by (fastforce simp: keeps_def io_simps split: prod.splits sum.splits)

lemma keeps_finally [keeps_intros]: "keeps I m \<Longrightarrow> keeps I f \<Longrightarrow> keeps I (finallyM m f)"
  by (fastforce simp: keeps_def finallyM_def split: prod.splits sum.splits)

lemma keeps_for [keeps_intros]: "(\<And>x. keeps I (f x)) \<Longrightarrow> keeps I (forM xs f)"
  by (induction xs) (auto intro!: keeps_intros)

lemma keeps_if [keeps_intros]:
  "(b \<Longrightarrow> keeps I m) \<Longrightarrow> (\<not> b \<Longrightarrow> keeps I m') \<Longrightarrow> keeps I (if b then m else m')"
  by simp

lemma keeps_option [keeps_intros]:
  "(x = None \<Longrightarrow> keeps I m) \<Longrightarrow> (\<And>y. x = Some y \<Longrightarrow> keeps I (f y)) \<Longrightarrow>
   keeps I (case x of None \<Rightarrow> m | Some y \<Rightarrow> f y)"
  by (cases x) auto

lemma keeps_sum [keeps_intros]:
  "(\<And>e. x = Inl e \<Longrightarrow> keeps I (f e)) \<Longrightarrow> (\<And>y. x = Inr y \<Longrightarrow> keeps I (g y)) \<Longrightarrow>
   keeps I (case x of Inl e \<Rightarrow> f e | Inr y \<Rightarrow> g y)"
  by (cases x) auto

lemma keeps_prod [keeps_intros]:
  "(\<And>a b. x = (a, b) \<Longrightarrow> keeps I (f a b)) \<Longrightarrow> keeps I (case x of (a, b) \<Rightarrow> f a b)"
  by (cases x) auto

lemma keeps_let [keeps_intros]: "keeps I (f x) \<Longrightarrow> keeps I (let y = x in f y)"
  by simp

section \<open>Runs of steps that keep an invariant\<close>

locale stepper =
  fixes inv :: "'s \<Rightarrow> bool" and step :: "'e \<Rightarrow> 's \<Rightarrow> 's"
  assumes step_inv: "inv s \<Longrightarrow> inv (step e s)"
begin

lemma run_inv: "inv s \<Longrightarrow> inv (fold step es s)"
  by (induction es arbitrary: s) (auto intro: step_inv)

end

end
