(* ===== verification/Nevod_Table.thy ===== *)
theory Nevod_Table
  imports Nevod_Prelude "HOL-Library.AList"
begin

text \<open>
  The two container contracts the components share.

  \<^item> An SQL table with a primary key is the list of its rows in rowid order (the order in
    which SQLite scans a rowid table, and in which it visits the rows an index selects for
    one key).  \<open>keyed_table\<close> states what an \<^verbatim>\<open>INSERT ... ON CONFLICT(key) DO UPDATE\<close> clause
    promises when the update leaves the key alone; \<^verbatim>\<open>INSERT OR IGNORE\<close> is the clause that
    keeps the old row.
  \<^item> A Python \<^verbatim>\<open>dict\<close> is an association list in insertion order.  \<open>dictionary\<close> states the
    laws of item assignment, \<^verbatim>\<open>pop\<close> and \<^verbatim>\<open>get\<close>.
\<close>

section \<open>Tables with a primary key\<close>

definition tbl_get :: "('r \<Rightarrow> 'k) \<Rightarrow> 'k \<Rightarrow> 'r list \<Rightarrow> 'r option" where
  "tbl_get key k t = find (\<lambda>r. key r = k) t"

definition tbl_upsert :: "('r \<Rightarrow> 'k) \<Rightarrow> ('r \<Rightarrow> 'r \<Rightarrow> 'r) \<Rightarrow> 'r \<Rightarrow> 'r list \<Rightarrow> 'r list" where
  "tbl_upsert key merge r t =
     (if key r \<in> set (map key t)
      then map (\<lambda>x. if key x = key r then merge x r else x) t
      else t @ [r])"

definition tbl_update :: "('r \<Rightarrow> 'k) \<Rightarrow> 'k \<Rightarrow> ('r \<Rightarrow> 'r) \<Rightarrow> 'r list \<Rightarrow> 'r list" where
  "tbl_update key k f t = map (\<lambda>x. if key x = k then f x else x) t"

definition tbl_delete :: "('r \<Rightarrow> 'k) \<Rightarrow> 'k \<Rightarrow> 'r list \<Rightarrow> 'r list" where
  "tbl_delete key k t = filter (\<lambda>x. key x \<noteq> k) t"

abbreviation primary_key :: "('r \<Rightarrow> 'k) \<Rightarrow> 'r list \<Rightarrow> bool" where
  "primary_key key t \<equiv> distinct (map key t)"

lemma tbl_get_Nil [simp]: "tbl_get key k [] = None"
  by (simp add: tbl_get_def)

lemma tbl_get_Cons [simp]:
  "tbl_get key k (r # t) = (if key r = k then Some r else tbl_get key k t)"
  by (simp add: tbl_get_def)

lemma tbl_get_None_iff: "tbl_get key k t = None \<longleftrightarrow> k \<notin> set (map key t)"
  by (induction t) auto

lemma tbl_get_SomeD: "tbl_get key k t = Some r \<Longrightarrow> r \<in> set t \<and> key r = k"
  by (induction t) (auto split: if_splits)

lemma tbl_get_Some_iff:
  "primary_key key t \<Longrightarrow> tbl_get key k t = Some r \<longleftrightarrow> r \<in> set t \<and> key r = k"
proof (induction t)
  case (Cons a t)
  then show ?case by (auto simp: rev_image_eqI)
qed simp

lemma tbl_get_append:
  "tbl_get key k (t @ u) = (case tbl_get key k t of None \<Rightarrow> tbl_get key k u | Some r \<Rightarrow> Some r)"
  by (induction t) auto

lemma tbl_get_map:
  "(\<And>r. key (f r) = key r) \<Longrightarrow> tbl_get key k (map f t) = map_option f (tbl_get key k t)"
  by (induction t) auto

lemma tbl_get_filter:
  "primary_key key t \<Longrightarrow>
   tbl_get key k (filter P t) =
     (case tbl_get key k t of None \<Rightarrow> None | Some r \<Rightarrow> if P r then Some r else None)"
proof (induction t)
  case (Cons a t)
  show ?case
  proof (cases "key a = k")
    case True
    with Cons.prems have "k \<notin> set (map key (filter P t))" by auto
    with True show ?thesis by (simp add: tbl_get_None_iff)
  qed (use Cons in auto)
qed simp

lemma tbl_get_delete:
  "tbl_get key k (tbl_delete key j t) = (if k = j then None else tbl_get key k t)"
  by (induction t) (auto simp: tbl_delete_def)

lemma primary_key_filter: "primary_key key t \<Longrightarrow> primary_key key (filter P t)"
  by (simp add: distinct_map_filter)

lemma primary_key_delete: "primary_key key t \<Longrightarrow> primary_key key (tbl_delete key k t)"
  by (simp add: tbl_delete_def primary_key_filter)

lemma keys_map: "(\<And>r. key (f r) = key r) \<Longrightarrow> map key (map f t) = map key t"
  by simp

locale keyed_table =
  fixes key :: "'r \<Rightarrow> 'k"
    and merge :: "'r \<Rightarrow> 'r \<Rightarrow> 'r"
  assumes key_merge: "key (merge old new) = key old"
begin

lemma map_keys_upsert:
  "map key (tbl_upsert key merge r t) =
     (if key r \<in> set (map key t) then map key t else map key t @ [key r])"
  by (auto simp: tbl_upsert_def key_merge)

lemma primary_key_upsert:
  "primary_key key t \<Longrightarrow> primary_key key (tbl_upsert key merge r t)"
  unfolding map_keys_upsert by auto

lemma get_upsert:
  "tbl_get key k (tbl_upsert key merge r t) =
     (if k = key r
      then Some (case tbl_get key k t of None \<Rightarrow> r | Some old \<Rightarrow> merge old r)
      else tbl_get key k t)"
proof (cases "key r \<in> set (map key t)")
  case True
  then have "tbl_get key (key r) t \<noteq> None"
    by (simp add: tbl_get_None_iff)
  moreover have "tbl_get key k (tbl_upsert key merge r t)
      = map_option (\<lambda>x. if key x = key r then merge x r else x) (tbl_get key k t)"
    using True by (simp add: tbl_upsert_def tbl_get_map key_merge)
  ultimately show ?thesis
    by (cases "tbl_get key k t") (auto dest: tbl_get_SomeD)
next
  case False
  then have "tbl_get key (key r) t = None"
    by (simp add: tbl_get_None_iff)
  with False show ?thesis
    by (auto simp: tbl_upsert_def tbl_get_append split: option.splits)
qed

lemma set_upsert:
  "x \<in> set (tbl_upsert key merge r t) \<Longrightarrow>
   x \<in> set t \<or> x = r \<or> (\<exists>old \<in> set t. key old = key r \<and> x = merge old r)"
  by (auto simp: tbl_upsert_def split: if_splits)

lemma length_upsert:
  "length (tbl_upsert key merge r t) =
     (if key r \<in> set (map key t) then length t else Suc (length t))"
  by (simp add: tbl_upsert_def)

end

section \<open>Dictionaries\<close>

definition dict_get :: "('k \<times> 'v) list \<Rightarrow> 'k \<Rightarrow> 'v option" where
  "dict_get d k = map_of d k"

definition dict_set :: "'k \<Rightarrow> 'v \<Rightarrow> ('k \<times> 'v) list \<Rightarrow> ('k \<times> 'v) list" where
  "dict_set k v d = AList.update k v d"

definition dict_pop :: "'k \<Rightarrow> ('k \<times> 'v) list \<Rightarrow> ('k \<times> 'v) list" where
  "dict_pop k d = AList.delete k d"

locale dictionary =
  fixes get :: "'d \<Rightarrow> 'k \<Rightarrow> 'v option"
    and set :: "'k \<Rightarrow> 'v \<Rightarrow> 'd \<Rightarrow> 'd"
    and pop :: "'k \<Rightarrow> 'd \<Rightarrow> 'd"
    and wf :: "'d \<Rightarrow> bool"
  assumes get_set: "get (set k v d) j = (if j = k then Some v else get d j)"
    and get_pop: "get (pop k d) j = (if j = k then None else get d j)"
    and wf_set: "wf d \<Longrightarrow> wf (set k v d)"
    and wf_pop: "wf d \<Longrightarrow> wf (pop k d)"
begin

lemma get_set_same [simp]: "get (set k v d) k = Some v"
  by (simp add: get_set)

lemma get_pop_same [simp]: "get (pop k d) k = None"
  by (simp add: get_pop)

lemma get_set_pop_other: "j \<noteq> k \<Longrightarrow> get (pop k (set k v d)) j = get d j"
  by (simp add: get_set get_pop)

lemma stale_pop_hides: "get (pop k (set k v d)) k = None"
  by (simp add: get_pop)

end

lemma dict_get_set: "dict_get (dict_set k v d) j = (if j = k then Some v else dict_get d j)"
  by (simp add: dict_get_def dict_set_def update_conv' fun_upd_def)

lemma dict_get_pop: "dict_get (dict_pop k d) j = (if j = k then None else dict_get d j)"
  by (simp add: dict_get_def dict_pop_def delete_conv' fun_upd_def)

interpretation pydict: dictionary dict_get dict_set dict_pop "\<lambda>d. distinct (map fst d)"
proof unfold_locales
  show "distinct (map fst (dict_set k v d))" if "distinct (map fst d)" for k v and d :: "('a \<times> 'b) list"
    using that by (simp add: dict_set_def distinct_update)
  show "distinct (map fst (dict_pop k d))" if "distinct (map fst d)" for k and d :: "('a \<times> 'b) list"
    using that by (simp add: dict_pop_def distinct_delete)
qed (rule dict_get_set dict_get_pop)+

end
