(* ===== verification/Nevod_Storage.thy ===== *)
theory Nevod_Storage
  imports Nevod_Table
begin

text \<open>
  The SQLite storage of a node (\<^verbatim>\<open>node/storage.py\<close>).

  The database is a record of four tables; each method of \<^verbatim>\<open>Storage\<close> that issues SQL is a
  function on it, with \<^verbatim>\<open>int(time.time())\<close> as the argument \<open>now\<close>.  \<open>run_op\<close> collects the
  methods that write, \<open>db_reach\<close> the databases any sequence of them reaches from an empty
  file, in any order and at any times: since each method is one statement followed by
  \<^verbatim>\<open>commit\<close>, this is also what interleaved coroutines can produce.  \<open>wf_db\<close> is the invariant,
  \<open>spec_op\<close> the abstract specification over finite maps that \<open>run_op\<close> refines.
\<close>

section \<open>Rows and entries\<close>

definition TTL_NODE_OFFLINE_SECS :: int where
  "TTL_NODE_OFFLINE_SECS = 72 * 3600"

definition TTL_MESSAGE_SECS :: int where
  "TTL_MESSAGE_SECS = 72 * 3600"

definition MISSED_PINGS_OFFLINE :: int where
  "MISSED_PINGS_OFFLINE = 3"

record NodeEntry =
  ne_node_id :: string
  ne_address :: string
  ne_type :: string
  ne_access :: string
  ne_cert :: bytes
  ne_parent_node :: string
  ne_last_seen :: int
  ne_missed_pings :: int
  ne_status :: string
  ne_added_at :: int

record node_row =
  nr_node_id :: string
  nr_address :: string
  nr_type :: string
  nr_access :: string
  nr_cert :: "bytes option"
  nr_parent_node :: "string option"
  nr_last_seen :: int
  nr_missed_pings :: int
  nr_status :: string
  nr_added_at :: int

record CellEntry =
  ce_cell_id :: string
  ce_signing_pubkey :: bytes
  ce_enc_pubkey :: bytes
  ce_registered_at :: int
  ce_is_home :: bool

record cell_row =
  cr_cell_id :: string
  cr_signing_pubkey :: bytes
  cr_enc_pubkey :: bytes
  cr_registered_at :: int
  cr_is_home :: int

record PresenceEntry =
  pe_cell_id :: string
  pe_home_node_id :: string
  pe_visiting_node_id :: "string option"
  pe_updated_at :: int

record BufferedMessage =
  bm_message_id :: string
  bm_to_cell :: string
  bm_to_node :: string
  bm_payload :: bytes
  bm_created_at :: int
  bm_expires_at :: int

text \<open>The four tables of \<^verbatim>\<open>SCHEMA\<close>.\<close>

record db =
  node_table :: "node_row list"
  cells :: "cell_row list"
  presence_table :: "PresenceEntry list"
  message_buffer :: "BufferedMessage list"

definition empty_db :: db where
  "empty_db = \<lparr>node_table = [], cells = [], presence_table = [], message_buffer = []\<rparr>"

text \<open>\<^verbatim>\<open>Storage.open\<close>: \<^verbatim>\<open>CREATE TABLE IF NOT EXISTS\<close> leaves the tables of an existing file.\<close>

definition storage_open :: "db option \<Rightarrow> db" where
  "storage_open file = (case file of None \<Rightarrow> empty_db | Some d \<Rightarrow> d)"

definition row_to_node :: "node_row \<Rightarrow> NodeEntry" where
  "row_to_node r = \<lparr>
     ne_node_id = nr_node_id r,
     ne_address = nr_address r,
     ne_type = nr_type r,
     ne_access = nr_access r,
     ne_cert = (case nr_cert r of None \<Rightarrow> [] | Some c \<Rightarrow> c),
     ne_parent_node = (case nr_parent_node r of None \<Rightarrow> [] | Some p \<Rightarrow> p),
     ne_last_seen = nr_last_seen r,
     ne_missed_pings = nr_missed_pings r,
     ne_status = nr_status r,
     ne_added_at = nr_added_at r\<rparr>"

definition node_to_row :: "int \<Rightarrow> NodeEntry \<Rightarrow> node_row" where
  "node_to_row added e = \<lparr>
     nr_node_id = ne_node_id e,
     nr_address = ne_address e,
     nr_type = ne_type e,
     nr_access = ne_access e,
     nr_cert = Some (ne_cert e),
     nr_parent_node = Some (ne_parent_node e),
     nr_last_seen = ne_last_seen e,
     nr_missed_pings = ne_missed_pings e,
     nr_status = ne_status e,
     nr_added_at = added\<rparr>"

text \<open>\<^verbatim>\<open>NodeEntry.to_dict\<close>: the dictionary put into a gossip payload.\<close>

definition to_dict :: "NodeEntry \<Rightarrow> pyval" where
  "to_dict e = PDict [
     (PStr ''node_id'', PStr (ne_node_id e)),
     (PStr ''address'', PStr (ne_address e)),
     (PStr ''type'', PStr (ne_type e)),
     (PStr ''access'', PStr (ne_access e)),
     (PStr ''cert'', PStr (if ne_cert e \<noteq> [] then hex (ne_cert e) else [])),
     (PStr ''parent_node'', PStr (ne_parent_node e)),
     (PStr ''last_seen'', PInt (ne_last_seen e)),
     (PStr ''status'', PStr (ne_status e))]"

section \<open>node\_table\<close>

definition node_conflict :: "node_row \<Rightarrow> node_row \<Rightarrow> node_row" where
  "node_conflict old new = old\<lparr>
     nr_address := nr_address new,
     nr_last_seen := nr_last_seen new,
     nr_missed_pings := nr_missed_pings new,
     nr_status := nr_status new,
     nr_cert := nr_cert new\<rparr>"

definition upsert_node :: "int \<Rightarrow> NodeEntry \<Rightarrow> db \<Rightarrow> db" where
  "upsert_node now entry d =
     (let added = (if ne_added_at entry \<noteq> 0 then ne_added_at entry else now) in
      d\<lparr>node_table :=
          tbl_upsert nr_node_id node_conflict (node_to_row added entry) (node_table d)\<rparr>)"

definition get_node :: "string \<Rightarrow> db \<Rightarrow> NodeEntry option" where
  "get_node node_id d = map_option row_to_node (tbl_get nr_node_id node_id (node_table d))"

definition get_all_nodes :: "db \<Rightarrow> NodeEntry list" where
  "get_all_nodes d = map row_to_node (node_table d)"

definition get_online_nodes :: "db \<Rightarrow> NodeEntry list" where
  "get_online_nodes d = map row_to_node (filter (\<lambda>r. nr_status r = ''online'') (node_table d))"

definition update_node_ping :: "int \<Rightarrow> string \<Rightarrow> bool \<Rightarrow> db \<Rightarrow> db" where
  "update_node_ping now node_id success d =
     (if success
      then d\<lparr>node_table := tbl_update nr_node_id node_id
               (\<lambda>r. r\<lparr>nr_last_seen := now, nr_missed_pings := 0, nr_status := ''online''\<rparr>)
               (node_table d)\<rparr>
      else d\<lparr>node_table := tbl_update nr_node_id node_id
               (\<lambda>r. r\<lparr>nr_missed_pings := nr_missed_pings r + 1,
                       nr_status := (if nr_missed_pings r + 1 \<ge> MISSED_PINGS_OFFLINE
                                     then ''offline'' else nr_status r)\<rparr>)
               (node_table d)\<rparr>)"

definition remove_node :: "string \<Rightarrow> db \<Rightarrow> db" where
  "remove_node node_id d = d\<lparr>node_table := tbl_delete nr_node_id node_id (node_table d)\<rparr>"

definition cleanup_expired_nodes :: "int \<Rightarrow> db \<Rightarrow> db" where
  "cleanup_expired_nodes now d =
     (let cutoff = now - TTL_NODE_OFFLINE_SECS in
      d\<lparr>node_table :=
          filter (\<lambda>r. \<not> (nr_status r = ''offline'' \<and> nr_last_seen r < cutoff)) (node_table d)\<rparr>)"

section \<open>cells\<close>

definition cell_conflict :: "cell_row \<Rightarrow> cell_row \<Rightarrow> cell_row" where
  "cell_conflict old new = old\<lparr>
     cr_signing_pubkey := cr_signing_pubkey new,
     cr_enc_pubkey := cr_enc_pubkey new\<rparr>"

definition register_cell :: "int \<Rightarrow> string \<Rightarrow> bytes \<Rightarrow> bytes \<Rightarrow> bool \<Rightarrow> db \<Rightarrow> db" where
  "register_cell now cell_id signing_pubkey enc_pubkey is_home d =
     d\<lparr>cells := tbl_upsert cr_cell_id cell_conflict
         \<lparr>cr_cell_id = cell_id, cr_signing_pubkey = signing_pubkey, cr_enc_pubkey = enc_pubkey,
          cr_registered_at = now, cr_is_home = (if is_home then 1 else 0)\<rparr> (cells d)\<rparr>"

definition row_to_cell :: "cell_row \<Rightarrow> CellEntry" where
  "row_to_cell r = \<lparr>
     ce_cell_id = cr_cell_id r,
     ce_signing_pubkey = cr_signing_pubkey r,
     ce_enc_pubkey = cr_enc_pubkey r,
     ce_registered_at = cr_registered_at r,
     ce_is_home = (cr_is_home r \<noteq> 0)\<rparr>"

definition get_cell :: "string \<Rightarrow> db \<Rightarrow> CellEntry option" where
  "get_cell cell_id d = map_option row_to_cell (tbl_get cr_cell_id cell_id (cells d))"

definition list_cells :: "bool \<Rightarrow> db \<Rightarrow> CellEntry list" where
  "list_cells home_only d =
     map row_to_cell
       (if home_only then filter (\<lambda>r. cr_is_home r = 1) (cells d) else cells d)"

section \<open>presence\_table\<close>

definition presence_conflict :: "PresenceEntry \<Rightarrow> PresenceEntry \<Rightarrow> PresenceEntry" where
  "presence_conflict old new = old\<lparr>
     pe_home_node_id := pe_home_node_id new,
     pe_visiting_node_id := pe_visiting_node_id new,
     pe_updated_at := pe_updated_at new\<rparr>"

definition update_presence :: "int \<Rightarrow> string \<Rightarrow> string \<Rightarrow> string option \<Rightarrow> db \<Rightarrow> db" where
  "update_presence now cell_id home_node_id visiting_node_id d =
     d\<lparr>presence_table := tbl_upsert pe_cell_id presence_conflict
         \<lparr>pe_cell_id = cell_id, pe_home_node_id = home_node_id,
          pe_visiting_node_id = visiting_node_id, pe_updated_at = now\<rparr> (presence_table d)\<rparr>"

definition get_presence :: "string \<Rightarrow> db \<Rightarrow> PresenceEntry option" where
  "get_presence cell_id d = tbl_get pe_cell_id cell_id (presence_table d)"

section \<open>message\_buffer\<close>

definition buffer_message :: "int \<Rightarrow> string \<Rightarrow> string \<Rightarrow> string \<Rightarrow> bytes \<Rightarrow> db \<Rightarrow> db" where
  "buffer_message now message_id to_cell to_node payload d =
     d\<lparr>message_buffer := tbl_upsert bm_message_id (\<lambda>old new. old)
         \<lparr>bm_message_id = message_id, bm_to_cell = to_cell, bm_to_node = to_node,
          bm_payload = payload, bm_created_at = now,
          bm_expires_at = now + TTL_MESSAGE_SECS\<rparr> (message_buffer d)\<rparr>"

definition get_buffered :: "int \<Rightarrow> string \<Rightarrow> db \<Rightarrow> BufferedMessage list" where
  "get_buffered now to_cell d =
     filter (\<lambda>m. bm_to_cell m = to_cell \<and> bm_expires_at m > now) (message_buffer d)"

definition delete_buffered :: "string \<Rightarrow> db \<Rightarrow> db" where
  "delete_buffered message_id d =
     d\<lparr>message_buffer := tbl_delete bm_message_id message_id (message_buffer d)\<rparr>"

definition cleanup_expired_messages :: "int \<Rightarrow> db \<Rightarrow> db" where
  "cleanup_expired_messages now d =
     d\<lparr>message_buffer := filter (\<lambda>m. \<not> bm_expires_at m \<le> now) (message_buffer d)\<rparr>"

lemmas storage_defs =
  upsert_node_def update_node_ping_def remove_node_def cleanup_expired_nodes_def
  register_cell_def update_presence_def buffer_message_def delete_buffered_def
  cleanup_expired_messages_def

lemmas storage_read_defs =
  get_node_def get_all_nodes_def get_online_nodes_def get_cell_def list_cells_def
  get_presence_def get_buffered_def

section \<open>The tables keep their primary keys\<close>

interpretation nodes: keyed_table nr_node_id node_conflict
  by unfold_locales (simp add: node_conflict_def)

interpretation cells: keyed_table cr_cell_id cell_conflict
  by unfold_locales (simp add: cell_conflict_def)

interpretation presence: keyed_table pe_cell_id presence_conflict
  by unfold_locales (simp add: presence_conflict_def)

interpretation buffer: keyed_table bm_message_id "\<lambda>old new. old"
  by unfold_locales simp

section \<open>The methods that write, and the databases they reach\<close>

datatype storage_op =
    UpsertNode NodeEntry
  | UpdateNodePing string bool
  | RemoveNode string
  | CleanupExpiredNodes
  | RegisterCell string bytes bytes bool
  | UpdatePresence string string "string option"
  | BufferMessage string string string bytes
  | DeleteBuffered string
  | CleanupExpiredMessages

fun run_op :: "int \<Rightarrow> storage_op \<Rightarrow> db \<Rightarrow> db" where
  "run_op now (UpsertNode e) d = upsert_node now e d"
| "run_op now (UpdateNodePing n ok) d = update_node_ping now n ok d"
| "run_op now (RemoveNode n) d = remove_node n d"
| "run_op now CleanupExpiredNodes d = cleanup_expired_nodes now d"
| "run_op now (RegisterCell c sp ep home) d = register_cell now c sp ep home d"
| "run_op now (UpdatePresence c h v) d = update_presence now c h v d"
| "run_op now (BufferMessage m c n p) d = buffer_message now m c n p d"
| "run_op now (DeleteBuffered m) d = delete_buffered m d"
| "run_op now CleanupExpiredMessages d = cleanup_expired_messages now d"

inductive db_reach :: "db \<Rightarrow> bool" where
  db_open: "db_reach (storage_open None)"
| db_run: "db_reach d \<Longrightarrow> db_reach (run_op now op d)"

definition wf_db :: "db \<Rightarrow> bool" where
  "wf_db d \<longleftrightarrow>
     primary_key nr_node_id (node_table d) \<and>
     primary_key cr_cell_id (cells d) \<and>
     primary_key pe_cell_id (presence_table d) \<and>
     primary_key bm_message_id (message_buffer d) \<and>
     (\<forall>m \<in> set (message_buffer d). bm_expires_at m = bm_created_at m + TTL_MESSAGE_SECS) \<and>
     (\<forall>c \<in> set (cells d). cr_is_home c = 0 \<or> cr_is_home c = 1)"

lemma map_keys_update [simp]:
  "(\<And>r. key (f r) = key r) \<Longrightarrow> map key (tbl_update key k f t) = map key t"
  by (simp add: tbl_update_def)

lemma wf_db_nodes_update:
  "wf_db d \<Longrightarrow> primary_key nr_node_id t \<Longrightarrow> wf_db (d\<lparr>node_table := t\<rparr>)"
  by (simp add: wf_db_def)

lemma wf_db_cells_update:
  "wf_db d \<Longrightarrow> primary_key cr_cell_id t \<Longrightarrow>
   (\<And>c. c \<in> set t \<Longrightarrow> cr_is_home c = 0 \<or> cr_is_home c = 1) \<Longrightarrow> wf_db (d\<lparr>cells := t\<rparr>)"
  by (simp add: wf_db_def)

lemma wf_db_presence_update:
  "wf_db d \<Longrightarrow> primary_key pe_cell_id t \<Longrightarrow> wf_db (d\<lparr>presence_table := t\<rparr>)"
  by (simp add: wf_db_def)

lemma wf_db_buffer_update:
  "wf_db d \<Longrightarrow> primary_key bm_message_id t \<Longrightarrow>
   (\<And>m. m \<in> set t \<Longrightarrow> bm_expires_at m = bm_created_at m + TTL_MESSAGE_SECS) \<Longrightarrow>
   wf_db (d\<lparr>message_buffer := t\<rparr>)"
  by (simp add: wf_db_def)

lemma wf_db_keys:
  assumes "wf_db d"
  shows "primary_key nr_node_id (node_table d)" "primary_key cr_cell_id (cells d)"
    "primary_key pe_cell_id (presence_table d)" "primary_key bm_message_id (message_buffer d)"
  using assms by (simp_all add: wf_db_def)

lemma wf_upsert_node: "wf_db d \<Longrightarrow> wf_db (upsert_node now e d)"
  by (simp add: upsert_node_def Let_def wf_db_nodes_update nodes.primary_key_upsert wf_db_keys(1))

lemma wf_update_node_ping: "wf_db d \<Longrightarrow> wf_db (update_node_ping now n ok d)"
  by (simp add: update_node_ping_def wf_db_nodes_update wf_db_keys(1))

lemma wf_remove_node: "wf_db d \<Longrightarrow> wf_db (remove_node n d)"
  by (simp add: remove_node_def wf_db_nodes_update primary_key_delete wf_db_keys(1))

lemma wf_cleanup_expired_nodes: "wf_db d \<Longrightarrow> wf_db (cleanup_expired_nodes now d)"
  by (simp add: cleanup_expired_nodes_def Let_def wf_db_nodes_update primary_key_filter wf_db_keys(1))

lemma wf_register_cell: "wf_db d \<Longrightarrow> wf_db (register_cell now c sp ep home d)"
  unfolding register_cell_def
  by (rule wf_db_cells_update)
    (auto simp: wf_db_def cell_conflict_def intro: cells.primary_key_upsert dest!: cells.set_upsert)

lemma wf_update_presence: "wf_db d \<Longrightarrow> wf_db (update_presence now c h v d)"
  by (simp add: update_presence_def wf_db_presence_update presence.primary_key_upsert wf_db_keys(3))

lemma wf_buffer_message: "wf_db d \<Longrightarrow> wf_db (buffer_message now m c n p d)"
  unfolding buffer_message_def
  by (rule wf_db_buffer_update)
    (auto simp: wf_db_def intro: buffer.primary_key_upsert dest!: buffer.set_upsert)

lemma wf_delete_buffered: "wf_db d \<Longrightarrow> wf_db (delete_buffered m d)"
  unfolding delete_buffered_def
  by (rule wf_db_buffer_update) (auto simp: wf_db_def tbl_delete_def primary_key_filter)

lemma wf_cleanup_expired_messages: "wf_db d \<Longrightarrow> wf_db (cleanup_expired_messages now d)"
  unfolding cleanup_expired_messages_def
  by (rule wf_db_buffer_update) (auto simp: wf_db_def primary_key_filter)

lemmas wf_db_ops =
  wf_upsert_node wf_update_node_ping wf_remove_node wf_cleanup_expired_nodes wf_register_cell
  wf_update_presence wf_buffer_message wf_delete_buffered wf_cleanup_expired_messages

lemma wf_run_op: "wf_db d \<Longrightarrow> wf_db (run_op now op d)"
  by (cases op) (simp_all add: wf_db_ops)

lemma wf_empty_db: "wf_db empty_db"
  by (simp add: wf_db_def empty_db_def)

lemma db_reach_wf: "db_reach d \<Longrightarrow> wf_db d"
  by (induction rule: db_reach.induct) (auto simp: storage_open_def wf_empty_db wf_run_op)

text \<open>
  every database that a sequence of storage calls reaches from a fresh file satisfies the
  schema's promises: primary keys are unique in all four tables, every buffered message
  expires exactly 72 hours after it was created, and the home flag is 0 or 1.
\<close>
theorem storage_reachable_wf:
  assumes "db_reach d"
  shows "distinct (map nr_node_id (node_table d)) \<and> distinct (map cr_cell_id (cells d)) \<and>
    distinct (map pe_cell_id (presence_table d)) \<and>
    distinct (map bm_message_id (message_buffer d)) \<and>
    (\<forall>m \<in> set (message_buffer d). bm_expires_at m = bm_created_at m + 259200) \<and>
    (\<forall>c \<in> set (cells d). cr_is_home c \<in> {0, 1})"
  using db_reach_wf [OF assms] by (auto simp: wf_db_def TTL_MESSAGE_SECS_def)

theorem storage_reachable_wf_witness:
  "db_reach (run_op 100 (BufferMessage ''m1'' ''c1'' ''n1'' [1]) (storage_open None)) \<and>
   distinct (map bm_message_id
     (message_buffer (run_op 100 (BufferMessage ''m1'' ''c1'' ''n1'' [1]) (storage_open None))))"
proof -
  have r: "db_reach (run_op 100 (BufferMessage ''m1'' ''c1'' ''n1'' [1]) (storage_open None))"
    by (intro db_reach.intros)
  show ?thesis using r storage_reachable_wf [OF r] by blast
qed

section \<open>Refinement of an abstract specification\<close>

text \<open>The abstract database: one finite map per table, from primary key to entry.\<close>

record adb =
  a_nodes :: "string \<Rightarrow> NodeEntry option"
  a_cells :: "string \<Rightarrow> CellEntry option"
  a_presence :: "string \<Rightarrow> PresenceEntry option"
  a_buffer :: "string \<Rightarrow> BufferedMessage option"

definition abs_db :: "db \<Rightarrow> adb" where
  "abs_db d = \<lparr>
     a_nodes = (\<lambda>k. get_node k d),
     a_cells = (\<lambda>k. get_cell k d),
     a_presence = (\<lambda>k. get_presence k d),
     a_buffer = (\<lambda>k. tbl_get bm_message_id k (message_buffer d))\<rparr>"

definition keep_if :: "('v \<Rightarrow> bool) \<Rightarrow> ('k \<Rightarrow> 'v option) \<Rightarrow> 'k \<Rightarrow> 'v option" where
  "keep_if P m k = (case m k of None \<Rightarrow> None | Some v \<Rightarrow> if P v then Some v else None)"

definition spec_ping :: "int \<Rightarrow> bool \<Rightarrow> NodeEntry \<Rightarrow> NodeEntry" where
  "spec_ping now ok e =
     (if ok then e\<lparr>ne_last_seen := now, ne_missed_pings := 0, ne_status := ''online''\<rparr>
      else e\<lparr>ne_missed_pings := ne_missed_pings e + 1,
             ne_status := (if ne_missed_pings e + 1 \<ge> 3 then ''offline'' else ne_status e)\<rparr>)"

fun spec_op :: "int \<Rightarrow> storage_op \<Rightarrow> adb \<Rightarrow> adb" where
  "spec_op now (UpsertNode e) a = a\<lparr>a_nodes := (a_nodes a)(ne_node_id e \<mapsto>
     (case a_nodes a (ne_node_id e) of
        None \<Rightarrow> e\<lparr>ne_added_at := (if ne_added_at e = 0 then now else ne_added_at e)\<rparr>
      | Some old \<Rightarrow> e\<lparr>ne_type := ne_type old, ne_access := ne_access old,
                     ne_parent_node := ne_parent_node old, ne_added_at := ne_added_at old\<rparr>))\<rparr>"
| "spec_op now (UpdateNodePing n ok) a =
     a\<lparr>a_nodes := (a_nodes a)(n := map_option (spec_ping now ok) (a_nodes a n))\<rparr>"
| "spec_op now (RemoveNode n) a = a\<lparr>a_nodes := (a_nodes a)(n := None)\<rparr>"
| "spec_op now CleanupExpiredNodes a = a\<lparr>a_nodes :=
     keep_if (\<lambda>e. ne_status e = ''offline'' \<longrightarrow> now - ne_last_seen e \<le> 72 * 3600) (a_nodes a)\<rparr>"
| "spec_op now (RegisterCell c sp ep home) a = a\<lparr>a_cells := (a_cells a)(c \<mapsto>
     (case a_cells a c of
        None \<Rightarrow> \<lparr>ce_cell_id = c, ce_signing_pubkey = sp, ce_enc_pubkey = ep,
                 ce_registered_at = now, ce_is_home = home\<rparr>
      | Some old \<Rightarrow> old\<lparr>ce_signing_pubkey := sp, ce_enc_pubkey := ep\<rparr>))\<rparr>"
| "spec_op now (UpdatePresence c h v) a = a\<lparr>a_presence := (a_presence a)(c \<mapsto>
     \<lparr>pe_cell_id = c, pe_home_node_id = h, pe_visiting_node_id = v, pe_updated_at = now\<rparr>)\<rparr>"
| "spec_op now (BufferMessage m c n p) a = a\<lparr>a_buffer := (a_buffer a)(m \<mapsto>
     (case a_buffer a m of
        None \<Rightarrow> \<lparr>bm_message_id = m, bm_to_cell = c, bm_to_node = n, bm_payload = p,
                 bm_created_at = now, bm_expires_at = now + 72 * 3600\<rparr>
      | Some old \<Rightarrow> old))\<rparr>"
| "spec_op now (DeleteBuffered m) a = a\<lparr>a_buffer := (a_buffer a)(m := None)\<rparr>"
| "spec_op now CleanupExpiredMessages a =
     a\<lparr>a_buffer := keep_if (\<lambda>m. now < bm_expires_at m) (a_buffer a)\<rparr>"

lemma tbl_get_update:
  "(\<And>r. key (f r) = key r) \<Longrightarrow>
   tbl_get key k (tbl_update key j f t) =
     (if k = j then map_option f (tbl_get key k t) else tbl_get key k t)"
  by (induction t) (auto simp: tbl_update_def)

lemma get_node_upsert:
  "get_node k (upsert_node now e d) =
     (if k = ne_node_id e
      then Some (case get_node k d of
          None \<Rightarrow> e\<lparr>ne_added_at := (if ne_added_at e = 0 then now else ne_added_at e)\<rparr>
        | Some old \<Rightarrow> e\<lparr>ne_type := ne_type old, ne_access := ne_access old,
                       ne_parent_node := ne_parent_node old, ne_added_at := ne_added_at old\<rparr>)
      else get_node k d)"
  by (cases e) (auto simp: get_node_def upsert_node_def Let_def nodes.get_upsert node_to_row_def
      row_to_node_def node_conflict_def split: option.splits dest: tbl_get_SomeD)

lemma get_node_ping:
  "get_node k (update_node_ping now n ok d) =
     (if k = n then map_option (spec_ping now ok) (get_node k d) else get_node k d)"
  by (cases "tbl_get nr_node_id k (node_table d)")
    (auto simp: get_node_def update_node_ping_def tbl_get_update spec_ping_def row_to_node_def
      MISSED_PINGS_OFFLINE_def)

lemma get_node_remove: "get_node k (remove_node n d) = (if k = n then None else get_node k d)"
  by (simp add: get_node_def remove_node_def tbl_get_delete)

lemma get_node_cleanup:
  "wf_db d \<Longrightarrow> get_node k (cleanup_expired_nodes now d) =
     keep_if (\<lambda>e. ne_status e = ''offline'' \<longrightarrow> now - ne_last_seen e \<le> 72 * 3600)
       (\<lambda>k. get_node k d) k"
  by (cases "tbl_get nr_node_id k (node_table d)")
    (auto simp: get_node_def cleanup_expired_nodes_def Let_def tbl_get_filter wf_db_keys(1)
      keep_if_def row_to_node_def TTL_NODE_OFFLINE_SECS_def)

lemma get_cell_register:
  "get_cell k (register_cell now c sp ep home d) =
     (if k = c
      then Some (case get_cell k d of
          None \<Rightarrow> \<lparr>ce_cell_id = c, ce_signing_pubkey = sp, ce_enc_pubkey = ep,
                   ce_registered_at = now, ce_is_home = home\<rparr>
        | Some old \<Rightarrow> old\<lparr>ce_signing_pubkey := sp, ce_enc_pubkey := ep\<rparr>)
      else get_cell k d)"
  by (auto simp: get_cell_def register_cell_def cells.get_upsert row_to_cell_def
      cell_conflict_def split: option.splits)

lemma get_presence_update:
  "get_presence k (update_presence now c h v d) =
     (if k = c then Some \<lparr>pe_cell_id = c, pe_home_node_id = h, pe_visiting_node_id = v,
                          pe_updated_at = now\<rparr>
      else get_presence k d)"
  by (auto simp: get_presence_def update_presence_def presence.get_upsert presence_conflict_def
      split: option.splits dest: tbl_get_SomeD)

lemma frame_nodes [simp]:
  "get_node k (register_cell now c sp ep home d) = get_node k d"
  "get_node k (update_presence now c h v d) = get_node k d"
  "get_node k (buffer_message now m c n p d) = get_node k d"
  "get_node k (delete_buffered m d) = get_node k d"
  "get_node k (cleanup_expired_messages now d) = get_node k d"
  by (simp_all add: get_node_def storage_defs)

lemma frame_cells [simp]:
  "get_cell k (upsert_node now e d) = get_cell k d"
  "get_cell k (update_node_ping now nid ok d) = get_cell k d"
  "get_cell k (remove_node nid d) = get_cell k d"
  "get_cell k (cleanup_expired_nodes now d) = get_cell k d"
  "get_cell k (update_presence now c h v d) = get_cell k d"
  "get_cell k (buffer_message now m c n p d) = get_cell k d"
  "get_cell k (delete_buffered m d) = get_cell k d"
  "get_cell k (cleanup_expired_messages now d) = get_cell k d"
  by (simp_all add: get_cell_def storage_defs Let_def)

lemma frame_presence [simp]:
  "get_presence k (upsert_node now e d) = get_presence k d"
  "get_presence k (update_node_ping now nid ok d) = get_presence k d"
  "get_presence k (remove_node nid d) = get_presence k d"
  "get_presence k (cleanup_expired_nodes now d) = get_presence k d"
  "get_presence k (register_cell now c sp ep home d) = get_presence k d"
  "get_presence k (buffer_message now m c n p d) = get_presence k d"
  "get_presence k (delete_buffered m d) = get_presence k d"
  "get_presence k (cleanup_expired_messages now d) = get_presence k d"
  by (simp_all add: get_presence_def storage_defs Let_def)

lemma frame_buffer [simp]:
  "message_buffer (upsert_node now e d) = message_buffer d"
  "message_buffer (update_node_ping now nid ok d) = message_buffer d"
  "message_buffer (remove_node nid d) = message_buffer d"
  "message_buffer (cleanup_expired_nodes now d) = message_buffer d"
  "message_buffer (register_cell now c sp ep home d) = message_buffer d"
  "message_buffer (update_presence now c h v d) = message_buffer d"
  by (simp_all add: storage_defs Let_def)

lemma buffer_get_after:
  "tbl_get bm_message_id k (message_buffer (buffer_message now m c n p d)) =
     (if k = m
      then Some (case tbl_get bm_message_id k (message_buffer d) of
          None \<Rightarrow> \<lparr>bm_message_id = m, bm_to_cell = c, bm_to_node = n, bm_payload = p,
                   bm_created_at = now, bm_expires_at = now + 72 * 3600\<rparr>
        | Some old \<Rightarrow> old)
      else tbl_get bm_message_id k (message_buffer d))"
  by (auto simp: buffer_message_def buffer.get_upsert TTL_MESSAGE_SECS_def split: option.splits)

lemma buffer_get_cleanup:
  "wf_db d \<Longrightarrow> tbl_get bm_message_id k (message_buffer (cleanup_expired_messages now d)) =
     keep_if (\<lambda>m. now < bm_expires_at m) (\<lambda>k. tbl_get bm_message_id k (message_buffer d)) k"
  by (auto simp: cleanup_expired_messages_def tbl_get_filter wf_db_keys(4) keep_if_def
      split: option.splits)

text \<open>
  C6: every storage method that writes refines its abstract specification on finite maps: the
  map view of the database after the SQL statement is the specified update of the map view
  before it (upsert keeps type, access, parent and \<^verbatim>\<open>added_at\<close>; a failed ping counts up and turns
  a node offline at three; re-registration keeps the registration time and home flag;
  re-buffering an id keeps the first message).
\<close>
theorem storage_refines_spec:
  assumes "wf_db d"
  shows "abs_db (run_op now op d) = spec_op now op (abs_db d)"
proof (cases op)
  case (UpsertNode e)
  then show ?thesis by (auto simp: abs_db_def get_node_upsert)
next
  case (UpdateNodePing n ok)
  then show ?thesis by (auto simp: abs_db_def get_node_ping)
next
  case (RemoveNode n)
  then show ?thesis by (auto simp: abs_db_def get_node_remove)
next
  case CleanupExpiredNodes
  then show ?thesis using assms by (auto simp: abs_db_def get_node_cleanup)
next
  case (RegisterCell c sp ep home)
  then show ?thesis by (auto simp: abs_db_def get_cell_register)
next
  case (UpdatePresence c h v)
  then show ?thesis by (auto simp: abs_db_def get_presence_update)
next
  case (BufferMessage m c n p)
  then show ?thesis by (auto simp: abs_db_def buffer_get_after)
next
  case (DeleteBuffered m)
  then show ?thesis by (auto simp: abs_db_def delete_buffered_def tbl_get_delete
        get_node_def get_cell_def get_presence_def)
next
  case CleanupExpiredMessages
  then show ?thesis using assms by (auto simp: abs_db_def buffer_get_cleanup)
qed

theorem storage_refines_spec_witness:
  "wf_db empty_db \<and>
   abs_db (run_op 5 (UpdatePresence ''c'' ''h'' None) empty_db)
     = spec_op 5 (UpdatePresence ''c'' ''h'' None) (abs_db empty_db)"
  using wf_empty_db storage_refines_spec [OF wf_empty_db] by blast

section \<open>Liveness of nodes\<close>

definition fail_pings :: "string \<Rightarrow> int list \<Rightarrow> db \<Rightarrow> db" where
  "fail_pings n ts d = fold (\<lambda>t. update_node_ping t n False) ts d"

lemma get_node_fail_pings:
  assumes "get_node n d = Some e"
  shows "get_node n (fail_pings n ts d) =
    Some (e\<lparr>ne_missed_pings := ne_missed_pings e + int (length ts),
            ne_status := (if ts \<noteq> [] \<and> ne_missed_pings e + int (length ts) \<ge> 3
                          then ''offline'' else ne_status e)\<rparr>)"
proof (induction ts rule: rev_induct)
  case Nil
  then show ?case using assms by (simp add: fail_pings_def)
next
  case (snoc t ts)
  have "get_node n (fail_pings n (ts @ [t]) d)
      = map_option (spec_ping t False) (get_node n (fail_pings n ts d))"
    by (simp add: fail_pings_def get_node_ping)
  with snoc.IH show ?case by (auto simp: spec_ping_def)
qed

text \<open>
  C28: a known node that is online with no missed ping stays online through one or two failed
  pings and is offline from the third on, whatever the times of the pings; its
  \<^verbatim>\<open>last_seen\<close> does not move; and one successful ping at time \<open>t\<close> after any number of
  failures brings it back online with the counter at 0 and \<^verbatim>\<open>last_seen\<close> at \<open>t\<close>.
\<close>
theorem three_missed_pings_offline:
  assumes "get_node n d = Some e" and "ne_status e = ''online''" and "ne_missed_pings e = 0"
  shows "\<exists>e1 e2. get_node n (fail_pings n ts d) = Some e1 \<and>
      (ne_status e1 = ''offline'' \<longleftrightarrow> 3 \<le> length ts) \<and>
      (ne_status e1 = ''online'' \<longleftrightarrow> length ts < 3) \<and>
      ne_missed_pings e1 = int (length ts) \<and> ne_last_seen e1 = ne_last_seen e \<and>
      get_node n (update_node_ping t n True (fail_pings n ts d)) = Some e2 \<and>
      ne_status e2 = ''online'' \<and> ne_missed_pings e2 = 0 \<and> ne_last_seen e2 = t"
  using assms by (cases "length ts < 3") (auto simp: get_node_fail_pings get_node_ping spec_ping_def)

definition example_node :: NodeEntry where
  "example_node = \<lparr>ne_node_id = ''n1'', ne_address = ''10.0.0.1:8765'', ne_type = ''permanent'',
     ne_access = ''open'', ne_cert = [], ne_parent_node = [], ne_last_seen = 1000,
     ne_missed_pings = 0, ne_status = ''online'', ne_added_at = 1000\<rparr>"

theorem three_missed_pings_offline_witness:
  "get_node ''n1'' (upsert_node 1000 example_node empty_db) = Some example_node \<and>
   (\<exists>e1. get_node ''n1'' (fail_pings ''n1'' [1030, 1060, 1090]
           (upsert_node 1000 example_node empty_db)) = Some e1 \<and> ne_status e1 = ''offline'')"
proof -
  have g: "get_node ''n1'' (upsert_node 1000 example_node empty_db) = Some example_node"
    by (simp add: get_node_upsert example_node_def) (simp add: get_node_def empty_db_def)
  show ?thesis
    using three_missed_pings_offline [OF g, of "[1030, 1060, 1090]" 0] g
    by (auto simp: example_node_def)
qed

text \<open>
  \<^verbatim>\<open>cleanup_expired_nodes\<close> forgets a node exactly when it is marked offline and was last seen
  more than 72 hours ago; every other node keeps its entry, an online node always does.
\<close>
theorem cleanup_nodes_exact:
  assumes "wf_db d"
  shows "(get_node n (cleanup_expired_nodes now d) = None \<longleftrightarrow>
       (case get_node n d of None \<Rightarrow> True
        | Some e \<Rightarrow> ne_status e = ''offline'' \<and> now - ne_last_seen e > 259200)) \<and>
     (\<forall>e. get_node n (cleanup_expired_nodes now d) = Some e \<longrightarrow> get_node n d = Some e)"
  using assms by (auto simp: get_node_cleanup keep_if_def split: option.splits if_splits)

theorem cleanup_nodes_exact_witness:
  "wf_db (upsert_node 1000 (example_node\<lparr>ne_status := ''offline''\<rparr>) empty_db) \<and>
   get_node ''n1'' (cleanup_expired_nodes 300000
     (upsert_node 1000 (example_node\<lparr>ne_status := ''offline''\<rparr>) empty_db)) = None \<and>
   get_node ''n1'' (cleanup_expired_nodes 200000
     (upsert_node 1000 (example_node\<lparr>ne_status := ''offline''\<rparr>) empty_db)) \<noteq> None"
proof -
  have w: "wf_db (upsert_node 1000 (example_node\<lparr>ne_status := ''offline''\<rparr>) empty_db)"
    by (intro wf_upsert_node wf_empty_db)
  show ?thesis
    using w cleanup_nodes_exact [OF w, of "''n1''" 300000]
      cleanup_nodes_exact [OF w, of "''n1''" 200000]
    by (simp add: get_node_upsert example_node_def) (simp add: get_node_def empty_db_def)
qed

text \<open>The health of a row: what the statuses and counters of a node table written by pings and
  by entries of freshly seen nodes satisfy.\<close>

definition healthy :: "node_row \<Rightarrow> bool" where
  "healthy r \<longleftrightarrow> 0 \<le> nr_missed_pings r \<and>
     nr_status r = (if nr_missed_pings r \<ge> MISSED_PINGS_OFFLINE then ''offline'' else ''online'')"

definition healthy_db :: "db \<Rightarrow> bool" where
  "healthy_db d \<longleftrightarrow> (\<forall>r \<in> set (node_table d). healthy r)"

lemma healthy_upsert:
  "healthy_db d \<Longrightarrow> ne_status e = ''online'' \<Longrightarrow> ne_missed_pings e = 0 \<Longrightarrow>
   healthy_db (upsert_node now e d)"
  by (auto simp: healthy_db_def upsert_node_def Let_def healthy_def node_to_row_def
      node_conflict_def MISSED_PINGS_OFFLINE_def dest!: nodes.set_upsert)

lemma healthy_ping: "healthy_db d \<Longrightarrow> healthy_db (update_node_ping now n ok d)"
  by (auto simp: healthy_db_def update_node_ping_def tbl_update_def healthy_def
      MISSED_PINGS_OFFLINE_def split: if_splits)

lemma healthy_remove: "healthy_db d \<Longrightarrow> healthy_db (remove_node n d)"
  by (auto simp: healthy_db_def remove_node_def tbl_delete_def)

lemma healthy_cleanup: "healthy_db d \<Longrightarrow> healthy_db (cleanup_expired_nodes now d)"
  by (auto simp: healthy_db_def cleanup_expired_nodes_def Let_def)

lemma healthy_frame [simp]:
  "healthy_db (register_cell now c sp ep home d) = healthy_db d"
  "healthy_db (update_presence now c h v d) = healthy_db d"
  "healthy_db (buffer_message now m c n p d) = healthy_db d"
  "healthy_db (delete_buffered m d) = healthy_db d"
  "healthy_db (cleanup_expired_messages now d) = healthy_db d"
  by (simp_all add: healthy_db_def storage_defs)

lemmas healthy_ops = healthy_upsert healthy_ping healthy_remove healthy_cleanup

section \<open>The message buffer as a store-and-forward queue\<close>

text \<open>What the router relies on: a stored message is fetched for its cell until it expires or is
  dropped, storing an id again changes nothing, dropping removes exactly that id.\<close>

locale message_store =
  fixes put :: "int \<Rightarrow> 'm \<Rightarrow> 's \<Rightarrow> 's"
    and fetch :: "int \<Rightarrow> string \<Rightarrow> 's \<Rightarrow> 'm list"
    and drop_id :: "string \<Rightarrow> 's \<Rightarrow> 's"
    and stored :: "string \<Rightarrow> 's \<Rightarrow> bool"
    and ident :: "'m \<Rightarrow> string"
    and dest :: "'m \<Rightarrow> string"
    and stamp :: "int \<Rightarrow> 'm \<Rightarrow> 'm"
    and ttl :: int
  assumes put_old: "stored (ident m) s \<Longrightarrow> put now m s = s"
    and fetch_put: "\<not> stored (ident m) s \<Longrightarrow>
      fetch t c (put now m s) =
        fetch t c s @ (if c = dest m \<and> t < now + ttl then [stamp now m] else [])"
    and stored_put: "stored i (put now m s) \<longleftrightarrow> i = ident m \<or> stored i s"
    and fetch_drop: "fetch t c (drop_id i s) = filter (\<lambda>m. ident m \<noteq> i) (fetch t c s)"
    and stored_drop: "stored i (drop_id j s) \<longleftrightarrow> i \<noteq> j \<and> stored i s"
begin

lemma put_idem: "put now' m (put now m s) = put now m s"
  by (simp add: put_old stored_put)

lemma fetch_until_expiry:
  "\<not> stored (ident m) s \<Longrightarrow> t < now + ttl \<Longrightarrow> stamp now m \<in> set (fetch t (dest m) (put now m s))"
  by (simp add: fetch_put)

lemma put_then_drop_lost: "stored (ident m) s \<Longrightarrow>
  fetch t c (drop_id (ident m) (put now m s)) = filter (\<lambda>x. ident x \<noteq> ident m) (fetch t c s)"
  by (simp add: put_old fetch_drop)

lemma drop_all:
  "fetch t c (fold drop_id is s) = filter (\<lambda>m. ident m \<notin> set is) (fetch t c s)"
  by (induction "is" arbitrary: s) (auto simp: fetch_drop filter_filter conj_commute intro!: filter_cong)

lemma drop_fetched: "fetch t c (fold drop_id (map ident (fetch t c s)) s) = []"
  by (simp add: drop_all filter_empty_conv)

end

definition put_message :: "int \<Rightarrow> BufferedMessage \<Rightarrow> db \<Rightarrow> db" where
  "put_message now m = buffer_message now (bm_message_id m) (bm_to_cell m) (bm_to_node m) (bm_payload m)"

definition is_buffered :: "string \<Rightarrow> db \<Rightarrow> bool" where
  "is_buffered i d \<longleftrightarrow> i \<in> bm_message_id ` set (message_buffer d)"

definition stamp_message :: "int \<Rightarrow> BufferedMessage \<Rightarrow> BufferedMessage" where
  "stamp_message now m = m\<lparr>bm_created_at := now, bm_expires_at := now + TTL_MESSAGE_SECS\<rparr>"

interpretation buf: message_store put_message get_buffered delete_buffered is_buffered
  bm_message_id bm_to_cell stamp_message TTL_MESSAGE_SECS
proof unfold_locales
  fix m :: BufferedMessage and d :: db and now t :: int and c i j :: string
  show "put_message now m d = d" if "is_buffered (bm_message_id m) d"
  proof -
    have "map (\<lambda>x. if bm_message_id x = bm_message_id m then x else x) (message_buffer d)
        = message_buffer d" by simp
    with that show ?thesis
      by (auto simp: put_message_def buffer_message_def tbl_upsert_def is_buffered_def)
  qed
  show "get_buffered t c (put_message now m d) = get_buffered t c d @
      (if c = bm_to_cell m \<and> t < now + TTL_MESSAGE_SECS then [stamp_message now m] else [])"
    if "\<not> is_buffered (bm_message_id m) d"
    using that by (cases m) (auto simp: put_message_def buffer_message_def tbl_upsert_def
        is_buffered_def get_buffered_def stamp_message_def)
  show "is_buffered i (put_message now m d) \<longleftrightarrow> i = bm_message_id m \<or> is_buffered i d"
    by (auto simp: put_message_def buffer_message_def tbl_upsert_def is_buffered_def)
  show "get_buffered t c (delete_buffered i d)
      = filter (\<lambda>m. bm_message_id m \<noteq> i) (get_buffered t c d)"
    by (auto simp: get_buffered_def delete_buffered_def tbl_delete_def conj_ac intro!: filter_cong)
  show "is_buffered i (delete_buffered j d) \<longleftrightarrow> i \<noteq> j \<and> is_buffered i d"
    by (auto simp: is_buffered_def delete_buffered_def tbl_delete_def)
qed

text \<open>
  a message buffered under a fresh id at time \<open>now\<close> is returned for its cell by every read
  before \<open>now\<close> + 72 h and by none from then on, never for another cell; buffering the same id
  again, with any content and at any time, changes nothing; and the expiry sweep at time \<open>t\<close>
  is invisible to every read at \<open>t\<close> or later.
\<close>
theorem buffered_until_expiry:
  assumes "m \<notin> bm_message_id ` set (message_buffer d)" and "t \<le> t'"
  shows "let msg = \<lparr>bm_message_id = m, bm_to_cell = c, bm_to_node = n, bm_payload = p,
                    bm_created_at = now, bm_expires_at = now + 259200\<rparr>;
             d' = buffer_message now m c n p d
    in (msg \<in> set (get_buffered t c' d') \<longleftrightarrow> c' = c \<and> t < now + 259200) \<and>
       filter (\<lambda>x. bm_message_id x \<noteq> m) (get_buffered t c' d') = get_buffered t c' d \<and>
       buffer_message now2 m c2 n2 p2 d' = d' \<and>
       get_buffered t' c' (cleanup_expired_messages t d') = get_buffered t' c' d'"
proof -
  define msg where "msg = \<lparr>bm_message_id = m, bm_to_cell = c, bm_to_node = n, bm_payload = p,
    bm_created_at = now, bm_expires_at = now + 259200\<rparr>"
  have fresh: "\<not> is_buffered (bm_message_id msg) d"
    using assms(1) by (simp add: is_buffered_def msg_def)
  have d': "buffer_message now m c n p d = put_message now msg d"
    by (simp add: put_message_def msg_def)
  have stamp: "stamp_message now msg = msg"
    by (simp add: stamp_message_def msg_def TTL_MESSAGE_SECS_def)
  have no_old: "x \<notin> set (get_buffered t c' d)" if "bm_message_id x = m" for x
    using assms(1) that by (auto simp: get_buffered_def)
  have gb: "get_buffered t c' (put_message now msg d) = get_buffered t c' d @
      (if c' = c \<and> t < now + 259200 then [msg] else [])"
    using buf.fetch_put [OF fresh, of t c' now] stamp by (simp add: msg_def TTL_MESSAGE_SECS_def)
  have "buffer_message now2 m c2 n2 p2 (put_message now msg d) = put_message now msg d"
  proof -
    have "is_buffered m (put_message now msg d)"
      by (simp add: buf.stored_put msg_def)
    then show ?thesis
      using buf.put_old [of "msg\<lparr>bm_to_cell := c2, bm_to_node := n2, bm_payload := p2\<rparr>"
          "put_message now msg d" now2]
      by (simp add: put_message_def msg_def)
  qed
  moreover have "get_buffered t' c' (cleanup_expired_messages t d2) = get_buffered t' c' d2" for d2
    using assms(2) by (auto simp: get_buffered_def cleanup_expired_messages_def intro!: filter_cong)
  moreover have "filter (\<lambda>x. bm_message_id x \<noteq> m) (get_buffered t c' (put_message now msg d))
      = get_buffered t c' d"
    unfolding gb using no_old by (auto simp: msg_def filter_id_conv)
  moreover have "msg \<in> set (get_buffered t c' (put_message now msg d)) \<longleftrightarrow> c' = c \<and> t < now + 259200"
    unfolding gb using no_old [of msg] by (auto simp: msg_def)
  ultimately show ?thesis
    unfolding d' Let_def msg_def [symmetric] by blast
qed

theorem buffered_until_expiry_witness:
  "''m'' \<notin> bm_message_id ` set (message_buffer empty_db) \<and>
   buffer_message 9 ''m'' ''c'' ''x'' [7] (buffer_message 5 ''m'' ''c'' ''n'' [1] empty_db)
     = buffer_message 5 ''m'' ''c'' ''n'' [1] empty_db"
proof -
  have f: "''m'' \<notin> bm_message_id ` set (message_buffer empty_db)"
    by (simp add: empty_db_def)
  show ?thesis
    using f buffered_until_expiry [OF f order_refl, of "''c''" "''n''" "[1]" 5 0 "''c''" 9 "''c''" "''x''" "[7]"]
    by (simp add: Let_def)
qed

end
