(* ===== verification/Nevod_Env.thy ===== *)
theory Nevod_Env
  imports Nevod_Prelude
begin

text \<open>
  What Nevod is built on and does not contain: the \<^verbatim>\<open>msgpack\<close>, \<^verbatim>\<open>cryptography\<close> and
  \<^verbatim>\<open>websockets\<close> packages, the clock, the random source, UUIDs.  They are the fields of the
  record \<open>env\<close>, an argument of every definition that uses them.  The calls whose answer may
  change from one call to the next (clock, randomness, sockets) take the number of the call:
  the \<open>world\<close> counts them in \<open>w_tick\<close>, so an environment is an arbitrary script of answers.
  \<open>e_serve\<close> is what
  \<^verbatim>\<open>websockets.serve\<close> raises, if anything (a port in use, a bad host, a port out of range);
  \<open>e_accepted\<close> tells the sockets the server accepted from those that were dialled.
  \<open>w_sent\<close> and \<open>w_closed\<close> record what was sent and closed, in order.  The state of a node and
  that of a cell client extend \<open>world\<close>.

  The predicates at the end state the documented behaviour that some theorems assume.
\<close>

type_synonym ws = nat

record env =
  e_packb :: "pyval \<Rightarrow> exn + bytes"
  e_unpackb :: "bytes \<Rightarrow> exn + pyval"
  e_repr :: "pyval \<Rightarrow> string"
  ed_pub :: "bytes \<Rightarrow> bytes"
  ed_sign :: "bytes \<Rightarrow> bytes \<Rightarrow> bytes"
  ed_verify :: "bytes \<Rightarrow> bytes \<Rightarrow> bytes \<Rightarrow> bool"
  x_pub :: "bytes \<Rightarrow> bytes"
  x_exchange :: "bytes \<Rightarrow> bytes \<Rightarrow> exn + bytes"
  e_hkdf :: "nat \<Rightarrow> bytes \<Rightarrow> bytes \<Rightarrow> bytes \<Rightarrow> bytes"
  aead_encrypt :: "bytes \<Rightarrow> bytes \<Rightarrow> bytes \<Rightarrow> bytes"
  aead_decrypt :: "bytes \<Rightarrow> bytes \<Rightarrow> bytes \<Rightarrow> exn + bytes"
  e_time :: "nat \<Rightarrow> int"
  e_urandom :: "nat \<Rightarrow> nat \<Rightarrow> bytes"
  e_uuid :: "nat \<Rightarrow> string"
  e_sample :: "nat \<Rightarrow> nat \<Rightarrow> nat \<Rightarrow> nat list"
  e_dial :: "nat \<Rightarrow> string \<Rightarrow> exn + ws"
  e_send :: "nat \<Rightarrow> ws \<Rightarrow> bytes \<Rightarrow> exn option"
  e_recv :: "nat \<Rightarrow> ws \<Rightarrow> exn + bytes"
  e_open :: "nat \<Rightarrow> ws \<Rightarrow> bool"
  e_serve :: "nat \<Rightarrow> string \<Rightarrow> int \<Rightarrow> exn option"
  e_accepted :: "ws \<Rightarrow> bool"

record world =
  w_tick :: nat
  w_sent :: "(ws \<times> bytes) list"
  w_closed :: "ws list"

section \<open>Calls to the environment\<close>

definition tickM :: "('w world_scheme, nat) io" where
  "tickM = (\<lambda>s. (Inr (w_tick s), s\<lparr>w_tick := Suc (w_tick s)\<rparr>))"

definition time_now :: "env \<Rightarrow> ('w world_scheme, int) io" where
  "time_now E = bindM tickM (\<lambda>t. returnM (e_time E t))"

definition urandom :: "env \<Rightarrow> nat \<Rightarrow> ('w world_scheme, bytes) io" where
  "urandom E n = bindM tickM (\<lambda>t. returnM (e_urandom E t n))"

definition uuid4 :: "env \<Rightarrow> ('w world_scheme, string) io" where
  "uuid4 E = bindM tickM (\<lambda>t. returnM (e_uuid E t))"

definition ws_connect :: "env \<Rightarrow> string \<Rightarrow> ('w world_scheme, ws) io" where
  "ws_connect E uri = bindM tickM (\<lambda>t. liftM (e_dial E t uri))"

definition ws_send :: "env \<Rightarrow> ws \<Rightarrow> bytes \<Rightarrow> ('w world_scheme, unit) io" where
  "ws_send E ws b = bindM tickM (\<lambda>t.
     case e_send E t ws b of
       Some e \<Rightarrow> raiseM e
     | None \<Rightarrow> modifyM (\<lambda>s. s\<lparr>w_sent := w_sent s @ [(ws, b)]\<rparr>))"

definition ws_recv :: "env \<Rightarrow> ws \<Rightarrow> ('w world_scheme, bytes) io" where
  "ws_recv E ws = bindM tickM (\<lambda>t. liftM (e_recv E t ws))"

definition ws_is_open :: "env \<Rightarrow> ws \<Rightarrow> ('w world_scheme, bool) io" where
  "ws_is_open E ws = bindM tickM (\<lambda>t. returnM (e_open E t ws))"

definition ws_close :: "ws \<Rightarrow> ('w world_scheme, unit) io" where
  "ws_close ws = modifyM (\<lambda>s. s\<lparr>w_closed := w_closed s @ [ws]\<rparr>)"

text \<open>\<^verbatim>\<open>random.sample(population, k)\<close>: the elements at the sampled positions.\<close>

definition random_sample :: "env \<Rightarrow> 'a list \<Rightarrow> nat \<Rightarrow> ('w world_scheme, 'a list) io" where
  "random_sample E xs k = bindM tickM (\<lambda>t.
     returnM (map (\<lambda>i. xs ! i) (filter (\<lambda>i. i < length xs) (e_sample E t (length xs) k))))"

lemmas env_call_defs =
  tickM_def time_now_def urandom_def uuid4_def ws_connect_def ws_send_def ws_recv_def ws_close_def
  random_sample_def

lemma tickM_apply [io_simps]: "tickM s = (Inr (w_tick s), s\<lparr>w_tick := Suc (w_tick s)\<rparr>)"
  by (simp add: tickM_def)

lemma time_now_apply [io_simps]:
  "time_now E s = (Inr (e_time E (w_tick s)), s\<lparr>w_tick := Suc (w_tick s)\<rparr>)"
  by (simp add: time_now_def io_simps)

lemma urandom_apply [io_simps]:
  "urandom E n s = (Inr (e_urandom E (w_tick s) n), s\<lparr>w_tick := Suc (w_tick s)\<rparr>)"
  by (simp add: urandom_def io_simps)

lemma uuid4_apply [io_simps]:
  "uuid4 E s = (Inr (e_uuid E (w_tick s)), s\<lparr>w_tick := Suc (w_tick s)\<rparr>)"
  by (simp add: uuid4_def io_simps)

lemma ws_connect_apply [io_simps]:
  "ws_connect E uri s = (e_dial E (w_tick s) uri, s\<lparr>w_tick := Suc (w_tick s)\<rparr>)"
  by (simp add: ws_connect_def io_simps)

lemma ws_recv_apply [io_simps]:
  "ws_recv E ws s = (e_recv E (w_tick s) ws, s\<lparr>w_tick := Suc (w_tick s)\<rparr>)"
  by (simp add: ws_recv_def io_simps)

lemma ws_is_open_apply [io_simps]:
  "ws_is_open E ws s = (Inr (e_open E (w_tick s) ws), s\<lparr>w_tick := Suc (w_tick s)\<rparr>)"
  by (simp add: ws_is_open_def io_simps)

lemma ws_send_apply [io_simps]:
  "ws_send E ws b s =
     (case e_send E (w_tick s) ws b of
        Some e \<Rightarrow> (Inl e, s\<lparr>w_tick := Suc (w_tick s)\<rparr>)
      | None \<Rightarrow> (Inr (), s\<lparr>w_tick := Suc (w_tick s), w_sent := w_sent s @ [(ws, b)]\<rparr>))"
  by (simp add: ws_send_def io_simps split: option.splits)

lemma ws_close_apply [io_simps]:
  "ws_close ws s = (Inr (), s\<lparr>w_closed := w_closed s @ [ws]\<rparr>)"
  by (simp add: ws_close_def io_simps)

text \<open>A predicate that does not look at the world's own fields is kept by every call.\<close>

definition world_free :: "('w world_scheme \<Rightarrow> bool) \<Rightarrow> bool" where
  "world_free I \<longleftrightarrow>
     (\<forall>s f. I (w_tick_update f s) = I s) \<and>
     (\<forall>s f. I (w_sent_update f s) = I s) \<and>
     (\<forall>s f. I (w_closed_update f s) = I s)"

lemma keeps_env_calls [keeps_intros]:
  assumes "world_free I"
  shows "keeps I tickM" "keeps I (time_now E)" "keeps I (urandom E n)" "keeps I (uuid4 E)"
    "keeps I (ws_connect E uri)" "keeps I (ws_send E w b)" "keeps I (ws_recv E w)"
    "keeps I (ws_close w)" "keeps I (random_sample E xs k)" "keeps I (ws_is_open E w)"
proof -
  have tick: "keeps I tickM"
    using assms by (simp add: keeps_def io_simps world_free_def)
  have sent: "keeps I (modifyM (\<lambda>s. s\<lparr>w_sent := w_sent s @ [(w, b)]\<rparr>))"
    using assms by (intro keeps_modify) (simp add: world_free_def)
  have closed: "keeps I (modifyM (\<lambda>s. s\<lparr>w_closed := w_closed s @ [w]\<rparr>))"
    using assms by (intro keeps_modify) (simp add: world_free_def)
  show "keeps I tickM" "keeps I (time_now E)" "keeps I (urandom E n)" "keeps I (uuid4 E)"
    "keeps I (ws_connect E uri)" "keeps I (ws_send E w b)" "keeps I (ws_recv E w)"
    "keeps I (ws_close w)" "keeps I (random_sample E xs k)" "keeps I (ws_is_open E w)"
    unfolding time_now_def urandom_def uuid4_def ws_connect_def ws_send_def ws_recv_def
      ws_close_def random_sample_def ws_is_open_def
    by (intro keeps_intros tick sent closed)+
qed

section \<open>Documented behaviour of the packages\<close>

fun is_str :: "pyval \<Rightarrow> bool" where
  "is_str (PStr s) = True"
| "is_str _ = False"

text \<open>The values MessagePack carries without loss: 64-bit integers, UTF-8 strings, string keys
  without repetition, lengths below \<open>2 ^ 32\<close>, at most \<open>n\<close> levels of nesting.\<close>

fun wire_ok :: "nat \<Rightarrow> pyval \<Rightarrow> bool" where
  "wire_ok n PNone = True"
| "wire_ok n (PBool b) = True"
| "wire_ok n (PInt i) = (- (2 ^ 63) \<le> i \<and> i < 2 ^ 64)"
| "wire_ok n (PStr s) = (utf8_ok s \<and> length s < 2 ^ 32)"
| "wire_ok n (PBytes b) = (length b < 2 ^ 32)"
| "wire_ok n (PList xs) = (0 < n \<and> length xs < 2 ^ 32 \<and> (\<forall>x \<in> set xs. wire_ok (n - 1) x))"
| "wire_ok n (PDict kvs) = (0 < n \<and> length kvs < 2 ^ 32 \<and> distinct (map fst kvs) \<and>
     (\<forall>kv \<in> set kvs. is_str (fst kv) \<and> wire_ok (n - 1) (fst kv) \<and> wire_ok (n - 1) (snd kv)))"

definition packable :: "pyval \<Rightarrow> bool" where
  "packable v = wire_ok 500 v"

definition msgpack_ok :: "env \<Rightarrow> bool" where
  "msgpack_ok E \<longleftrightarrow>
     (\<forall>v. packable v \<longrightarrow> (\<exists>b. e_packb E v = Inr b \<and> e_unpackb E b = Inr v))"

definition ed25519_ok :: "env \<Rightarrow> bool" where
  "ed25519_ok E \<longleftrightarrow>
     (\<forall>sk m. length sk = 32 \<longrightarrow>
        length (ed_pub E sk) = 32 \<and> length (ed_sign E sk m) = 64 \<and>
        ed_verify E (ed_pub E sk) (ed_sign E sk m) m)"

definition x25519_ok :: "env \<Rightarrow> bool" where
  "x25519_ok E \<longleftrightarrow>
     (\<forall>a b. length a = 32 \<longrightarrow> length b = 32 \<longrightarrow>
        length (x_pub E a) = 32 \<and>
        (\<exists>k. x_exchange E a (x_pub E b) = Inr k \<and> x_exchange E b (x_pub E a) = Inr k))"

definition chacha_ok :: "env \<Rightarrow> bool" where
  "chacha_ok E \<longleftrightarrow>
     (\<forall>k n p. length k = 32 \<longrightarrow> length n = 12 \<longrightarrow>
        aead_decrypt E k n (aead_encrypt E k n p) = Inr p) \<and>
     (\<forall>l salt info ikm. length (e_hkdf E l salt info ikm) = l)"

definition urandom_ok :: "env \<Rightarrow> bool" where
  "urandom_ok E \<longleftrightarrow> (\<forall>t n. length (e_urandom E t n) = n)"

lemma msgpack_okD:
  assumes "msgpack_ok E" and "packable v"
  obtains b where "e_packb E v = Inr b" and "e_unpackb E b = Inr v"
  using assms by (auto simp: msgpack_ok_def)

end
