(* ===== verification/Nevod_Crypto.thy ===== *)
theory Nevod_Crypto
  imports Nevod_Env
begin

text \<open>
  The cryptographic layer (\<^verbatim>\<open>node/crypto.py\<close>): Ed25519 signatures and the hybrid encryption
  X25519 + HKDF + ChaCha20-Poly1305.  Private-key objects are represented by their 32 raw
  bytes; the primitives themselves belong to the \<^verbatim>\<open>cryptography\<close> package and are fields of
  the environment.
\<close>

definition KDF_INFO :: bytes where
  "KDF_INFO = encode ''nevod-e2e-v1''"

definition CRYPTO_NONCE_SIZE :: nat where
  "CRYPTO_NONCE_SIZE = 12"

record SigningKeypair =
  sk_private :: bytes
  sk_public :: bytes

record EncryptionKeypair =
  ek_private :: bytes
  ek_public :: bytes

record encrypted =
  em_ephemeral_pubkey :: bytes
  em_nonce :: bytes
  em_ciphertext :: bytes

definition gen_signing :: "env \<Rightarrow> ('w world_scheme, SigningKeypair) io" where
  "gen_signing E = bindM (urandom E 32) (\<lambda>priv.
     returnM \<lparr>sk_private = priv, sk_public = ed_pub E priv\<rparr>)"

definition gen_encryption :: "env \<Rightarrow> ('w world_scheme, EncryptionKeypair) io" where
  "gen_encryption E = bindM (urandom E 32) (\<lambda>priv.
     returnM \<lparr>ek_private = priv, ek_public = x_pub E priv\<rparr>)"

definition sign :: "env \<Rightarrow> bytes \<Rightarrow> SigningKeypair \<Rightarrow> bytes" where
  "sign E message signing_key = ed_sign E (sk_private signing_key) message"

text \<open>\<^verbatim>\<open>Ed25519PublicKey.from_public_bytes\<close> raises \<^verbatim>\<open>ValueError\<close> unless it is given 32 bytes;
  only \<^verbatim>\<open>InvalidSignature\<close> is caught.\<close>

definition verify :: "env \<Rightarrow> bytes \<Rightarrow> pyval \<Rightarrow> bytes \<Rightarrow> exn + bool" where
  "verify E message signature pubkey_bytes =
     (if length pubkey_bytes \<noteq> 32 then Inl ValueError
      else (case signature of
          PBytes sig \<Rightarrow> Inr (ed_verify E pubkey_bytes sig message)
        | _ \<Rightarrow> Inl TypeError))"

definition kdf :: "env \<Rightarrow> bytes \<Rightarrow> bytes \<Rightarrow> bytes" where
  "kdf E shared_secret ephemeral_pubkey = e_hkdf E 32 ephemeral_pubkey KDF_INFO shared_secret"

definition encrypt :: "env \<Rightarrow> bytes \<Rightarrow> bytes \<Rightarrow> ('w world_scheme, encrypted) io" where
  "encrypt E plaintext recipient_enc_pubkey =
     bindM (urandom E 32) (\<lambda>ephemeral.
     if length recipient_enc_pubkey \<noteq> 32 then raiseM ValueError
     else bindM (liftM (x_exchange E ephemeral recipient_enc_pubkey)) (\<lambda>shared.
     let key = kdf E shared (x_pub E ephemeral) in
     bindM (urandom E CRYPTO_NONCE_SIZE) (\<lambda>nonce.
     returnM \<lparr>em_ephemeral_pubkey = x_pub E ephemeral,
              em_nonce = nonce,
              em_ciphertext = aead_encrypt E key nonce plaintext\<rparr>)))"

definition decrypt :: "env \<Rightarrow> bytes \<Rightarrow> bytes \<Rightarrow> bytes \<Rightarrow> EncryptionKeypair \<Rightarrow> exn + bytes" where
  "decrypt E ciphertext nonce ephemeral_pubkey enc_keypair =
     (if length ephemeral_pubkey \<noteq> 32 then Inl ValueError
      else bindR (x_exchange E (ek_private enc_keypair) ephemeral_pubkey) (\<lambda>shared.
        let key = kdf E shared ephemeral_pubkey in
        aead_decrypt E key nonce ciphertext))"

definition signing_priv_to_bytes :: "bytes \<Rightarrow> bytes" where
  "signing_priv_to_bytes key = key"

definition signing_priv_from_bytes :: "bytes \<Rightarrow> exn + bytes" where
  "signing_priv_from_bytes b = (if length b = 32 then Inr b else Inl ValueError)"

definition enc_priv_to_bytes :: "bytes \<Rightarrow> bytes" where
  "enc_priv_to_bytes key = key"

definition enc_priv_from_bytes :: "bytes \<Rightarrow> exn + bytes" where
  "enc_priv_from_bytes b = (if length b = 32 then Inr b else Inl ValueError)"

lemma keeps_crypto [keeps_intros]:
  assumes "world_free I"
  shows "keeps I (gen_signing E)" "keeps I (gen_encryption E)" "keeps I (encrypt E pt pk)"
  unfolding gen_signing_def gen_encryption_def encrypt_def
  by (intro keeps_intros assms)+

text \<open>A keypair whose public half belongs to its private half.\<close>

definition signing_valid :: "env \<Rightarrow> SigningKeypair \<Rightarrow> bool" where
  "signing_valid E kp \<longleftrightarrow> length (sk_private kp) = 32 \<and> sk_public kp = ed_pub E (sk_private kp)"

definition encryption_valid :: "env \<Rightarrow> EncryptionKeypair \<Rightarrow> bool" where
  "encryption_valid E kp \<longleftrightarrow> length (ek_private kp) = 32 \<and> ek_public kp = x_pub E (ek_private kp)"

lemma verify_sign:
  assumes "ed25519_ok E" and "signing_valid E kp"
  shows "verify E m (PBytes (sign E m kp)) (sk_public kp) = Inr True"
  using assms by (auto simp: ed25519_ok_def signing_valid_def verify_def sign_def)

lemma length_sign: "ed25519_ok E \<Longrightarrow> signing_valid E kp \<Longrightarrow> length (sign E m kp) = 64"
  by (auto simp: ed25519_ok_def signing_valid_def sign_def)

lemma sign_not_empty: "ed25519_ok E \<Longrightarrow> signing_valid E kp \<Longrightarrow> sign E m kp \<noteq> []"
  using length_sign [of E kp m] by auto

lemma length_public:
  "ed25519_ok E \<Longrightarrow> signing_valid E kp \<Longrightarrow> length (sk_public kp) = 32"
  by (auto simp: ed25519_ok_def signing_valid_def)

lemma encrypt_decrypt:
  assumes "x25519_ok E" and "chacha_ok E" and "urandom_ok E" and "encryption_valid E kp"
  shows "\<exists>c s'. encrypt E pt (ek_public kp) s = (Inr c, s') \<and>
    s' = s\<lparr>w_tick := Suc (Suc (w_tick s))\<rparr> \<and>
    decrypt E (em_ciphertext c) (em_nonce c) (em_ephemeral_pubkey c) kp = Inr pt \<and>
    length (em_nonce c) = 12 \<and> length (em_ephemeral_pubkey c) = 32"
proof -
  define eph where "eph = e_urandom E (w_tick s) 32"
  define nonce where "nonce = e_urandom E (Suc (w_tick s)) 12"
  have len: "length eph = 32" "length nonce = 12"
    using assms(3) by (auto simp: urandom_ok_def eph_def nonce_def)
  have kp: "length (ek_private kp) = 32" "ek_public kp = x_pub E (ek_private kp)"
    using assms(4) by (auto simp: encryption_valid_def)
  obtain k where k: "x_exchange E eph (ek_public kp) = Inr k"
      "x_exchange E (ek_private kp) (x_pub E eph) = Inr k"
    and lp: "length (ek_public kp) = 32" "length (x_pub E eph) = 32"
    using assms(1) len(1) kp unfolding x25519_ok_def by metis
  have "aead_decrypt E (kdf E k (x_pub E eph)) nonce
      (aead_encrypt E (kdf E k (x_pub E eph)) nonce pt) = Inr pt"
    using assms(2) len(2) by (simp add: chacha_ok_def kdf_def)
  then show ?thesis
    using k lp len
    by (simp add: encrypt_def decrypt_def io_simps Let_def CRYPTO_NONCE_SIZE_def
        eph_def [symmetric] nonce_def [symmetric])
qed

end
