(* ===== verification/Nevod_Example.thy ===== *)
theory Nevod_Example
  imports Nevod_Env
begin

text \<open>
  A concrete environment, at which the theorems that assume something of the packages are
  instantiated.  It shows that the assumptions of \<open>Nevod_Env\<close> can hold together; it is not a
  model of the packages.  The codec tags every value and writes lengths in unary; decoding is
  by recursion on a bound that the length of the input always covers.
\<close>

section \<open>A codec\<close>

definition ex_nat :: "nat \<Rightarrow> bytes" where
  "ex_nat n = replicate n 1 @ [0]"

fun ex_pack :: "pyval \<Rightarrow> bytes" where
  "ex_pack PNone = [0]"
| "ex_pack (PBool b) = [1, if b then 1 else 0]"
| "ex_pack (PInt i) = 2 # (if i < 0 then 1 else 0) # ex_nat (nat \<bar>i\<bar>)"
| "ex_pack (PStr s) = 3 # ex_nat (length s) @ encode s"
| "ex_pack (PBytes b) = 4 # ex_nat (length b) @ b"
| "ex_pack (PList xs) = 5 # ex_nat (length xs) @ concat (map ex_pack xs)"
| "ex_pack (PDict kvs) = 6 # ex_nat (length kvs) @
     concat (map (\<lambda>kv. ex_pack (fst kv) @ ex_pack (snd kv)) kvs)"

fun ex_get_nat :: "bytes \<Rightarrow> nat \<times> bytes" where
  "ex_get_nat [] = (0, [])"
| "ex_get_nat (b # bs) = (if b = 1 then (case ex_get_nat bs of (n, r) \<Rightarrow> (Suc n, r)) else (0, bs))"

definition byte_char :: "byte \<Rightarrow> char" where
  "byte_char b = char_of (unat b)"

fun ex_get :: "nat \<Rightarrow> bytes \<Rightarrow> (pyval \<times> bytes) option"
  and ex_get_list :: "nat \<Rightarrow> nat \<Rightarrow> bytes \<Rightarrow> (pyval list \<times> bytes) option"
  and ex_get_pairs :: "nat \<Rightarrow> nat \<Rightarrow> bytes \<Rightarrow> ((pyval \<times> pyval) list \<times> bytes) option" where
  "ex_get 0 bs = None"
| "ex_get (Suc f) bs =
     (case bs of [] \<Rightarrow> None
      | t # bs' \<Rightarrow>
        if t = 0 then Some (PNone, bs')
        else if t = 1 then (case bs' of [] \<Rightarrow> None | b # r \<Rightarrow> Some (PBool (b = 1), r))
        else if t = 2 then (case bs' of [] \<Rightarrow> None
          | b # r \<Rightarrow> (case ex_get_nat r of (n, r') \<Rightarrow>
              Some (PInt (if b = 1 then - int n else int n), r')))
        else (case ex_get_nat bs' of (n, r) \<Rightarrow>
          if t = 3 then Some (PStr (map byte_char (take n r)), drop n r)
          else if t = 4 then Some (PBytes (take n r), drop n r)
          else if t = 5 then map_option (\<lambda>(xs, r'). (PList xs, r')) (ex_get_list f n r)
          else if t = 6 then map_option (\<lambda>(xs, r'). (PDict xs, r')) (ex_get_pairs f n r)
          else None))"
| "ex_get_list f 0 bs = Some ([], bs)"
| "ex_get_list 0 (Suc n) bs = None"
| "ex_get_list (Suc f) (Suc n) bs =
     (case ex_get f bs of None \<Rightarrow> None
      | Some (x, r) \<Rightarrow> map_option (\<lambda>(xs, r'). (x # xs, r')) (ex_get_list f n r))"
| "ex_get_pairs f 0 bs = Some ([], bs)"
| "ex_get_pairs 0 (Suc n) bs = None"
| "ex_get_pairs (Suc f) (Suc n) bs =
     (case ex_get f bs of None \<Rightarrow> None
      | Some (k, r) \<Rightarrow> (case ex_get f r of None \<Rightarrow> None
          | Some (v, r') \<Rightarrow> map_option (\<lambda>(xs, r'). ((k, v) # xs, r')) (ex_get_pairs f n r')))"

definition ex_unpack :: "bytes \<Rightarrow> exn + pyval" where
  "ex_unpack b = (case ex_get (Suc (length b)) b of
      Some (v, []) \<Rightarrow> Inr v
    | _ \<Rightarrow> Inl UnpackError)"

lemma ex_get_nat_nat [simp]: "ex_get_nat (ex_nat n @ r) = (n, r)"
  by (induction n) (auto simp: ex_nat_def)

lemma byte_char_of_char: "byte_char (of_char c) = c"
proof -
  have "(of_char c :: byte) = of_nat (of_char c)"
    by (simp add: of_nat_of_char)
  moreover have "(of_char c :: nat) < 256"
    by simp
  ultimately have "unat (of_char c :: byte) = of_char c"
    by (simp add: unat_of_nat)
  then show ?thesis
    by (simp add: byte_char_def)
qed

lemma map_byte_char_encode [simp]: "map byte_char (encode s) = s"
  by (simp add: encode_def byte_char_of_char comp_def)

lemma length_ex_pack: "0 < length (ex_pack v)"
  by (cases v) auto

lemma ex_get_list_pack:
  assumes "\<And>f x r. x \<in> set xs \<Longrightarrow> length (ex_pack x) \<le> f \<Longrightarrow> ex_get f (ex_pack x @ r) = Some (x, r)"
    and "length (concat (map ex_pack xs)) + length xs \<le> f"
  shows "ex_get_list f (length xs) (concat (map ex_pack xs) @ r) = Some (xs, r)"
  using assms
proof (induction xs arbitrary: f)
  case (Cons x xs)
  from Cons.prems(2) obtain f' where f: "f = Suc f'"
    by (cases f) auto
  have x: "ex_get f' (ex_pack x @ concat (map ex_pack xs) @ r) = Some (x, concat (map ex_pack xs) @ r)"
    using Cons.prems f by simp
  have xs: "ex_get_list f' (length xs) (concat (map ex_pack xs) @ r) = Some (xs, r)"
    using Cons.prems f by (intro Cons.IH) auto
  show ?case using x xs by (simp add: f)
qed simp

abbreviation ex_pair :: "pyval \<times> pyval \<Rightarrow> bytes" where
  "ex_pair \<equiv> \<lambda>kv. ex_pack (fst kv) @ ex_pack (snd kv)"

lemma ex_get_pairs_pack:
  assumes "\<And>f x r. x \<in> fst ` set kvs \<union> snd ` set kvs \<Longrightarrow> length (ex_pack x) \<le> f \<Longrightarrow>
      ex_get f (ex_pack x @ r) = Some (x, r)"
    and "length (concat (map ex_pair kvs)) + length kvs \<le> f"
  shows "ex_get_pairs f (length kvs) (concat (map ex_pair kvs) @ r) = Some (kvs, r)"
  using assms
proof (induction kvs arbitrary: f)
  case (Cons kv kvs)
  from Cons.prems(2) obtain f' where f: "f = Suc f'"
    by (cases f) auto
  have k: "ex_get f' (ex_pack (fst kv) @ r') = Some (fst kv, r')" for r'
    using Cons.prems f by simp
  have v: "ex_get f' (ex_pack (snd kv) @ r') = Some (snd kv, r')" for r'
    using Cons.prems f by simp
  have rest: "ex_get_pairs f' (length kvs) (concat (map ex_pair kvs) @ r) = Some (kvs, r)"
    using Cons.prems f by (intro Cons.IH) auto
  show ?case using k v rest by (simp add: f)
qed simp

lemma ex_get_pack: "length (ex_pack v) \<le> f \<Longrightarrow> ex_get f (ex_pack v @ r) = Some (v, r)"
proof (induction v arbitrary: f r)
  case (PInt i)
  then show ?case by (cases f) auto
next
  case (PList xs)
  then obtain f' where f: "f = Suc f'" by (cases f) auto
  have "ex_get_list f' (length xs) (concat (map ex_pack xs) @ r) = Some (xs, r)"
    using PList f by (intro ex_get_list_pack) (auto simp: ex_nat_def)
  then show ?case by (simp add: f)
next
  case (PDict kvs)
  then obtain f' where f: "f = Suc f'" by (cases f) auto
  have "ex_get_pairs f' (length kvs) (concat (map ex_pair kvs) @ r) = Some (kvs, r)"
    using PDict f by (intro ex_get_pairs_pack)
      (fastforce simp: ex_nat_def intro: PDict.IH fsts.intros snds.intros)+
  then show ?case by (simp add: f)
qed (case_tac f; auto)+

lemma ex_unpack_pack: "ex_unpack (ex_pack v) = Inr v"
  using ex_get_pack [of v "Suc (length (ex_pack v))" "[]"] by (simp add: ex_unpack_def)

section \<open>The environment\<close>

definition ex_digest :: "bytes \<Rightarrow> bytes" where
  "ex_digest m = take 32 (m @ replicate 32 0)"

definition ex_exchange :: "bytes \<Rightarrow> bytes \<Rightarrow> exn + bytes" where
  "ex_exchange a b = Inr (map2 (+) a b)"

definition ex_open :: "bytes \<Rightarrow> bytes \<Rightarrow> bytes \<Rightarrow> exn + bytes" where
  "ex_open k n c = (case c of [] \<Rightarrow> Inl InvalidTag | b # p \<Rightarrow> if b = 9 then Inr p else Inl InvalidTag)"

definition env0 :: env where
  "env0 = \<lparr>
     e_packb = (\<lambda>v. Inr (ex_pack v)),
     e_unpackb = ex_unpack,
     e_repr = (\<lambda>v. ''?''),
     ed_pub = (\<lambda>sk. sk),
     ed_sign = (\<lambda>sk m. sk @ ex_digest m),
     ed_verify = (\<lambda>pk s m. s = pk @ ex_digest m),
     x_pub = (\<lambda>sk. sk),
     x_exchange = ex_exchange,
     e_hkdf = (\<lambda>l salt info ikm. take l (ikm @ replicate l 0)),
     aead_encrypt = (\<lambda>k n p. 9 # p),
     aead_decrypt = ex_open,
     e_time = (\<lambda>t. 5),
     e_urandom = (\<lambda>t n. replicate n (of_nat t)),
     e_uuid = (\<lambda>t. ''id''),
     e_sample = (\<lambda>t n k. [0..<k]),
     e_dial = (\<lambda>t uri. Inr 7),
     e_send = (\<lambda>t w b. None),
     e_recv = (\<lambda>t w. Inl ConnectionClosed),
     e_open = (\<lambda>t w. True),
     e_serve = (\<lambda>t h p. None),
     e_accepted = (\<lambda>w. w \<noteq> 7)\<rparr>"

lemma env0_sel [simp]:
  "e_packb env0 v = Inr (ex_pack v)" "e_unpackb env0 = ex_unpack"
  "ed_pub env0 = (\<lambda>sk. sk)" "ed_sign env0 = (\<lambda>sk m. sk @ ex_digest m)"
  "ed_verify env0 = (\<lambda>pk s m. s = pk @ ex_digest m)"
  "x_pub env0 = (\<lambda>sk. sk)" "x_exchange env0 = ex_exchange"
  "aead_encrypt env0 = (\<lambda>k n p. 9 # p)" "aead_decrypt env0 = ex_open"
  "e_time env0 = (\<lambda>t. 5)" "e_urandom env0 = (\<lambda>t n. replicate n (of_nat t))"
  "e_uuid env0 = (\<lambda>t. ''id'')" "e_sample env0 = (\<lambda>t n k. [0..<k])"
  "e_dial env0 = (\<lambda>t uri. Inr 7)" "e_send env0 = (\<lambda>t w b. None)"
  "e_recv env0 = (\<lambda>t w. Inl ConnectionClosed)" "e_open env0 = (\<lambda>t w. True)"
  "e_serve env0 = (\<lambda>t h p. None)" "e_accepted env0 = (\<lambda>w. w \<noteq> 7)"
  by (simp_all add: env0_def)

text \<open>The documented behaviour does not depend on the script of answers.\<close>

lemma env_ok_script [simp]:
  "msgpack_ok (E\<lparr>e_recv := f\<rparr>) = msgpack_ok E" "msgpack_ok (E\<lparr>e_send := g\<rparr>) = msgpack_ok E"
  "msgpack_ok (E\<lparr>e_dial := h\<rparr>) = msgpack_ok E"
  "ed25519_ok (E\<lparr>e_recv := f\<rparr>) = ed25519_ok E" "ed25519_ok (E\<lparr>e_send := g\<rparr>) = ed25519_ok E"
  "ed25519_ok (E\<lparr>e_dial := h\<rparr>) = ed25519_ok E"
  "urandom_ok (E\<lparr>e_recv := f\<rparr>) = urandom_ok E" "urandom_ok (E\<lparr>e_send := g\<rparr>) = urandom_ok E"
  "urandom_ok (E\<lparr>e_dial := h\<rparr>) = urandom_ok E"
  by (simp_all add: msgpack_ok_def ed25519_ok_def urandom_ok_def)

lemma map2_add_comm: "map2 (+) a b = map2 (+) b (a :: bytes)"
  by (induction a b rule: list_induct2') (auto simp: add.commute)

lemma env0_ok [simp]:
  "msgpack_ok env0" "ed25519_ok env0" "x25519_ok env0" "chacha_ok env0" "urandom_ok env0"
  by (auto simp: msgpack_ok_def ex_unpack_pack ed25519_ok_def ex_digest_def x25519_ok_def
      ex_exchange_def map2_add_comm chacha_ok_def ex_open_def urandom_ok_def env0_def)

definition world0 :: world where
  "world0 = \<lparr>w_tick = 0, w_sent = [], w_closed = []\<rparr>"

end
