(* ===== verification/Nevod_Protocol.thy ===== *)
theory Nevod_Protocol
  imports Nevod_Crypto Nevod_Example
begin

text \<open>
  The wire protocol (\<^verbatim>\<open>node/protocol.py\<close>): packets, their MessagePack form, their
  signatures, the payload helpers and the packet constructors.

  The fields of a packet are Python values, because \<^verbatim>\<open>unpack\<close> takes whatever the peer put
  into the dictionary: the dataclass annotations are not checked.  Which types a packet that
  passed \<^verbatim>\<open>verify_packet\<close> has is a theorem.
\<close>

definition PROTO_VERSION :: int where
  "PROTO_VERSION = 1"

definition T_MSG :: string where [simp]: "T_MSG = ''msg''"

definition T_ACK :: string where [simp]: "T_ACK = ''ack''"

definition T_PING :: string where [simp]: "T_PING = ''ping''"

definition T_PONG :: string where [simp]: "T_PONG = ''pong''"

definition T_GOSSIP :: string where [simp]: "T_GOSSIP = ''gossip''"

definition T_NODE_REGISTER :: string where [simp]: "T_NODE_REGISTER = ''node_register''"

definition T_NODE_VOTE :: string where [simp]: "T_NODE_VOTE = ''node_vote''"

definition T_NODE_CERT :: string where [simp]: "T_NODE_CERT = ''node_cert''"

definition T_NODE_REMOVE :: string where [simp]: "T_NODE_REMOVE = ''node_remove''"

definition T_NODE_LEAVING :: string where [simp]: "T_NODE_LEAVING = ''node_leaving''"

definition T_PRESENCE_QUERY :: string where [simp]: "T_PRESENCE_QUERY = ''presence_query''"

definition T_PRESENCE_RESPONSE :: string where
  [simp]: "T_PRESENCE_RESPONSE = ''presence_response''"

definition T_CELL_REGISTER :: string where [simp]: "T_CELL_REGISTER = ''cell_register''"

definition T_CELL_INVITE :: string where [simp]: "T_CELL_INVITE = ''cell_invite''"

definition T_AUTH_CHALLENGE :: string where [simp]: "T_AUTH_CHALLENGE = ''auth_challenge''"

definition T_AUTH_RESPONSE :: string where [simp]: "T_AUTH_RESPONSE = ''auth_response''"

record Packet =
  p_type :: pyval
  p_payload :: pyval
  p_id :: pyval
  p_from :: pyval
  p_to :: pyval
  p_sig :: pyval
  p_ts :: pyval
  p_v :: pyval

text \<open>The constructor \<^verbatim>\<open>Packet(type=..., payload=..., from_addr=..., to_addr=...)\<close>: the default
  factories draw the id and then the time stamp.\<close>

definition new_packet :: "env \<Rightarrow> string \<Rightarrow> pyval \<Rightarrow> pyval \<Rightarrow> pyval \<Rightarrow> ('w world_scheme, Packet) io" where
  "new_packet E type payload from_addr to_addr =
     bindM (uuid4 E) (\<lambda>i. bindM (time_now E) (\<lambda>t.
       returnM \<lparr>p_type = PStr type, p_payload = payload, p_id = PStr i, p_from = from_addr,
                p_to = to_addr, p_sig = PBytes [], p_ts = PInt t, p_v = PInt PROTO_VERSION\<rparr>))"

text \<open>\<^verbatim>\<open>str(x)\<close>; the notation of bytes, lists and dictionaries is left to the environment.\<close>

fun py_str :: "env \<Rightarrow> pyval \<Rightarrow> string" where
  "py_str E (PInt i) = str_int i"
| "py_str E (PStr s) = s"
| "py_str E (PBool b) = (if b then ''True'' else ''False'')"
| "py_str E PNone = ''None''"
| "py_str E v = e_repr E v"

fun py_concat_bytes :: "bytes \<Rightarrow> pyval \<Rightarrow> exn + bytes" where
  "py_concat_bytes b (PBytes c) = Inr (b @ c)"
| "py_concat_bytes b _ = Inl TypeError"

definition sign_data :: "env \<Rightarrow> Packet \<Rightarrow> exn + bytes" where
  "sign_data E p =
     bindR (py_encode (p_id p)) (\<lambda>i.
     bindR (py_encode (p_type p)) (\<lambda>t.
     bindR (py_encode (p_from p)) (\<lambda>f.
     bindR (py_encode (p_to p)) (\<lambda>a.
     bindR (py_concat_bytes (i @ t @ f @ a) (p_payload p)) (\<lambda>body.
     Inr (body @ encode (py_str E (p_ts p))))))))"

definition packet_dict :: "Packet \<Rightarrow> pyval" where
  "packet_dict p = PDict [
     (PStr ''v'', p_v p),
     (PStr ''id'', p_id p),
     (PStr ''type'', p_type p),
     (PStr ''from'', p_from p),
     (PStr ''to'', p_to p),
     (PStr ''payload'', p_payload p),
     (PStr ''sig'', p_sig p),
     (PStr ''ts'', p_ts p)]"

definition pack :: "env \<Rightarrow> Packet \<Rightarrow> exn + bytes" where
  "pack E packet = e_packb E (packet_dict packet)"

definition unpack :: "env \<Rightarrow> bytes \<Rightarrow> exn + Packet" where
  "unpack E data =
     bindR (e_unpackb E data) (\<lambda>d.
     bindR (py_get d ''v'' (PInt PROTO_VERSION)) (\<lambda>v.
     bindR (py_get d ''id'' (PStr [])) (\<lambda>i.
     bindR (py_get d ''type'' (PStr [])) (\<lambda>t.
     bindR (py_get d ''from'' (PStr [])) (\<lambda>f.
     bindR (py_get d ''to'' (PStr [])) (\<lambda>a.
     bindR (py_get d ''payload'' (PBytes [])) (\<lambda>pl.
     bindR (py_get d ''sig'' (PBytes [])) (\<lambda>sg.
     bindR (py_get d ''ts'' (PInt 0)) (\<lambda>ts.
     Inr \<lparr>p_type = t, p_payload = py_or pl (PBytes []), p_id = i, p_from = f, p_to = a,
          p_sig = py_or sg (PBytes []), p_ts = ts, p_v = v\<rparr>)))))))))"

section \<open>Signing\<close>

definition sign_packet :: "env \<Rightarrow> Packet \<Rightarrow> SigningKeypair \<Rightarrow> exn + Packet" where
  "sign_packet E packet signing_kp =
     bindR (sign_data E packet) (\<lambda>d. Inr (packet\<lparr>p_sig := PBytes (sign E d signing_kp)\<rparr>))"

definition verify_packet :: "env \<Rightarrow> Packet \<Rightarrow> bytes \<Rightarrow> exn + bool" where
  "verify_packet E packet signing_pubkey =
     (if \<not> truthy (p_sig packet) then Inr False
      else bindR (sign_data E packet) (\<lambda>d. verify E d (p_sig packet) signing_pubkey))"

section \<open>Payload helpers\<close>

definition encode_payload :: "env \<Rightarrow> pyval \<Rightarrow> exn + bytes" where
  "encode_payload E data = e_packb E data"

text \<open>\<^verbatim>\<open>msgpack.unpackb\<close> takes bytes; anything else is a \<^verbatim>\<open>TypeError\<close>.\<close>

definition decode_payload :: "env \<Rightarrow> pyval \<Rightarrow> exn + pyval" where
  "decode_payload E payload =
     (case payload of PBytes b \<Rightarrow> e_unpackb E b | _ \<Rightarrow> Inl TypeError)"

section \<open>Packet constructors\<close>

definition make_ping :: "env \<Rightarrow> string \<Rightarrow> string \<Rightarrow> ('w world_scheme, Packet) io" where
  "make_ping E from_node to_node =
     new_packet E T_PING (PBytes []) (PStr from_node) (PStr to_node)"

text \<open>The payload of the other constructors is encoded before the packet is built.\<close>

definition payload_packet ::
  "env \<Rightarrow> string \<Rightarrow> pyval \<Rightarrow> pyval \<Rightarrow> pyval \<Rightarrow> ('w world_scheme, Packet) io" where
  "payload_packet E type data from_addr to_addr =
     bindM (liftM (encode_payload E data)) (\<lambda>b. new_packet E type (PBytes b) from_addr to_addr)"

definition make_pong :: "env \<Rightarrow> string \<Rightarrow> pyval \<Rightarrow> pyval \<Rightarrow> ('w world_scheme, Packet) io" where
  "make_pong E from_node to_node ping_id =
     payload_packet E T_PONG (PDict [(PStr ''ping_id'', ping_id)]) (PStr from_node) to_node"

definition make_gossip :: "env \<Rightarrow> string \<Rightarrow> pyval list \<Rightarrow> ('w world_scheme, Packet) io" where
  "make_gossip E from_node node_table_entries =
     payload_packet E T_GOSSIP (PDict [(PStr ''nodes'', PList node_table_entries)])
       (PStr from_node) (PStr [])"

definition make_auth_challenge ::
  "env \<Rightarrow> string \<Rightarrow> string \<Rightarrow> bytes \<Rightarrow> ('w world_scheme, Packet) io" where
  "make_auth_challenge E from_node to_node nonce =
     payload_packet E T_AUTH_CHALLENGE (PDict [(PStr ''nonce'', PBytes nonce)])
       (PStr from_node) (PStr to_node)"

definition auth_response_dict :: "pyval \<Rightarrow> bytes \<Rightarrow> bytes \<Rightarrow> bytes \<Rightarrow> pyval" where
  "auth_response_dict nonce signature signing_pubkey enc_pubkey = PDict [
     (PStr ''nonce'', nonce),
     (PStr ''sig'', PBytes signature),
     (PStr ''signing_pubkey'', PBytes signing_pubkey),
     (PStr ''enc_pubkey'', PBytes enc_pubkey)]"

definition make_auth_response ::
  "env \<Rightarrow> string \<Rightarrow> pyval \<Rightarrow> pyval \<Rightarrow> bytes \<Rightarrow> bytes \<Rightarrow> bytes \<Rightarrow> ('w world_scheme, Packet) io" where
  "make_auth_response E from_node to_node nonce signature signing_pubkey enc_pubkey =
     payload_packet E T_AUTH_RESPONSE
       (auth_response_dict nonce signature signing_pubkey enc_pubkey)
       (PStr from_node) to_node"

lemma keeps_packets [keeps_intros]:
  assumes "world_free I"
  shows "keeps I (new_packet E t pl f a)" "keeps I (payload_packet E t pv f a)"
    "keeps I (make_ping E n m)" "keeps I (make_pong E n v w)" "keeps I (make_gossip E n vs)"
    "keeps I (make_auth_challenge E n m b)" "keeps I (make_auth_response E n v w b1 b2 b3)"
  unfolding new_packet_def payload_packet_def make_ping_def make_pong_def make_gossip_def
    make_auth_challenge_def make_auth_response_def
  by (intro keeps_intros assms)+

text \<open>Packing and unpacking depend on the codec only, signing on the signature scheme only.\<close>

lemma unpack_cong: "e_unpackb E = e_unpackb F \<Longrightarrow> unpack E = unpack F"
  by (simp add: unpack_def fun_eq_iff)

lemma decode_payload_cong: "e_unpackb E = e_unpackb F \<Longrightarrow> decode_payload E = decode_payload F"
  by (auto simp: decode_payload_def fun_eq_iff split: pyval.splits)

lemma pack_cong: "e_packb E = e_packb F \<Longrightarrow> pack E = pack F"
  by (simp add: pack_def fun_eq_iff)

lemma sign_cong: "ed_sign E = ed_sign F \<Longrightarrow> sign E = sign F"
  by (simp add: sign_def fun_eq_iff)

lemma recv_script_irrelevant [simp]:
  "unpack (E\<lparr>e_recv := r\<rparr>) = unpack E" "decode_payload (E\<lparr>e_recv := r\<rparr>) = decode_payload E"
  "pack (E\<lparr>e_recv := r\<rparr>) = pack E" "sign (E\<lparr>e_recv := r\<rparr>) = sign E"
  "signing_valid (E\<lparr>e_recv := r\<rparr>) kp = signing_valid E kp"
  by (rule unpack_cong decode_payload_cong pack_cong sign_cong; simp)+
    (simp add: signing_valid_def)

section \<open>Well-typed packets\<close>

text \<open>The packet the dataclass annotations describe.\<close>

definition typed_packet ::
  "string \<Rightarrow> string \<Rightarrow> string \<Rightarrow> string \<Rightarrow> bytes \<Rightarrow> bytes \<Rightarrow> int \<Rightarrow> int \<Rightarrow> Packet" where
  "typed_packet i t f a pl sg ts v =
     \<lparr>p_type = PStr t, p_payload = PBytes pl, p_id = PStr i, p_from = PStr f, p_to = PStr a,
      p_sig = PBytes sg, p_ts = PInt ts, p_v = PInt v\<rparr>"

lemma sign_data_strs:
  assumes "p_id p = PStr i" "p_type p = PStr t" "p_from p = PStr f" "p_to p = PStr a"
    "p_payload p = PBytes pl"
  shows "sign_data E p = Inr (encode (i @ t @ f @ a) @ pl @ encode (py_str E (p_ts p)))"
  using assms by (simp add: sign_data_def)

lemma py_concat_bytes_Inr:
  "py_concat_bytes b v = Inr d \<longleftrightarrow> (\<exists>c. v = PBytes c \<and> d = b @ c)"
  by (cases v) auto

lemma sign_data_InrD:
  assumes "sign_data E p = Inr d"
  obtains i t f a pl where "p_id p = PStr i" "p_type p = PStr t" "p_from p = PStr f"
    "p_to p = PStr a" "p_payload p = PBytes pl"
    "d = encode (i @ t @ f @ a) @ pl @ encode (py_str E (p_ts p))"
  using assms
  by (auto simp: sign_data_def bindR_Inr_iff py_encode_Inr py_concat_bytes_Inr)

lemma sign_data_sig [simp]: "sign_data E (p\<lparr>p_sig := s\<rparr>) = sign_data E p"
  by (simp add: sign_data_def)

lemma sign_packet_strs:
  assumes "p_id p = PStr i" "p_type p = PStr t" "p_from p = PStr f" "p_to p = PStr a"
    "p_payload p = PBytes pl"
  shows "\<exists>sg. sign_packet E p kp = Inr (p\<lparr>p_sig := PBytes sg\<rparr>)"
  using sign_data_strs [OF assms, of E] by (auto simp: sign_packet_def)

lemma verify_signed:
  assumes "ed25519_ok E" "signing_valid E kp" "sign_packet E p kp = Inr q"
  shows "verify_packet E q (sk_public kp) = Inr True"
proof -
  from assms(3) obtain d where d: "sign_data E p = Inr d"
    and q: "q = p\<lparr>p_sig := PBytes (sign E d kp)\<rparr>"
    by (auto simp: sign_packet_def bindR_Inr_iff)
  show ?thesis
    using d verify_sign [OF assms(1,2), of d] sign_not_empty [OF assms(1,2), of d]
    by (simp add: verify_packet_def q)
qed

lemma unpack_packet_dict:
  assumes "e_unpackb E b = Inr (packet_dict p)" "p_payload p = PBytes pl" "p_sig p = PBytes sg"
  shows "unpack E b = Inr p"
  using assms by (simp add: unpack_def packet_dict_def py_or_def)

lemma pack_unpack:
  assumes "msgpack_ok E" "packable (packet_dict p)" "p_payload p = PBytes pl" "p_sig p = PBytes sg"
  obtains b where "pack E p = Inr b" "unpack E b = Inr p"
proof -
  from assms(1,2) obtain b where "e_packb E (packet_dict p) = Inr b"
      "e_unpackb E b = Inr (packet_dict p)"
    by (rule msgpack_okD)
  with assms(3,4) that show ?thesis by (auto simp: pack_def dest: unpack_packet_dict)
qed

lemma packable_typed:
  "packable (packet_dict (typed_packet i t f a pl sg ts v)) \<longleftrightarrow>
     (\<forall>s \<in> {i, t, f, a}. utf8_ok s \<and> length s < 2 ^ 32) \<and>
     length pl < 2 ^ 32 \<and> length sg < 2 ^ 32 \<and>
     (\<forall>n \<in> {ts, v}. - (2 ^ 63) \<le> n \<and> n < 2 ^ 64)"
  by (auto simp: packable_def packet_dict_def typed_packet_def)

section \<open>Properties of the protocol\<close>

text \<open>
  C18: a signed packet survives the wire.  For every packet of the declared types that
  MessagePack can carry, signing it, packing it, unpacking the bytes on the other side and
  verifying the result with the signer's public key succeeds, and the unpacked packet equals
  the signed one in every field.
\<close>
theorem signed_packet_roundtrip:
  assumes "msgpack_ok E" and "ed25519_ok E" and "signing_valid E kp"
    and "packable (packet_dict (typed_packet i t f a pl sg0 ts v))"
  shows "\<exists>q b. sign_packet E (typed_packet i t f a pl sg0 ts v) kp = Inr q \<and>
    pack E q = Inr b \<and> unpack E b = Inr q \<and> verify_packet E q (sk_public kp) = Inr True \<and>
    q = typed_packet i t f a pl (sign E (encode (i @ t @ f @ a) @ pl @ encode (str_int ts)) kp) ts v"
proof -
  define sg where "sg = sign E (encode (i @ t @ f @ a) @ pl @ encode (str_int ts)) kp"
  have q: "sign_packet E (typed_packet i t f a pl sg0 ts v) kp = Inr (typed_packet i t f a pl sg ts v)"
    by (simp add: sign_packet_def typed_packet_def sign_data_strs sg_def)
  have "length sg < 2 ^ 32"
    using length_sign [OF assms(2,3)] by (simp add: sg_def)
  with assms(4) have "packable (packet_dict (typed_packet i t f a pl sg ts v))"
    by (simp add: packable_typed)
  then obtain b where "pack E (typed_packet i t f a pl sg ts v) = Inr b"
    and "unpack E b = Inr (typed_packet i t f a pl sg ts v)"
    by (rule pack_unpack [OF assms(1)]) (auto simp: typed_packet_def)
  with q verify_signed [OF assms(2,3) q] show ?thesis
    unfolding sg_def by blast
qed

definition kp0 :: SigningKeypair where
  "kp0 = \<lparr>sk_private = replicate 32 5, sk_public = replicate 32 5\<rparr>"

lemma kp0_valid [simp]: "signing_valid env0 kp0"
  by (simp add: signing_valid_def kp0_def)

theorem signed_packet_roundtrip_witness:
  "packable (packet_dict (typed_packet ''i'' ''msg'' ''a@n'' ''b@n'' [1, 2] [] 7 1)) \<and>
   (\<exists>q b. sign_packet env0 (typed_packet ''i'' ''msg'' ''a@n'' ''b@n'' [1, 2] [] 7 1) kp0 = Inr q \<and>
     pack env0 q = Inr b \<and> unpack env0 b = Inr q \<and> verify_packet env0 q (sk_public kp0) = Inr True)"
proof -
  have p: "packable (packet_dict (typed_packet ''i'' ''msg'' ''a@n'' ''b@n'' [1, 2] [] 7 1))"
    by (simp add: packable_typed Let_def)
  show ?thesis
    using p signed_packet_roundtrip [OF _ _ kp0_valid p] by (simp only: env0_ok) blast
qed

text \<open>
  C33: what verification says of the types of a packet, although \<^verbatim>\<open>unpack\<close> checks none.  In a packet
  that passes \<^verbatim>\<open>verify_packet\<close> the id, the type and the addresses are strings, the payload and
  the non-empty signature are bytes, the key has 32 bytes, and Ed25519 accepted the signature
  on exactly id + type + from + to + payload + \<^verbatim>\<open>str(ts)\<close>.  The two remaining fields are not
  protected: with any other value for the version, and with any time stamp that has the same
  \<^verbatim>\<open>str\<close>, a text instead of an integer for example, the packet passes as well.
\<close>
theorem verified_packet_typed:
  assumes "verify_packet E p pk = Inr True"
  shows "\<exists>i t f a pl sg. p_id p = PStr i \<and> p_type p = PStr t \<and> p_from p = PStr f \<and>
    p_to p = PStr a \<and> p_payload p = PBytes pl \<and> p_sig p = PBytes sg \<and> sg \<noteq> [] \<and>
    length pk = 32 \<and>
    ed_verify E pk sg (encode (i @ t @ f @ a) @ pl @ encode (py_str E (p_ts p))) \<and>
    (\<forall>v. verify_packet E (p\<lparr>p_v := v\<rparr>) pk = Inr True) \<and>
    (\<forall>ts. py_str E ts = py_str E (p_ts p) \<longrightarrow> verify_packet E (p\<lparr>p_ts := ts\<rparr>) pk = Inr True)"
proof -
  from assms obtain d where t: "truthy (p_sig p)" and d: "sign_data E p = Inr d"
    and v: "verify E d (p_sig p) pk = Inr True"
    by (auto simp: verify_packet_def bindR_Inr_iff split: if_splits)
  from v t obtain sg where "p_sig p = PBytes sg" "sg \<noteq> []" "length pk = 32" "ed_verify E pk sg d"
    by (auto simp: verify_def split: if_splits pyval.splits)
  moreover have "sign_data E (p\<lparr>p_v := v\<rparr>) = sign_data E p" for v
    by (simp add: sign_data_def)
  then have "verify_packet E (p\<lparr>p_v := v\<rparr>) pk = Inr True" for v
    using assms by (simp add: verify_packet_def split: if_splits)
  moreover have "verify_packet E (p\<lparr>p_ts := ts\<rparr>) pk = Inr True" if "py_str E ts = py_str E (p_ts p)" for ts
  proof -
    have "sign_data E (p\<lparr>p_ts := ts\<rparr>) = sign_data E p" using that by (simp add: sign_data_def)
    with assms show ?thesis by (simp add: verify_packet_def split: if_splits)
  qed
  ultimately show ?thesis using d by (elim sign_data_InrD) blast
qed

theorem verified_packet_typed_witness:
  "\<exists>q. verify_packet env0 q (sk_public kp0) = Inr True \<and> (\<exists>f. p_from q = PStr f) \<and>
     verify_packet env0 (q\<lparr>p_v := PNone\<rparr>) (sk_public kp0) = Inr True"
proof -
  obtain q where "sign_packet env0 (typed_packet ''i'' ''ping'' ''x'' ''y'' [] [] 7 1) kp0 = Inr q"
    by (simp add: sign_packet_def sign_data_def typed_packet_def)
  then have "verify_packet env0 q (sk_public kp0) = Inr True"
    by (rule verify_signed [OF env0_ok(2) kp0_valid])
  with verified_packet_typed [OF this] show ?thesis by blast
qed

text \<open>
  C38: the signature does not protect the boundaries between the fields.  Moving text from
  the end of the sender's address to the front of the recipient's address gives another
  packet with the same signed bytes, so the same signature is accepted for both; the two
  packets are different as soon as the moved text is not empty.
\<close>
theorem signature_ignores_field_boundaries:
  "verify_packet E (p\<lparr>p_from := PStr (f @ g), p_to := PStr a\<rparr>) pk
     = verify_packet E (p\<lparr>p_from := PStr f, p_to := PStr (g @ a)\<rparr>) pk \<and>
   (p\<lparr>p_from := PStr (f @ g), p_to := PStr a\<rparr> = p\<lparr>p_from := PStr f, p_to := PStr (g @ a)\<rparr>
     \<longleftrightarrow> g = [])"
proof -
  have "sign_data E (p\<lparr>p_from := PStr (f @ g), p_to := PStr a\<rparr>)
      = sign_data E (p\<lparr>p_from := PStr f, p_to := PStr (g @ a)\<rparr>)"
    by (simp add: sign_data_def)
  then have "verify_packet E (p\<lparr>p_from := PStr (f @ g), p_to := PStr a\<rparr>) pk
     = verify_packet E (p\<lparr>p_from := PStr f, p_to := PStr (g @ a)\<rparr>) pk"
    by (simp add: verify_packet_def)
  moreover have "p\<lparr>p_from := PStr (f @ g), p_to := PStr a\<rparr> = p\<lparr>p_from := PStr f, p_to := PStr (g @ a)\<rparr>
      \<longleftrightarrow> g = []"
    by (cases p) auto
  ultimately show ?thesis by blast
qed

text \<open>
  with field lengths fixed, the signed bytes determine the packet.  Two packets of the
  declared types whose ids, types, sender addresses, recipient addresses and payloads have
  pairwise equal lengths have the same \<^verbatim>\<open>sign_data\<close> only if all these fields and the time
  stamps are equal.
\<close>
theorem sign_data_injective_fixed_lengths:
  assumes "length i = length i'" "length t = length t'" "length f = length f'"
    "length a = length a'" "length pl = length pl'"
    and "sign_data E (typed_packet i t f a pl sg ts v)
      = sign_data E (typed_packet i' t' f' a' pl' sg' ts' v')"
  shows "i = i' \<and> t = t' \<and> f = f' \<and> a = a' \<and> pl = pl' \<and> ts = ts'"
proof -
  from assms(6) have "encode i @ encode t @ encode f @ encode a @ pl @ encode (str_int ts)
      = encode i' @ encode t' @ encode f' @ encode a' @ pl' @ encode (str_int ts')"
    by (simp add: sign_data_def typed_packet_def)
  with assms(1-5) show ?thesis
    by (simp add: append_eq_append_conv)
qed

theorem sign_data_injective_fixed_lengths_witness:
  "sign_data env0 (typed_packet ''i'' ''ping'' ''x'' ''y'' [] [] 7 1)
     \<noteq> sign_data env0 (typed_packet ''i'' ''pong'' ''x'' ''y'' [] [] 7 1)"
proof
  assume eq: "sign_data env0 (typed_packet ''i'' ''ping'' ''x'' ''y'' [] [] 7 1)
    = sign_data env0 (typed_packet ''i'' ''pong'' ''x'' ''y'' [] [] 7 1)"
  have "''ping'' = ''pong''"
    using sign_data_injective_fixed_lengths [OF _ _ _ _ _ eq] by simp
  then show False by simp
qed

end
