(* ===== verification/Nevod_Identity.thy ===== *)
theory Nevod_Identity
  imports Nevod_Protocol
begin

text \<open>
  Identities of nodes and cells (\<^verbatim>\<open>node/identity.py\<close>): two keypairs and the fields saved with
  them.  A file system maps a path to the JSON document last written there; JSON text is not
  modelled, \<^verbatim>\<open>json.load\<close> after \<^verbatim>\<open>json.dump\<close> of a dictionary of strings is the identity.
\<close>

type_synonym files = "string \<Rightarrow> pyval option"

record NodeIdentity =
  ni_signing :: SigningKeypair
  ni_encryption :: EncryptionKeypair
  ni_address :: pyval
  ni_node_type :: pyval
  ni_access :: pyval

definition node_id :: "NodeIdentity \<Rightarrow> string" where
  "node_id idt = hex (sk_public (ni_signing idt))"

definition node_generate ::
  "env \<Rightarrow> string \<Rightarrow> string \<Rightarrow> string \<Rightarrow> ('w world_scheme, NodeIdentity) io" where
  "node_generate E address node_type access =
     bindM (gen_signing E) (\<lambda>sg. bindM (gen_encryption E) (\<lambda>en.
     returnM \<lparr>ni_signing = sg, ni_encryption = en, ni_address = PStr address,
              ni_node_type = PStr node_type, ni_access = PStr access\<rparr>))"

definition node_save :: "NodeIdentity \<Rightarrow> string \<Rightarrow> files \<Rightarrow> files" where
  "node_save idt path fs = fs(path \<mapsto> PDict [
     (PStr ''signing_priv'', PStr (hex (signing_priv_to_bytes (sk_private (ni_signing idt))))),
     (PStr ''signing_pub'', PStr (hex (sk_public (ni_signing idt)))),
     (PStr ''enc_priv'', PStr (hex (enc_priv_to_bytes (ek_private (ni_encryption idt))))),
     (PStr ''enc_pub'', PStr (hex (ek_public (ni_encryption idt)))),
     (PStr ''address'', ni_address idt),
     (PStr ''node_type'', ni_node_type idt),
     (PStr ''access'', ni_access idt)])"

fun py_fromhex :: "pyval \<Rightarrow> exn + bytes" where
  "py_fromhex (PStr s) = fromhex s"
| "py_fromhex _ = Inl TypeError"

definition load_file :: "string \<Rightarrow> files \<Rightarrow> exn + pyval" where
  "load_file path fs = (case fs path of None \<Rightarrow> Inl FileNotFoundError | Some doc \<Rightarrow> Inr doc)"

definition load_signing :: "pyval \<Rightarrow> exn + SigningKeypair" where
  "load_signing data =
     bindR (bindR (py_index data ''signing_priv'') py_fromhex) (\<lambda>b.
     bindR (signing_priv_from_bytes b) (\<lambda>priv.
     bindR (bindR (py_index data ''signing_pub'') py_fromhex) (\<lambda>pub.
     Inr \<lparr>sk_private = priv, sk_public = pub\<rparr>)))"

definition load_encryption :: "pyval \<Rightarrow> exn + EncryptionKeypair" where
  "load_encryption data =
     bindR (bindR (py_index data ''enc_priv'') py_fromhex) (\<lambda>b.
     bindR (enc_priv_from_bytes b) (\<lambda>priv.
     bindR (bindR (py_index data ''enc_pub'') py_fromhex) (\<lambda>pub.
     Inr \<lparr>ek_private = priv, ek_public = pub\<rparr>)))"

definition node_load :: "string \<Rightarrow> files \<Rightarrow> exn + NodeIdentity" where
  "node_load path fs =
     bindR (load_file path fs) (\<lambda>data.
     bindR (load_signing data) (\<lambda>sg.
     bindR (load_encryption data) (\<lambda>en.
     bindR (py_index data ''address'') (\<lambda>address.
     bindR (py_get data ''node_type'' (PStr ''permanent'')) (\<lambda>node_type.
     bindR (py_get data ''access'' (PStr ''closed'')) (\<lambda>access.
     Inr \<lparr>ni_signing = sg, ni_encryption = en, ni_address = address,
          ni_node_type = node_type, ni_access = access\<rparr>))))))"

definition as_node_entry_dict :: "NodeIdentity \<Rightarrow> pyval" where
  "as_node_entry_dict idt = PDict [
     (PStr ''node_id'', PStr (node_id idt)),
     (PStr ''address'', ni_address idt),
     (PStr ''type'', ni_node_type idt),
     (PStr ''access'', ni_access idt),
     (PStr ''enc_pub'', PStr (hex (ek_public (ni_encryption idt))))]"

record CellIdentity =
  ci_signing :: SigningKeypair
  ci_encryption :: EncryptionKeypair
  ci_name :: pyval

definition cell_id :: "CellIdentity \<Rightarrow> string" where
  "cell_id idt = hex (sk_public (ci_signing idt))"

definition cell_generate :: "env \<Rightarrow> string \<Rightarrow> ('w world_scheme, CellIdentity) io" where
  "cell_generate E name =
     bindM (gen_signing E) (\<lambda>sg. bindM (gen_encryption E) (\<lambda>en.
     returnM \<lparr>ci_signing = sg, ci_encryption = en, ci_name = PStr name\<rparr>))"

definition cell_save :: "CellIdentity \<Rightarrow> string \<Rightarrow> files \<Rightarrow> files" where
  "cell_save idt path fs = fs(path \<mapsto> PDict [
     (PStr ''signing_priv'', PStr (hex (signing_priv_to_bytes (sk_private (ci_signing idt))))),
     (PStr ''signing_pub'', PStr (hex (sk_public (ci_signing idt)))),
     (PStr ''enc_priv'', PStr (hex (enc_priv_to_bytes (ek_private (ci_encryption idt))))),
     (PStr ''enc_pub'', PStr (hex (ek_public (ci_encryption idt)))),
     (PStr ''name'', ci_name idt)])"

definition cell_load :: "string \<Rightarrow> files \<Rightarrow> exn + CellIdentity" where
  "cell_load path fs =
     bindR (load_file path fs) (\<lambda>data.
     bindR (load_signing data) (\<lambda>sg.
     bindR (load_encryption data) (\<lambda>en.
     bindR (py_get data ''name'' (PStr [])) (\<lambda>name.
     Inr \<lparr>ci_signing = sg, ci_encryption = en, ci_name = name\<rparr>))))"

lemma keeps_identity [keeps_intros]:
  assumes "world_free I"
  shows "keeps I (node_generate E ad ty ac)" "keeps I (cell_generate E nm)"
  unfolding node_generate_def cell_generate_def by (intro keeps_intros assms)+

text \<open>An identity whose keypairs match.\<close>

definition node_valid :: "env \<Rightarrow> NodeIdentity \<Rightarrow> bool" where
  "node_valid E idt \<longleftrightarrow> signing_valid E (ni_signing idt) \<and> encryption_valid E (ni_encryption idt)"

definition cell_valid :: "env \<Rightarrow> CellIdentity \<Rightarrow> bool" where
  "cell_valid E idt \<longleftrightarrow> signing_valid E (ci_signing idt) \<and> encryption_valid E (ci_encryption idt)"

lemma node_save_load:
  assumes "length (sk_private (ni_signing idt)) = 32" "length (ek_private (ni_encryption idt)) = 32"
  shows "node_load path (node_save idt path fs) = Inr idt"
  using assms
  by (simp add: node_load_def node_save_def load_file_def load_signing_def load_encryption_def
      signing_priv_to_bytes_def signing_priv_from_bytes_def enc_priv_to_bytes_def
      enc_priv_from_bytes_def)

lemma cell_save_load:
  assumes "length (sk_private (ci_signing idt)) = 32" "length (ek_private (ci_encryption idt)) = 32"
  shows "cell_load path (cell_save idt path fs) = Inr idt"
  using assms
  by (simp add: cell_load_def cell_save_def load_file_def load_signing_def load_encryption_def
      signing_priv_to_bytes_def signing_priv_from_bytes_def enc_priv_to_bytes_def
      enc_priv_from_bytes_def)

section \<open>Identity files\<close>

text \<open>What the program relies on: a saved identity is read back, and files do not disturb each other.\<close>

locale identity_store =
  fixes save :: "'i \<Rightarrow> string \<Rightarrow> files \<Rightarrow> files" and load :: "string \<Rightarrow> files \<Rightarrow> exn + 'i"
    and storable :: "'i \<Rightarrow> bool"
  assumes load_save: "storable i \<Longrightarrow> load p (save i p fs) = Inr i"
    and save_other: "q \<noteq> p \<Longrightarrow> save i p fs q = fs q"
    and load_local: "fs p = fs' p \<Longrightarrow> load p fs = load p fs'"
begin

lemma load_other: "q \<noteq> p \<Longrightarrow> load q (save i p fs) = load q fs"
  by (rule load_local) (simp add: save_other)

lemma load_saves:
  "distinct (map fst ps) \<Longrightarrow> (p, i) \<in> set ps \<Longrightarrow> storable i \<Longrightarrow>
   load p (fold (\<lambda>(p, i). save i p) ps fs) = Inr i"
proof (induction ps arbitrary: fs)
  case (Cons x ps)
  have keep: "p \<notin> fst ` set ps \<Longrightarrow> load p (fold (\<lambda>(p, i). save i p) ps fs) = load p fs" for fs
    by (induction ps arbitrary: fs) (auto simp: load_other)
  show ?case
  proof (cases "x = (p, i)")
    case True
    with Cons.prems keep [of "save i p fs"] show ?thesis by (simp add: load_save)
  next
    case False
    with Cons show ?thesis by auto
  qed
qed simp

end

interpretation node_files: identity_store node_save node_load
  "\<lambda>i. length (sk_private (ni_signing i)) = 32 \<and> length (ek_private (ni_encryption i)) = 32"
  by unfold_locales (simp_all add: node_save_load, simp_all add: node_save_def node_load_def load_file_def)

interpretation cell_files: identity_store cell_save cell_load
  "\<lambda>i. length (sk_private (ci_signing i)) = 32 \<and> length (ek_private (ci_encryption i)) = 32"
  by unfold_locales (simp_all add: cell_save_load, simp_all add: cell_save_def cell_load_def load_file_def)

text \<open>
  generating an identity, for a node or a cell, yields matching keypairs and a
  64-character hexadecimal id without an at sign; saving it to a file and loading that file
  gives back the very same identity, and saving leaves every other file alone.
\<close>
theorem identity_generate_save_load:
  assumes "urandom_ok E" and "ed25519_ok E"
  shows "\<exists>n c s1 s2. node_generate E ad ty ac s = (Inr n, s1) \<and> cell_generate E nm s1 = (Inr c, s2) \<and>
    node_valid E n \<and> cell_valid E c \<and>
    length (node_id n) = 64 \<and> length (cell_id c) = 64 \<and>
    CHR ''@'' \<notin> set (node_id n) \<and> CHR ''@'' \<notin> set (cell_id c) \<and>
    node_load path (node_save n path fs) = Inr n \<and> cell_load path (cell_save c path fs) = Inr c \<and>
    (\<forall>q. q \<noteq> path \<longrightarrow> node_save n path fs q = fs q \<and> cell_save c path fs q = fs q)"
proof -
  define n where "n = (case fst (node_generate E ad ty ac s) of Inr n \<Rightarrow> n)"
  define s1 where "s1 = snd (node_generate E ad ty ac s)"
  define c where "c = (case fst (cell_generate E nm s1) of Inr c \<Rightarrow> c)"
  have n: "node_generate E ad ty ac s = (Inr n, s1)" and "node_valid E n"
    using assms by (simp_all add: n_def s1_def node_generate_def gen_signing_def gen_encryption_def
        io_simps node_valid_def signing_valid_def encryption_valid_def urandom_ok_def)
  have c: "cell_generate E nm s1 = (Inr c, snd (cell_generate E nm s1))" and "cell_valid E c"
    using assms by (simp_all add: c_def cell_generate_def gen_signing_def gen_encryption_def
        io_simps cell_valid_def signing_valid_def encryption_valid_def urandom_ok_def)
  have "length (node_id n) = 64" "length (cell_id c) = 64"
    using length_public [OF assms(2)] \<open>node_valid E n\<close> \<open>cell_valid E c\<close>
    by (auto simp: node_id_def cell_id_def node_valid_def cell_valid_def)
  moreover have "node_load path (node_save n path fs) = Inr n" "cell_load path (cell_save c path fs) = Inr c"
    using \<open>node_valid E n\<close> \<open>cell_valid E c\<close>
    by (auto simp: node_valid_def cell_valid_def signing_valid_def encryption_valid_def
        intro!: node_save_load cell_save_load)
  moreover have "\<forall>q. q \<noteq> path \<longrightarrow> node_save n path fs q = fs q \<and> cell_save c path fs q = fs q"
    by (simp add: node_save_def cell_save_def)
  ultimately show ?thesis
    using n c \<open>node_valid E n\<close> \<open>cell_valid E c\<close> at_not_in_hex
    by (metis node_id_def cell_id_def)
qed

theorem identity_generate_save_load_witness:
  "\<exists>n. fst (node_generate env0 ''h:1'' ''permanent'' ''open'' world0) = Inr n \<and>
     node_load ''node.json'' (node_save n ''node.json'' (\<lambda>_. None)) = Inr n"
  using identity_generate_save_load [OF env0_ok(5,2), of "''h:1''" "''permanent''" "''open''" world0
      "''a''" "''node.json''" "\<lambda>_. None"]
  by auto

text \<open>
  end-to-end encryption round trip.  For a recipient whose public key belongs to its
  private key, \<^verbatim>\<open>encrypt\<close> succeeds from any state and the recipient's \<^verbatim>\<open>decrypt\<close> of the three
  fields it returns gives back the plaintext, for every plaintext.
\<close>
theorem encrypt_decrypt_roundtrip:
  assumes "x25519_ok E" and "chacha_ok E" and "urandom_ok E"
    and "length priv = 32" and "kp = \<lparr>ek_private = priv, ek_public = x_pub E priv\<rparr>"
  shows "\<exists>c s'. encrypt E plaintext (ek_public kp) s = (Inr c, s') \<and>
    decrypt E (em_ciphertext c) (em_nonce c) (em_ephemeral_pubkey c) kp = Inr plaintext"
proof -
  have "encryption_valid E kp"
    using assms(4,5) by (simp add: encryption_valid_def)
  with encrypt_decrypt [OF assms(1-3) this, of plaintext s] show ?thesis by blast
qed

theorem encrypt_decrypt_roundtrip_witness:
  "\<exists>c s'. encrypt env0 [1, 2, 3] (replicate 32 5) world0 = (Inr c, s') \<and>
     decrypt env0 (em_ciphertext c) (em_nonce c) (em_ephemeral_pubkey c)
       \<lparr>ek_private = replicate 32 5, ek_public = replicate 32 5\<rparr> = Inr [1, 2, 3]"
  using encrypt_decrypt_roundtrip [OF env0_ok(3,4,5), of "replicate 32 5"
      "\<lparr>ek_private = replicate 32 5, ek_public = replicate 32 5\<rparr>" "[1, 2, 3]" world0]
  by simp

end
