(* ===== verification/Nevod_Auth.thy ===== *)
theory Nevod_Auth
  imports Nevod_Identity
begin

text \<open>
  Challenge-response authentication (\<^verbatim>\<open>node/auth.py\<close>) and the exchange both ends run over a
  fresh WebSocket (the common part of \<^verbatim>\<open>Transport._do_auth\<close> and of \<^verbatim>\<open>client._do_auth\<close>).
\<close>

definition NONCE_SIZE :: nat where
  "NONCE_SIZE = 32"

record AuthResult =
  ar_node_id :: string
  ar_signing_pubkey :: bytes
  ar_enc_pubkey :: pyval

definition make_challenge :: "env \<Rightarrow> string \<Rightarrow> string \<Rightarrow> ('w world_scheme, Packet \<times> bytes) io" where
  "make_challenge E from_node to_node =
     bindM (urandom E NONCE_SIZE) (\<lambda>nonce.
     bindM (make_auth_challenge E from_node to_node nonce) (\<lambda>pkt.
     returnM (pkt, nonce)))"

text \<open>The nonce is whatever value the peer sent; signing something that is not bytes is a
  \<^verbatim>\<open>TypeError\<close>.\<close>

definition make_response :: "env \<Rightarrow> string \<Rightarrow> pyval \<Rightarrow> pyval \<Rightarrow> SigningKeypair \<Rightarrow> EncryptionKeypair \<Rightarrow>
    ('w world_scheme, Packet) io" where
  "make_response E from_node to_node nonce signing enc =
     (case nonce of
        PBytes n \<Rightarrow>
          make_auth_response E from_node to_node nonce (sign E n signing)
            (sk_public signing) (ek_public enc)
      | _ \<Rightarrow> raiseM TypeError)"

fun py_hex :: "pyval \<Rightarrow> exn + string" where
  "py_hex (PBytes b) = Inr (hex b)"
| "py_hex _ = Inl AttributeError"

definition response_fields :: "env \<Rightarrow> Packet \<Rightarrow> exn + (pyval \<times> pyval \<times> pyval \<times> pyval)" where
  "response_fields E response =
     bindR (decode_payload E (p_payload response)) (\<lambda>data.
     bindR (py_index data ''nonce'') (\<lambda>nonce.
     bindR (py_index data ''sig'') (\<lambda>sig.
     bindR (py_index data ''signing_pubkey'') (\<lambda>signing_pubkey.
     bindR (py_index data ''enc_pubkey'') (\<lambda>enc_pubkey.
     Inr (nonce, sig, signing_pubkey, enc_pubkey))))))"

definition verify_response :: "env \<Rightarrow> Packet \<Rightarrow> bytes \<Rightarrow> string option \<Rightarrow> exn + AuthResult option" where
  "verify_response E response expected_nonce expected_node_id =
     (case response_fields E response of
        Inl _ \<Rightarrow> Inr None
      | Inr (nonce, sig, signing_pubkey, enc_pubkey) \<Rightarrow>
          if nonce \<noteq> PBytes expected_nonce then Inr None
          else bindR (py_hex signing_pubkey) (\<lambda>node_id_claim.
            if (case expected_node_id of None \<Rightarrow> False
                | Some e \<Rightarrow> e \<noteq> [] \<and> node_id_claim \<noteq> e) then Inr None
            else (case signing_pubkey of
                PBytes pk \<Rightarrow> bindR (verify E expected_nonce sig pk) (\<lambda>ok.
                  if \<not> ok then Inr None
                  else Inr (Some \<lparr>ar_node_id = node_id_claim, ar_signing_pubkey = pk,
                                 ar_enc_pubkey = enc_pubkey\<rparr>))
              | _ \<Rightarrow> Inl AttributeError)))"

text \<open>The exchange: send our challenge, read theirs, answer it, read their answer, verify it.
  It is cut in two after each message sent.\<close>

definition auth_answer :: "env \<Rightarrow> ws \<Rightarrow> string \<Rightarrow> SigningKeypair \<Rightarrow> EncryptionKeypair \<Rightarrow>
    ('w world_scheme, unit) io" where
  "auth_answer E ws our_id signing enc =
     bindM (ws_recv E ws) (\<lambda>r1.
     bindM (liftM (unpack E r1)) (\<lambda>their_challenge.
     if p_type their_challenge \<noteq> PStr T_AUTH_CHALLENGE then raiseM ValueError
     else
     bindM (liftM (bindR (decode_payload E (p_payload their_challenge)) (\<lambda>d. py_index d ''nonce''))) (\<lambda>their_nonce.
     bindM (make_response E our_id (p_from their_challenge) their_nonce signing enc) (\<lambda>response.
     bindM (liftM (pack E response)) (\<lambda>b2.
     ws_send E ws b2)))))"

definition auth_conclude :: "env \<Rightarrow> ws \<Rightarrow> bytes \<Rightarrow> string option \<Rightarrow> ('w world_scheme, AuthResult) io" where
  "auth_conclude E ws our_nonce expected_id =
     bindM (ws_recv E ws) (\<lambda>r2.
     bindM (liftM (unpack E r2)) (\<lambda>their_response.
     if p_type their_response \<noteq> PStr T_AUTH_RESPONSE then raiseM ValueError
     else
     bindM (liftM (verify_response E their_response our_nonce expected_id)) (\<lambda>result.
     case result of None \<Rightarrow> raiseM ValueError | Some r \<Rightarrow> returnM r)))"

definition auth_exchange :: "env \<Rightarrow> ws \<Rightarrow> string \<Rightarrow> SigningKeypair \<Rightarrow> EncryptionKeypair \<Rightarrow>
    string option \<Rightarrow> ('w world_scheme, AuthResult) io" where
  "auth_exchange E ws our_id signing enc expected_id =
     bindM (make_challenge E our_id (case expected_id of None \<Rightarrow> [] | Some e \<Rightarrow> e)) (\<lambda>(challenge, our_nonce).
     bindM (liftM (pack E challenge)) (\<lambda>b1.
     bindM (ws_send E ws b1) (\<lambda>_.
     bindM (auth_answer E ws our_id signing enc) (\<lambda>_.
     auth_conclude E ws our_nonce expected_id))))"

lemma keeps_auth [keeps_intros]:
  assumes "world_free I"
  shows "keeps I (make_challenge E n m)" "keeps I (make_response E n v w sg en)"
    "keeps I (auth_exchange E ws i sg en x)"
proof -
  show c: "keeps I (make_challenge E n m)" for n m
    unfolding make_challenge_def by (intro keeps_intros assms)
  show r: "keeps I (make_response E n v w sg en)" for n v w sg en
    unfolding make_response_def by (cases w) (auto intro!: keeps_intros assms)
  show "keeps I (auth_exchange E ws i sg en x)"
    unfolding auth_exchange_def auth_answer_def auth_conclude_def
    by (intro keeps_intros assms c r)
qed

section \<open>One response\<close>

lemma response_fields_dict:
  assumes "decode_payload E (p_payload r) = Inr (auth_response_dict n sg pk ek)"
  shows "response_fields E r = Inr (n, PBytes sg, PBytes pk, PBytes ek)"
  using assms by (simp add: response_fields_def auth_response_dict_def)

text \<open>The conditions under which a packet a node builds can be carried by MessagePack.\<close>

definition clock_ok :: "env \<Rightarrow> bool" where
  "clock_ok E \<longleftrightarrow> (\<forall>t. 0 \<le> e_time E t \<and> e_time E t < 2 ^ 63 \<and>
     utf8_ok (e_uuid E t) \<and> length (e_uuid E t) < 2 ^ 32)"

lemma clock_okD:
  assumes "clock_ok E"
  shows "0 \<le> e_time E t" "e_time E t < 2 ^ 63" "utf8_ok (e_uuid E t)" "length (e_uuid E t) < 2 ^ 32"
  using assms unfolding clock_ok_def by blast+

lemma packable_response_dict:
  "packable (auth_response_dict (PBytes n) sg pk ek) \<longleftrightarrow>
     length n < 2 ^ 32 \<and> length sg < 2 ^ 32 \<and> length pk < 2 ^ 32 \<and> length ek < 2 ^ 32"
  by (auto simp: packable_def auth_response_dict_def Let_def)

lemma new_packet_apply:
  "new_packet E t pl f a s =
     (Inr \<lparr>p_type = PStr t, p_payload = pl, p_id = PStr (e_uuid E (w_tick s)), p_from = f, p_to = a,
           p_sig = PBytes [], p_ts = PInt (e_time E (Suc (w_tick s))), p_v = PInt PROTO_VERSION\<rparr>,
      s\<lparr>w_tick := Suc (Suc (w_tick s))\<rparr>)"
  by (simp add: new_packet_def io_simps)

lemma payload_packet_apply:
  assumes "e_packb E v = Inr b"
  shows "payload_packet E t v f a s = new_packet E t (PBytes b) f a s"
  using assms by (simp add: payload_packet_def encode_payload_def io_simps)

lemma make_response_ok:
  assumes "msgpack_ok E" "ed25519_ok E" "signing_valid E kp" "length n < 2 ^ 32"
    "length (ek_public en) < 2 ^ 32"
  obtains b where "e_packb E (auth_response_dict (PBytes n) (sign E n kp) (sk_public kp) (ek_public en)) = Inr b"
    "e_unpackb E b = Inr (auth_response_dict (PBytes n) (sign E n kp) (sk_public kp) (ek_public en))"
    "\<And>i f s. make_response E i f (PBytes n) kp en s = new_packet E T_AUTH_RESPONSE (PBytes b) (PStr i) f s"
proof -
  have "packable (auth_response_dict (PBytes n) (sign E n kp) (sk_public kp) (ek_public en))"
    using assms length_sign [OF assms(2,3)] length_public [OF assms(2,3)]
    by (simp add: packable_response_dict)
  then obtain b where "e_packb E (auth_response_dict (PBytes n) (sign E n kp) (sk_public kp) (ek_public en)) = Inr b"
    and "e_unpackb E b = Inr (auth_response_dict (PBytes n) (sign E n kp) (sk_public kp) (ek_public en))"
    by (rule msgpack_okD [OF assms(1)])
  then show ?thesis
    by (intro that [of b]) (simp_all add: make_response_def make_auth_response_def payload_packet_apply)
qed

lemma verify_response_of_dict:
  assumes "ed25519_ok E" "signing_valid E kp"
    "decode_payload E (p_payload r)
      = Inr (auth_response_dict (PBytes n) (sign E n kp) (sk_public kp) (ek_public en))"
    "expected = None \<or> expected = Some [] \<or> expected = Some (hex (sk_public kp))"
  shows "verify_response E r n expected = Inr (Some
    \<lparr>ar_node_id = hex (sk_public kp), ar_signing_pubkey = sk_public kp,
     ar_enc_pubkey = PBytes (ek_public en)\<rparr>)"
  using assms(4) verify_sign [OF assms(1,2), of n]
  by (auto simp: verify_response_def response_fields_dict [OF assms(3)])

text \<open>
  completeness of one authentication step.  The response a key holder makes to a
  challenge is accepted by whoever issued that challenge, with the holder's id either not
  prescribed or prescribed correctly, and the result names the holder: its id is the
  hexadecimal form of its signing key, with that key and its encryption key.
\<close>
theorem honest_response_accepted:
  assumes "msgpack_ok E" "ed25519_ok E" "signing_valid E kp" "length nonce = 32"
    "length (ek_public en) = 32"
    and "expected = None \<or> expected = Some (hex (sk_public kp))"
  shows "\<exists>r s'. make_response E from_node to_node (PBytes nonce) kp en s = (Inr r, s') \<and>
    verify_response E r nonce expected = Inr (Some
      \<lparr>ar_node_id = hex (sk_public kp), ar_signing_pubkey = sk_public kp,
       ar_enc_pubkey = PBytes (ek_public en)\<rparr>)"
proof -
  have len: "length nonce < 2 ^ 32" "length (ek_public en) < 2 ^ 32"
    using assms(4,5) by simp_all
  obtain b where b: "e_unpackb E b
        = Inr (auth_response_dict (PBytes nonce) (sign E nonce kp) (sk_public kp) (ek_public en))"
    and r: "make_response E from_node to_node (PBytes nonce) kp en s
        = new_packet E T_AUTH_RESPONSE (PBytes b) (PStr from_node) to_node s"
    by (rule make_response_ok [OF assms(1-3) len]) (rule that, assumption, assumption)
  show ?thesis
    unfolding r new_packet_apply
    using assms(6) b by (auto simp: decode_payload_def intro!: verify_response_of_dict assms(2,3))
qed

theorem honest_response_accepted_witness:
  "\<exists>r s'. make_response env0 ''b'' (PStr ''a'') (PBytes (replicate 32 1)) kp0
       \<lparr>ek_private = replicate 32 2, ek_public = replicate 32 2\<rparr> world0 = (Inr r, s') \<and>
     verify_response env0 r (replicate 32 1) (Some (hex (sk_public kp0))) = Inr (Some
       \<lparr>ar_node_id = hex (sk_public kp0), ar_signing_pubkey = sk_public kp0,
        ar_enc_pubkey = PBytes (replicate 32 2)\<rparr>)"
  using honest_response_accepted [OF env0_ok(1,2) kp0_valid, of "replicate 32 1"
      "\<lparr>ek_private = replicate 32 2, ek_public = replicate 32 2\<rparr>" "Some (hex (sk_public kp0))"
      "''b''" "PStr ''a''" world0]
  by simp

lemma verify_response_SomeD:
  assumes "verify_response E r n expected = Inr (Some res)"
  shows "\<exists>d sg pk. decode_payload E (p_payload r) = Inr d \<and>
    py_index d ''nonce'' = Inr (PBytes n) \<and> py_index d ''sig'' = Inr (PBytes sg) \<and>
    py_index d ''signing_pubkey'' = Inr (PBytes pk) \<and> py_index d ''enc_pubkey'' = Inr (ar_enc_pubkey res) \<and>
    length pk = 32 \<and> ed_verify E pk sg n \<and>
    ar_signing_pubkey res = pk \<and> ar_node_id res = hex pk \<and>
    (\<forall>e. expected = Some e \<and> e \<noteq> [] \<longrightarrow> ar_node_id res = e)"
proof -
  from assms obtain nv sig pkv ek where f: "response_fields E r = Inr (nv, sig, pkv, ek)"
    by (auto simp: verify_response_def split: sum.splits)
  with assms have nv: "nv = PBytes n"
    by (auto simp: verify_response_def split: if_splits)
  from assms f nv obtain pk where pk: "pkv = PBytes pk"
    by (cases pkv) (auto simp: verify_response_def)
  from assms f nv pk have v: "verify E n sig pk = Inr True"
    and res: "res = \<lparr>ar_node_id = hex pk, ar_signing_pubkey = pk, ar_enc_pubkey = ek\<rparr>"
    and e: "\<forall>e. expected = Some e \<and> e \<noteq> [] \<longrightarrow> hex pk = e"
    by (auto simp: verify_response_def bindR_Inr_iff split: if_splits option.splits)
  from v obtain sg where "sig = PBytes sg" "length pk = 32" "ed_verify E pk sg n"
    by (auto simp: verify_def split: if_splits pyval.splits)
  with f nv pk res e show ?thesis
    by (auto simp: response_fields_def bindR_Inr_iff)
qed

text \<open>
  C7: soundness of one authentication step.  If \<^verbatim>\<open>verify_response\<close> accepts, then the payload
  decoded to a dictionary whose nonce is the one expected, whose signing key has 32 bytes,
  and whose signature Ed25519 accepts for that key on that nonce; the id returned is the
  hexadecimal form of that key, and it is the expected id whenever a non-empty one was given.
\<close>
theorem accepted_response_sound:
  assumes "verify_response E r n expected = Inr (Some res)"
  shows "\<exists>d sg pk. decode_payload E (p_payload r) = Inr d \<and>
    py_index d ''nonce'' = Inr (PBytes n) \<and> py_index d ''sig'' = Inr (PBytes sg) \<and>
    py_index d ''signing_pubkey'' = Inr (PBytes pk) \<and> py_index d ''enc_pubkey'' = Inr (ar_enc_pubkey res) \<and>
    length pk = 32 \<and> ed_verify E pk sg n \<and>
    ar_signing_pubkey res = pk \<and> ar_node_id res = hex pk \<and>
    (\<forall>e. expected = Some e \<and> e \<noteq> [] \<longrightarrow> ar_node_id res = e)"
  using assms by (rule verify_response_SomeD)

theorem accepted_response_sound_witness:
  "\<exists>r res. verify_response env0 r (replicate 32 1) (Some (hex (sk_public kp0))) = Inr (Some res) \<and>
     ar_node_id res = hex (sk_public kp0)"
proof -
  define res where "res = \<lparr>ar_node_id = hex (sk_public kp0), ar_signing_pubkey = sk_public kp0,
    ar_enc_pubkey = PBytes (replicate 32 2)\<rparr>"
  define en :: EncryptionKeypair where "en = \<lparr>ek_private = replicate 32 2, ek_public = replicate 32 2\<rparr>"
  obtain b where b: "e_unpackb env0 b = Inr (auth_response_dict (PBytes (replicate 32 1))
      (sign env0 (replicate 32 1) kp0) (sk_public kp0) (ek_public en))"
    by (rule make_response_ok [OF env0_ok(1,2) kp0_valid, of "replicate 32 1" en])
      (simp_all add: en_def)
  define r where "r = typed_packet ''i'' ''auth_response'' ''x'' ''y'' b [] 5 1"
  have v: "verify_response env0 r (replicate 32 1) (Some (hex (sk_public kp0))) = Inr (Some res)"
    using verify_response_of_dict [OF env0_ok(2) kp0_valid, of r "replicate 32 1" en
        "Some (hex (sk_public kp0))"] b
    by (simp add: res_def en_def r_def typed_packet_def decode_payload_def)
  have "length (hex (sk_public kp0)) = 64"
    by (simp add: kp0_def)
  then have "hex (sk_public kp0) \<noteq> []" by (metis list.size(3) zero_neq_numeral)
  then show ?thesis using v accepted_response_sound [OF v] by blast
qed

text \<open>
  C37: the challenge is a signing oracle.  A node asked to authenticate signs the nonce it is
  sent, whatever its length and content.  Hence for every packet with signed bytes \<open>d\<close>, the
  answer to the challenge with nonce \<open>d\<close> carries a signature with which that packet, which
  the node never sent, passes \<^verbatim>\<open>verify_packet\<close> under the node's key.
\<close>
theorem challenge_signs_any_packet:
  assumes "msgpack_ok E" "ed25519_ok E" "signing_valid E kp" "length (ek_public en) = 32"
    and "sign_data E q = Inr d" "length d < 2 ^ 32"
  shows "\<exists>r s' data sg. make_response E our_id from_addr (PBytes d) kp en s = (Inr r, s') \<and>
    decode_payload E (p_payload r) = Inr data \<and> py_index data ''sig'' = Inr sg \<and>
    verify_packet E (q\<lparr>p_sig := sg\<rparr>) (sk_public kp) = Inr True"
proof -
  have len: "length (ek_public en) < 2 ^ 32"
    using assms(4) by simp
  obtain b where b: "e_unpackb E b
        = Inr (auth_response_dict (PBytes d) (sign E d kp) (sk_public kp) (ek_public en))"
    and r: "make_response E our_id from_addr (PBytes d) kp en s
        = new_packet E T_AUTH_RESPONSE (PBytes b) (PStr our_id) from_addr s"
    by (rule make_response_ok [OF assms(1-3,6) len]) (rule that, assumption, assumption)
  have "sign_packet E q kp = Inr (q\<lparr>p_sig := PBytes (sign E d kp)\<rparr>)"
    using assms(5) by (simp add: sign_packet_def)
  from verify_signed [OF assms(2,3) this] b show ?thesis
    unfolding r new_packet_apply by (auto simp: decode_payload_def auth_response_dict_def)
qed

theorem challenge_signs_any_packet_witness:
  "\<exists>d r s' data sg. sign_data env0 (typed_packet ''i'' ''node_remove'' ''x'' ''y'' [] [] 7 1) = Inr d \<and>
     make_response env0 ''me'' (PStr ''evil'') (PBytes d) kp0
       \<lparr>ek_private = replicate 32 2, ek_public = replicate 32 2\<rparr> world0 = (Inr r, s') \<and>
     py_index data ''sig'' = Inr sg \<and>
     verify_packet env0 ((typed_packet ''i'' ''node_remove'' ''x'' ''y'' [] [] 7 1)\<lparr>p_sig := sg\<rparr>)
       (sk_public kp0) = Inr True"
proof -
  let ?d = "encode ''i'' @ encode ''node_remove'' @ encode ''x'' @ encode ''y'' @ encode (str_int 7)"
  have d: "sign_data env0 (typed_packet ''i'' ''node_remove'' ''x'' ''y'' [] [] 7 1) = Inr ?d"
    by (simp add: sign_data_def typed_packet_def)
  have len: "length ?d < 2 ^ 32"
    by (simp add: str_int_def str_nat.simps)
  have ek: "length (ek_public \<lparr>ek_private = replicate 32 2, ek_public = replicate 32 2\<rparr>) = 32"
    by simp
  show ?thesis
    using d challenge_signs_any_packet [OF env0_ok(1,2) kp0_valid ek d len, of "''me''" "PStr ''evil''" world0]
    by blast
qed

text \<open>
  a key of the wrong length is not an authentication failure but an exception.  When
  the response answers the right nonce (and names no other expected id) but carries a signing
  key that is not 32 bytes long, \<^verbatim>\<open>verify_response\<close> raises \<^verbatim>\<open>ValueError\<close>; when the key is not
  bytes at all it raises \<^verbatim>\<open>AttributeError\<close>; a wrong nonce or a missing field gives \<^verbatim>\<open>None\<close>.
\<close>
theorem verify_response_error_paths:
  "(\<forall>e. response_fields E r = Inl e \<longrightarrow> verify_response E r n x = Inr None) \<and>
   (\<forall>nv sig pkv ek. response_fields E r = Inr (nv, sig, pkv, ek) \<longrightarrow>
      (nv \<noteq> PBytes n \<longrightarrow> verify_response E r n x = Inr None) \<and>
      (nv = PBytes n \<and> (\<forall>pk. pkv \<noteq> PBytes pk) \<longrightarrow> verify_response E r n x = Inl AttributeError) \<and>
      (\<forall>pk. nv = PBytes n \<and> pkv = PBytes pk \<and> length pk \<noteq> 32 \<longrightarrow>
         verify_response E r n None = Inl ValueError))"
proof -
  have "py_hex pkv = Inl AttributeError" if "\<forall>pk. pkv \<noteq> PBytes pk" for pkv
    using that by (cases pkv) auto
  then show ?thesis
    by (auto simp: verify_response_def verify_def)
qed

theorem verify_response_error_paths_witness:
  "response_fields env0 (typed_packet ''i'' ''auth_response'' ''x'' ''y''
       (ex_pack (auth_response_dict (PBytes [1]) [2] [3] [4])) [] 5 1)
     = Inr (PBytes [1], PBytes [2], PBytes [3], PBytes [4]) \<and>
   verify_response env0 (typed_packet ''i'' ''auth_response'' ''x'' ''y''
       (ex_pack (auth_response_dict (PBytes [1]) [2] [3] [4])) [] 5 1) [1] None = Inl ValueError"
proof -
  have f: "response_fields env0 (typed_packet ''i'' ''auth_response'' ''x'' ''y''
       (ex_pack (auth_response_dict (PBytes [1]) [2] [3] [4])) [] 5 1)
     = Inr (PBytes [1], PBytes [2], PBytes [3], PBytes [4])"
    by (rule response_fields_dict) (simp add: decode_payload_def typed_packet_def ex_unpack_pack)
  show ?thesis using f verify_response_error_paths [of env0 "typed_packet ''i'' ''auth_response'' ''x'' ''y''
       (ex_pack (auth_response_dict (PBytes [1]) [2] [3] [4])) [] 5 1" "[1]" None] by simp
qed

section \<open>The whole exchange\<close>

text \<open>Frames that an honest key holder sends: its challenge, and its answer to nonce \<open>n\<close>.\<close>

definition challenge_frame :: "env \<Rightarrow> bytes \<Rightarrow> string \<Rightarrow> bytes \<Rightarrow> bool" where
  "challenge_frame E b i n \<longleftrightarrow> (\<exists>c. unpack E b = Inr c \<and> p_type c = PStr T_AUTH_CHALLENGE \<and>
     p_from c = PStr i \<and>
     bindR (decode_payload E (p_payload c)) (\<lambda>d. py_index d ''nonce'') = Inr (PBytes n))"

definition response_frame :: "env \<Rightarrow> bytes \<Rightarrow> SigningKeypair \<Rightarrow> EncryptionKeypair \<Rightarrow> bytes \<Rightarrow> bool" where
  "response_frame E b kp en n \<longleftrightarrow> (\<exists>r. unpack E b = Inr r \<and> p_type r = PStr T_AUTH_RESPONSE \<and>
     decode_payload E (p_payload r)
       = Inr (auth_response_dict (PBytes n) (sign E n kp) (sk_public kp) (ek_public en)))"

text \<open>What a party needs for its own side: working packages, clock and randomness, a keypair that
  matches, and a socket that accepts its frames.\<close>

definition party_ok :: "env \<Rightarrow> SigningKeypair \<Rightarrow> EncryptionKeypair \<Rightarrow> ws \<Rightarrow> bool" where
  "party_ok E kp en ws \<longleftrightarrow>
     msgpack_ok E \<and> ed25519_ok E \<and> urandom_ok E \<and> clock_ok E \<and> signing_valid E kp \<and>
     length (ek_public en) = 32 \<and> (\<forall>t b. e_send E t ws b = None)"

abbreviation wire_str :: "string \<Rightarrow> bool" where
  "wire_str s \<equiv> utf8_ok s \<and> length s < 2 ^ 32"

lemma packable_challenge_dict:
  "packable (PDict [(PStr ''nonce'', PBytes n)]) \<longleftrightarrow> length n < 2 ^ 32"
  by (auto simp: packable_def Let_def)

text \<open>The packets built by this node can be packed, provided the payload bytes are not huge.\<close>

lemma pack_new_packet:
  assumes "msgpack_ok E" "clock_ok E" "wire_str t" "wire_str f" "wire_str a" "length pl < 2 ^ 32"
    "fst (new_packet E t (PBytes pl) (PStr f) (PStr a) s) = Inr p"
  obtains b where "pack E p = Inr b" "unpack E b = Inr p"
proof -
  have p: "p = typed_packet (e_uuid E (w_tick s)) t f a pl [] (e_time E (Suc (w_tick s))) 1"
    using assms(7) by (simp add: new_packet_apply typed_packet_def PROTO_VERSION_def)
  have "packable (packet_dict p)"
    unfolding p packable_typed
    using assms(3-6) clock_okD [OF assms(2), of "w_tick s"] clock_okD [OF assms(2), of "Suc (w_tick s)"]
    by auto
  then show ?thesis
    by (rule pack_unpack [OF assms(1)]) (use that in \<open>auto simp: p typed_packet_def\<close>)
qed

text \<open>MessagePack output is a byte string a packet can carry.\<close>

definition short_payloads :: "env \<Rightarrow> bool" where
  "short_payloads E \<longleftrightarrow> (\<forall>n. length n = 32 \<longrightarrow>
     (\<forall>b. e_packb E (PDict [(PStr ''nonce'', PBytes n)]) = Inr b \<longrightarrow> length b < 2 ^ 32) \<and>
     (\<forall>sg pk ek b. length sg = 64 \<longrightarrow> length pk = 32 \<longrightarrow> length ek = 32 \<longrightarrow>
        e_packb E (auth_response_dict (PBytes n) sg pk ek) = Inr b \<longrightarrow> length b < 2 ^ 32))"

lemma auth_challenge_sent:
  assumes ok: "party_ok E kp en ws" and sh: "short_payloads E"
    and ids: "wire_str i" "wire_str (case x of None \<Rightarrow> [] | Some e \<Rightarrow> e)"
  obtains b where "challenge_frame E b i (e_urandom E (w_tick s) 32)"
    "\<And>r. auth_exchange (E\<lparr>e_recv := r\<rparr>) ws i kp en x s =
      bindM (auth_answer (E\<lparr>e_recv := r\<rparr>) ws i kp en) (\<lambda>_.
        auth_conclude (E\<lparr>e_recv := r\<rparr>) ws (e_urandom E (w_tick s) 32) x)
        (s\<lparr>w_tick := w_tick s + 4, w_sent := w_sent s @ [(ws, b)]\<rparr>)"
proof -
  define n where "n = e_urandom E (w_tick s) 32"
  have E: "msgpack_ok E" "clock_ok E" and n: "length n = 32" and snd: "\<And>t b. e_send E t ws b = None"
    using ok by (auto simp: party_ok_def urandom_ok_def n_def)
  have "packable (PDict [(PStr ''nonce'', PBytes n)])"
    using n by (simp add: packable_challenge_dict)
  then obtain pl where pl: "e_packb E (PDict [(PStr ''nonce'', PBytes n)]) = Inr pl"
      "e_unpackb E pl = Inr (PDict [(PStr ''nonce'', PBytes n)])"
    by (rule msgpack_okD [OF E(1)])
  have "length pl < 2 ^ 32"
    using sh n pl(1) by (auto simp: short_payloads_def)
  define c where "c = \<lparr>p_type = PStr T_AUTH_CHALLENGE, p_payload = PBytes pl,
    p_id = PStr (e_uuid E (Suc (w_tick s))), p_from = PStr i,
    p_to = PStr (case x of None \<Rightarrow> [] | Some e \<Rightarrow> e), p_sig = PBytes [],
    p_ts = PInt (e_time E (Suc (Suc (w_tick s)))), p_v = PInt PROTO_VERSION\<rparr>"
  have ty: "wire_str T_AUTH_CHALLENGE"
    by (simp add: Let_def)
  have "fst (new_packet E T_AUTH_CHALLENGE (PBytes pl) (PStr i)
      (PStr (case x of None \<Rightarrow> [] | Some e \<Rightarrow> e)) (s\<lparr>w_tick := Suc (w_tick s)\<rparr>)) = Inr c"
    by (simp add: new_packet_apply c_def)
  then obtain b where b: "pack E c = Inr b" "unpack E b = Inr c"
    by (rule pack_new_packet [OF E ty ids \<open>length pl < 2 ^ 32\<close>])
  have "challenge_frame E b i n"
    using b(2) pl(2) by (auto simp: challenge_frame_def c_def decode_payload_def)
  moreover have "auth_exchange (E\<lparr>e_recv := r\<rparr>) ws i kp en x s =
      bindM (auth_answer (E\<lparr>e_recv := r\<rparr>) ws i kp en) (\<lambda>_.
        auth_conclude (E\<lparr>e_recv := r\<rparr>) ws n x)
        (s\<lparr>w_tick := w_tick s + 4, w_sent := w_sent s @ [(ws, b)]\<rparr>)" for r
  proof -
    have mc: "make_challenge (E\<lparr>e_recv := r\<rparr>) i (case x of None \<Rightarrow> [] | Some e \<Rightarrow> e) s
        = (Inr (c, n), s\<lparr>w_tick := Suc (Suc (Suc (w_tick s)))\<rparr>)"
      using pl(1) by (simp add: make_challenge_def make_auth_challenge_def NONCE_SIZE_def io_simps
          payload_packet_apply new_packet_apply c_def n_def [symmetric])
    have pk: "pack (E\<lparr>e_recv := r\<rparr>) c = Inr b"
      using b(1) by simp
    show ?thesis
      using snd mc pk by (simp add: auth_exchange_def io_simps numeral_eq_Suc)
  qed
  ultimately show ?thesis
    using that unfolding n_def by blast
qed

lemma auth_answer_ok:
  assumes ok: "party_ok E kp en ws" and sh: "short_payloads E" and i: "wire_str i"
    and fr: "challenge_frame E r1 f n" "wire_str f" "length n = 32"
  obtains b where "response_frame E b kp en n"
    "\<And>r. r (w_tick s) ws = Inr r1 \<Longrightarrow>
      auth_answer (E\<lparr>e_recv := r\<rparr>) ws i kp en s =
        (Inr (), s\<lparr>w_tick := w_tick s + 4, w_sent := w_sent s @ [(ws, b)]\<rparr>)"
proof -
  have E: "msgpack_ok E" "clock_ok E" "ed25519_ok E" "signing_valid E kp"
    and len: "length n < 2 ^ 32" "length (ek_public en) < 2 ^ 32" "length (ek_public en) = 32"
    and snd: "\<And>t b. e_send E t ws b = None"
    using ok fr(3) by (auto simp: party_ok_def)
  from fr(1) obtain c where c: "unpack E r1 = Inr c" "p_type c = PStr T_AUTH_CHALLENGE"
      "p_from c = PStr f"
      "bindR (decode_payload E (p_payload c)) (\<lambda>d. py_index d ''nonce'') = Inr (PBytes n)"
    by (auto simp: challenge_frame_def)
  let ?d = "auth_response_dict (PBytes n) (sign E n kp) (sk_public kp) (ek_public en)"
  obtain pl where pl: "e_packb E ?d = Inr pl" "e_unpackb E pl = Inr ?d"
    by (rule make_response_ok [OF E(1,3,4) len(1,2)])
  have "length pl < 2 ^ 32"
    using sh fr(3) len(3) pl(1) length_sign [OF E(3,4)] length_public [OF E(3,4)]
    unfolding short_payloads_def by blast
  have ty: "wire_str T_AUTH_RESPONSE"
    by (simp add: Let_def)
  define q where "q = \<lparr>p_type = PStr T_AUTH_RESPONSE, p_payload = PBytes pl,
    p_id = PStr (e_uuid E (Suc (w_tick s))), p_from = PStr i, p_to = PStr f, p_sig = PBytes [],
    p_ts = PInt (e_time E (Suc (Suc (w_tick s)))), p_v = PInt PROTO_VERSION\<rparr>"
  have "fst (new_packet E T_AUTH_RESPONSE (PBytes pl) (PStr i) (PStr f)
      (s\<lparr>w_tick := Suc (w_tick s)\<rparr>)) = Inr q"
    by (simp add: new_packet_apply q_def)
  then obtain b where b: "pack E q = Inr b" "unpack E b = Inr q"
    by (rule pack_new_packet [OF E(1,2) ty i fr(2) \<open>length pl < 2 ^ 32\<close>])
  have "response_frame E b kp en n"
    using b(2) pl(2) by (auto simp: response_frame_def q_def decode_payload_def)
  moreover have "auth_answer (E\<lparr>e_recv := r\<rparr>) ws i kp en s =
      (Inr (), s\<lparr>w_tick := w_tick s + 4, w_sent := w_sent s @ [(ws, b)]\<rparr>)"
    if "r (w_tick s) ws = Inr r1" for r
  proof -
    let ?E = "E\<lparr>e_recv := r\<rparr>"
    have eqs: "unpack ?E r1 = Inr c" "pack ?E q = Inr b" "sign ?E n kp = sign E n kp"
      "bindR (decode_payload ?E (p_payload c)) (\<lambda>d. py_index d ''nonce'') = Inr (PBytes n)"
      using c b by simp_all
    have "make_response ?E i (PStr f) (PBytes n) kp en (s\<lparr>w_tick := Suc (w_tick s)\<rparr>)
        = (Inr q, s\<lparr>w_tick := Suc (Suc (Suc (w_tick s)))\<rparr>)"
      using pl(1) eqs(3) by (simp add: make_response_def make_auth_response_def
          payload_packet_apply new_packet_apply q_def)
    then show ?thesis
      using that c(2,3) eqs snd by (simp add: auth_answer_def io_simps numeral_eq_Suc)
  qed
  ultimately show ?thesis using that by blast
qed

lemma auth_conclude_ok:
  assumes "ed25519_ok E" "signing_valid E kp" "response_frame E r2 kp en n"
    "x = None \<or> x = Some (hex (sk_public kp))" "r (w_tick s) ws = Inr r2"
  shows "auth_conclude (E\<lparr>e_recv := r\<rparr>) ws n x s =
    (Inr \<lparr>ar_node_id = hex (sk_public kp), ar_signing_pubkey = sk_public kp,
          ar_enc_pubkey = PBytes (ek_public en)\<rparr>, s\<lparr>w_tick := Suc (w_tick s)\<rparr>)"
proof -
  let ?E = "E\<lparr>e_recv := r\<rparr>"
  from assms(3) obtain q where q: "unpack ?E r2 = Inr q" "p_type q = PStr T_AUTH_RESPONSE"
    "decode_payload ?E (p_payload q)
      = Inr (auth_response_dict (PBytes n) (sign ?E n kp) (sk_public kp) (ek_public en))"
    by (auto simp: response_frame_def)
  have "ed25519_ok ?E" "signing_valid ?E kp"
    using assms(1,2) by simp_all
  from verify_response_of_dict [OF this q(3)] assms(4)
  show ?thesis
    using q(1,2) assms(5) by (auto simp: auth_conclude_def io_simps)
qed

text \<open>Two environments are built on the same packages.\<close>

definition same_packages :: "env \<Rightarrow> env \<Rightarrow> bool" where
  "same_packages E F \<longleftrightarrow> e_packb E = e_packb F \<and> e_unpackb E = e_unpackb F \<and>
     ed_pub E = ed_pub F \<and> ed_sign E = ed_sign F \<and> ed_verify E = ed_verify F"

lemma same_packages_frames:
  assumes "same_packages E F"
  shows "challenge_frame E b i n = challenge_frame F b i n"
    "response_frame E b kp en n = response_frame F b kp en n"
    "signing_valid E kp = signing_valid F kp"
  using assms unpack_cong [of E F] decode_payload_cong [of E F] sign_cong [of E F]
  by (simp_all add: same_packages_def challenge_frame_def response_frame_def signing_valid_def)

text \<open>The script that delivers two given frames to a party that starts at tick \<open>t\<close>.\<close>

definition deliver2 :: "env \<Rightarrow> nat \<Rightarrow> bytes \<Rightarrow> bytes \<Rightarrow> env" where
  "deliver2 E t b1 b2 = E\<lparr>e_recv := (\<lambda>k w. if k = t + 4 then Inr b1 else Inr b2)\<rparr>"

lemma auth_exchange_frames:
  assumes ok: "party_ok E kp en ws" "short_payloads E" "wire_str i"
      "wire_str (case x of None \<Rightarrow> [] | Some e \<Rightarrow> e)"
    and peer: "ed25519_ok E" "signing_valid E kp'" "x = None \<or> x = Some (hex (sk_public kp'))"
  obtains a1 where "challenge_frame E a1 i (e_urandom E (w_tick s) 32)"
    "\<And>b1 j m. challenge_frame E b1 j m \<Longrightarrow> wire_str j \<Longrightarrow> length m = 32 \<Longrightarrow>
      (\<exists>a2. response_frame E a2 kp en m \<and>
        (\<forall>b2. response_frame E b2 kp' en' (e_urandom E (w_tick s) 32) \<longrightarrow>
          auth_exchange (deliver2 E (w_tick s) b1 b2) ws i kp en x s =
            (Inr \<lparr>ar_node_id = hex (sk_public kp'), ar_signing_pubkey = sk_public kp',
                  ar_enc_pubkey = PBytes (ek_public en')\<rparr>,
             s\<lparr>w_tick := w_tick s + 9, w_sent := w_sent s @ [(ws, a1), (ws, a2)]\<rparr>)))"
proof -
  let ?n = "e_urandom E (w_tick s) 32"
  obtain a1 where a1: "challenge_frame E a1 i ?n"
    and run: "\<And>r. auth_exchange (E\<lparr>e_recv := r\<rparr>) ws i kp en x s =
      bindM (auth_answer (E\<lparr>e_recv := r\<rparr>) ws i kp en) (\<lambda>_.
        auth_conclude (E\<lparr>e_recv := r\<rparr>) ws ?n x)
        (s\<lparr>w_tick := w_tick s + 4, w_sent := w_sent s @ [(ws, a1)]\<rparr>)"
    by (rule auth_challenge_sent [OF ok]) (rule that)
  let ?s1 = "s\<lparr>w_tick := w_tick s + 4, w_sent := w_sent s @ [(ws, a1)]\<rparr>"
  have "\<exists>a2. response_frame E a2 kp en m \<and>
        (\<forall>b2. response_frame E b2 kp' en' ?n \<longrightarrow>
          auth_exchange (deliver2 E (w_tick s) b1 b2) ws i kp en x s =
            (Inr \<lparr>ar_node_id = hex (sk_public kp'), ar_signing_pubkey = sk_public kp',
                  ar_enc_pubkey = PBytes (ek_public en')\<rparr>,
             s\<lparr>w_tick := w_tick s + 9, w_sent := w_sent s @ [(ws, a1), (ws, a2)]\<rparr>))"
    if fr: "challenge_frame E b1 j m" "wire_str j" "length m = 32" for b1 j m
  proof -
    obtain a2 where a2: "response_frame E a2 kp en m"
      and ans: "\<And>r. r (w_tick ?s1) ws = Inr b1 \<Longrightarrow> auth_answer (E\<lparr>e_recv := r\<rparr>) ws i kp en ?s1 =
        (Inr (), ?s1\<lparr>w_tick := w_tick ?s1 + 4, w_sent := w_sent ?s1 @ [(ws, a2)]\<rparr>)"
      by (rule auth_answer_ok [OF ok(1-3) fr]) (rule that)
    show ?thesis
    proof (intro exI conjI allI impI)
      show "response_frame E a2 kp en m" by (rule a2)
      fix b2 assume b2: "response_frame E b2 kp' en' ?n"
      let ?r = "\<lambda>k w. if k = w_tick s + 4 then Inr b1 else Inr b2"
      have "auth_conclude (E\<lparr>e_recv := ?r\<rparr>) ws ?n x (?s1\<lparr>w_tick := w_tick s + 8, w_sent := w_sent ?s1 @ [(ws, a2)]\<rparr>)
        = (Inr \<lparr>ar_node_id = hex (sk_public kp'), ar_signing_pubkey = sk_public kp',
                ar_enc_pubkey = PBytes (ek_public en')\<rparr>,
           ?s1\<lparr>w_tick := Suc (w_tick s + 8), w_sent := w_sent ?s1 @ [(ws, a2)]\<rparr>)"
        using auth_conclude_ok [OF peer(1,2) b2 peer(3), of ?r
            "?s1\<lparr>w_tick := w_tick s + 8, w_sent := w_sent ?s1 @ [(ws, a2)]\<rparr>" ws] by simp
      then show "auth_exchange (deliver2 E (w_tick s) b1 b2) ws i kp en x s =
            (Inr \<lparr>ar_node_id = hex (sk_public kp'), ar_signing_pubkey = sk_public kp',
                  ar_enc_pubkey = PBytes (ek_public en')\<rparr>,
             s\<lparr>w_tick := w_tick s + 9, w_sent := w_sent s @ [(ws, a1), (ws, a2)]\<rparr>)"
        unfolding deliver2_def run using ans [of ?r] by (simp add: io_simps numeral_eq_Suc)
    qed
  qed
  with a1 show ?thesis by (rule that)
qed

lemma hex_wire_str: "length b < 2 ^ 31 \<Longrightarrow> wire_str (hex b)"
  by simp

lemma party_id_wire: "party_ok E kp en ws \<Longrightarrow> wire_str (hex (sk_public kp))"
  using length_public [of E kp] by (auto simp: party_ok_def intro!: hex_wire_str)

lemma same_packages_short: "same_packages E F \<Longrightarrow> short_payloads E = short_payloads F"
  by (simp add: same_packages_def short_payloads_def)

lemma same_packages_ed: "same_packages E F \<Longrightarrow> ed25519_ok E = ed25519_ok F"
  by (simp add: same_packages_def ed25519_ok_def)

lemma party_nonce: "party_ok E kp en ws \<Longrightarrow> length (e_urandom E t 32) = 32"
  by (simp add: party_ok_def urandom_ok_def)

lemma mutual_auth_run:
  assumes okA: "party_ok EA kpA enA wsA" and okB: "party_ok EB kpB enB wsB"
    and sh: "short_payloads EA" and same: "same_packages EA EB"
    and xA: "xA = None \<or> xA = Some (hex (sk_public kpB))"
    and xB: "xB = None \<or> xB = Some (hex (sk_public kpA))"
  shows "\<exists>a1 a2 b1 b2 sA' sB'.
    auth_exchange (deliver2 EA (w_tick sA) b1 b2) wsA (hex (sk_public kpA)) kpA enA xA sA =
      (Inr \<lparr>ar_node_id = hex (sk_public kpB), ar_signing_pubkey = sk_public kpB,
            ar_enc_pubkey = PBytes (ek_public enB)\<rparr>, sA') \<and>
    w_sent sA' = w_sent sA @ [(wsA, a1), (wsA, a2)] \<and>
    auth_exchange (deliver2 EB (w_tick sB) a1 a2) wsB (hex (sk_public kpB)) kpB enB xB sB =
      (Inr \<lparr>ar_node_id = hex (sk_public kpA), ar_signing_pubkey = sk_public kpA,
            ar_enc_pubkey = PBytes (ek_public enA)\<rparr>, sB') \<and>
    w_sent sB' = w_sent sB @ [(wsB, b1), (wsB, b2)]"
proof -
  let ?idA = "hex (sk_public kpA)" and ?idB = "hex (sk_public kpB)"
  let ?nA = "e_urandom EA (w_tick sA) 32" and ?nB = "e_urandom EB (w_tick sB) 32"
  note fr = same_packages_frames [OF same]
  have wA: "wire_str ?idA" and wB: "wire_str ?idB"
    using party_id_wire okA okB by blast+
  have xwA: "wire_str (case xA of None \<Rightarrow> [] | Some e \<Rightarrow> e)"
    and xwB: "wire_str (case xB of None \<Rightarrow> [] | Some e \<Rightarrow> e)"
    using xA xB wA wB by auto
  have edA: "ed25519_ok EA" "signing_valid EA kpB" and edB: "ed25519_ok EB" "signing_valid EB kpA"
    using okA okB fr by (auto simp: party_ok_def)
  have shB: "short_payloads EB"
    using sh same_packages_short [OF same] by simp
  obtain a1 where a1: "challenge_frame EA a1 ?idA ?nA"
    and runA: "\<And>b1 j m. challenge_frame EA b1 j m \<Longrightarrow> wire_str j \<Longrightarrow> length m = 32 \<Longrightarrow>
      (\<exists>a2. response_frame EA a2 kpA enA m \<and>
        (\<forall>b2. response_frame EA b2 kpB enB ?nA \<longrightarrow>
          auth_exchange (deliver2 EA (w_tick sA) b1 b2) wsA ?idA kpA enA xA sA =
            (Inr \<lparr>ar_node_id = ?idB, ar_signing_pubkey = sk_public kpB,
                  ar_enc_pubkey = PBytes (ek_public enB)\<rparr>,
             sA\<lparr>w_tick := w_tick sA + 9, w_sent := w_sent sA @ [(wsA, a1), (wsA, a2)]\<rparr>)))"
    by (rule auth_exchange_frames [OF okA sh wA xwA edA xA]) (rule that)
  obtain b1 where b1: "challenge_frame EB b1 ?idB ?nB"
    and runB: "\<And>a1 j m. challenge_frame EB a1 j m \<Longrightarrow> wire_str j \<Longrightarrow> length m = 32 \<Longrightarrow>
      (\<exists>b2. response_frame EB b2 kpB enB m \<and>
        (\<forall>a2. response_frame EB a2 kpA enA ?nB \<longrightarrow>
          auth_exchange (deliver2 EB (w_tick sB) a1 a2) wsB ?idB kpB enB xB sB =
            (Inr \<lparr>ar_node_id = ?idA, ar_signing_pubkey = sk_public kpA,
                  ar_enc_pubkey = PBytes (ek_public enA)\<rparr>,
             sB\<lparr>w_tick := w_tick sB + 9, w_sent := w_sent sB @ [(wsB, b1), (wsB, b2)]\<rparr>)))"
    by (rule auth_exchange_frames [OF okB shB wB xwB edB xB]) (rule that)
  have "challenge_frame EA b1 ?idB ?nB" "challenge_frame EB a1 ?idA ?nA"
    using a1 b1 fr(1) by simp_all
  from runA [OF this(1) wB party_nonce [OF okB]] runB [OF this(2) wA party_nonce [OF okA]]
  obtain a2 b2 where "response_frame EA a2 kpA enA ?nB" "response_frame EB b2 kpB enB ?nA"
    and A: "\<And>b2. response_frame EA b2 kpB enB ?nA \<Longrightarrow>
          auth_exchange (deliver2 EA (w_tick sA) b1 b2) wsA ?idA kpA enA xA sA =
            (Inr \<lparr>ar_node_id = ?idB, ar_signing_pubkey = sk_public kpB,
                  ar_enc_pubkey = PBytes (ek_public enB)\<rparr>,
             sA\<lparr>w_tick := w_tick sA + 9, w_sent := w_sent sA @ [(wsA, a1), (wsA, a2)]\<rparr>)"
    and B: "\<And>a2. response_frame EB a2 kpA enA ?nB \<Longrightarrow>
          auth_exchange (deliver2 EB (w_tick sB) a1 a2) wsB ?idB kpB enB xB sB =
            (Inr \<lparr>ar_node_id = ?idA, ar_signing_pubkey = sk_public kpA,
                  ar_enc_pubkey = PBytes (ek_public enA)\<rparr>,
             sB\<lparr>w_tick := w_tick sB + 9, w_sent := w_sent sB @ [(wsB, b1), (wsB, b2)]\<rparr>)"
    by blast
  then have "response_frame EA b2 kpB enB ?nA" "response_frame EB a2 kpA enA ?nB"
    using fr(2) by simp_all
  from A [OF this(1)] B [OF this(2)] show ?thesis
    by (intro exI conjI) (assumption | simp)+
qed

text \<open>
  C2: mutual authentication.  Let two parties with matching keypairs run the exchange over
  working sockets, each receiving exactly the two frames the other one sends, in that order
  and unchanged.  Then both runs succeed, and each side obtains the other side's id (the
  hexadecimal form of its signing key), its signing key and its encryption key; each may or
  may not have prescribed the other's id beforehand.
\<close>
theorem mutual_authentication:
  assumes okA: "party_ok EA kpA enA wsA" and okB: "party_ok EB kpB enB wsB"
    and sh: "short_payloads EA" and same: "same_packages EA EB"
    and xA: "xA = None \<or> xA = Some (hex (sk_public kpB))"
    and xB: "xB = None \<or> xB = Some (hex (sk_public kpA))"
  shows "\<exists>a1 a2 b1 b2 sA' sB'.
    auth_exchange (deliver2 EA (w_tick sA) b1 b2) wsA (hex (sk_public kpA)) kpA enA xA sA =
      (Inr \<lparr>ar_node_id = hex (sk_public kpB), ar_signing_pubkey = sk_public kpB,
            ar_enc_pubkey = PBytes (ek_public enB)\<rparr>, sA') \<and>
    w_sent sA' = w_sent sA @ [(wsA, a1), (wsA, a2)] \<and>
    auth_exchange (deliver2 EB (w_tick sB) a1 a2) wsB (hex (sk_public kpB)) kpB enB xB sB =
      (Inr \<lparr>ar_node_id = hex (sk_public kpA), ar_signing_pubkey = sk_public kpA,
            ar_enc_pubkey = PBytes (ek_public enA)\<rparr>, sB') \<and>
    w_sent sB' = w_sent sB @ [(wsB, b1), (wsB, b2)]"
  using assms by (rule mutual_auth_run)

text \<open>
  C32: the exchange accepts its own reflection.  A node that prescribes no peer id accepts a
  peer which holds no key at all and merely sends every frame back: the exchange ends
  successfully and reports the node's own id and keys as those of the peer.
\<close>
theorem reflection_accepted:
  assumes ok: "party_ok E kp en ws" and sh: "short_payloads E"
  shows "\<exists>a1 a2 s'. auth_exchange (deliver2 E (w_tick s) a1 a2) ws (hex (sk_public kp)) kp en None s =
      (Inr \<lparr>ar_node_id = hex (sk_public kp), ar_signing_pubkey = sk_public kp,
            ar_enc_pubkey = PBytes (ek_public en)\<rparr>, s') \<and>
    w_sent s' = w_sent s @ [(ws, a1), (ws, a2)]"
proof -
  have ed: "ed25519_ok E" "signing_valid E kp" and id: "wire_str (hex (sk_public kp))"
    using ok party_id_wire [OF ok] by (auto simp: party_ok_def)
  have none: "wire_str (case None of None \<Rightarrow> [] | Some e \<Rightarrow> e)" by simp
  obtain a1 where a1: "challenge_frame E a1 (hex (sk_public kp)) (e_urandom E (w_tick s) 32)"
    and run: "\<And>b1 j m. challenge_frame E b1 j m \<Longrightarrow> wire_str j \<Longrightarrow> length m = 32 \<Longrightarrow>
      (\<exists>a2. response_frame E a2 kp en m \<and>
        (\<forall>b2. response_frame E b2 kp en (e_urandom E (w_tick s) 32) \<longrightarrow>
          auth_exchange (deliver2 E (w_tick s) b1 b2) ws (hex (sk_public kp)) kp en None s =
            (Inr \<lparr>ar_node_id = hex (sk_public kp), ar_signing_pubkey = sk_public kp,
                  ar_enc_pubkey = PBytes (ek_public en)\<rparr>,
             s\<lparr>w_tick := w_tick s + 9, w_sent := w_sent s @ [(ws, a1), (ws, a2)]\<rparr>)))"
    by (rule auth_exchange_frames [OF ok sh id none ed disjI1 [OF refl]]) (rule that)
  from run [OF a1 id party_nonce [OF ok]] show ?thesis by force
qed

definition en0 :: EncryptionKeypair where
  "en0 = \<lparr>ek_private = replicate 32 2, ek_public = replicate 32 2\<rparr>"

definition kp1 :: SigningKeypair where
  "kp1 = \<lparr>sk_private = replicate 32 6, sk_public = replicate 32 6\<rparr>"

lemma kp1_valid [simp]: "signing_valid env0 kp1"
  by (simp add: signing_valid_def kp1_def)

lemma party_ok_env0: "party_ok env0 kp0 en0 ws" "party_ok env0 kp1 en0 ws"
  by (simp_all add: party_ok_def clock_ok_def en0_def Let_def)

lemma short_payloads_env0: "short_payloads env0"
  by (simp add: short_payloads_def auth_response_dict_def ex_nat_def)

theorem mutual_authentication_witness:
  "\<exists>a1 a2 b1 b2 sA' sB'.
    auth_exchange (deliver2 env0 0 b1 b2) 3 (hex (sk_public kp0)) kp0 en0 None world0 =
      (Inr \<lparr>ar_node_id = hex (sk_public kp1), ar_signing_pubkey = sk_public kp1,
            ar_enc_pubkey = PBytes (ek_public en0)\<rparr>, sA') \<and>
    w_sent sA' = [(3, a1), (3, a2)] \<and>
    auth_exchange (deliver2 env0 0 a1 a2) 4 (hex (sk_public kp1)) kp1 en0 (Some (hex (sk_public kp0))) world0 =
      (Inr \<lparr>ar_node_id = hex (sk_public kp0), ar_signing_pubkey = sk_public kp0,
            ar_enc_pubkey = PBytes (ek_public en0)\<rparr>, sB') \<and>
    w_sent sB' = [(4, b1), (4, b2)]"
proof -
  have same: "same_packages env0 env0" by (simp add: same_packages_def)
  show ?thesis
    using mutual_authentication [OF party_ok_env0(1) [of 3] party_ok_env0(2) [of 4]
        short_payloads_env0 same disjI1 [OF refl] disjI2 [OF refl], where sA = world0 and sB = world0]
    by (simp add: world0_def)
qed

theorem reflection_accepted_witness:
  "\<exists>a1 a2 s'. auth_exchange (deliver2 env0 0 a1 a2) 3 (hex (sk_public kp0)) kp0 en0 None world0 =
      (Inr \<lparr>ar_node_id = hex (sk_public kp0), ar_signing_pubkey = sk_public kp0,
            ar_enc_pubkey = PBytes (ek_public en0)\<rparr>, s') \<and>
    w_sent s' = [(3, a1), (3, a2)]"
  using reflection_accepted [OF party_ok_env0(1) [of 3] short_payloads_env0, where s = world0]
  by (simp add: world0_def)

end
