(* ===== verification/Nevod_State.thy ===== *)
theory Nevod_State
  imports Nevod_Storage Nevod_Auth
begin

text \<open>
  The state of a running node, which transport, router, gossip and node share: the world, the
  database and whether it is open, the connection registry, the receive loops that were
  started as tasks, the packets handed to the embedding program's \<^verbatim>\<open>on_message\<close>, the address
  the server socket listens on, and whether the gossip task runs.

  A storage method called on a closed storage raises \<^verbatim>\<open>AttributeError\<close> (\<^verbatim>\<open>None.execute\<close>).
  Values a peer chose reach SQL as parameters of text columns.  In a \<^verbatim>\<open>WHERE\<close> clause
  (\<open>where_text\<close>) text compares as text, integers and booleans by the column's affinity as
  their decimal text, \<^verbatim>\<open>None\<close> and bytes never match, lists and dictionaries are not
  supported.  In an \<^verbatim>\<open>INSERT\<close> (\<open>insert_text\<close>) \<^verbatim>\<open>None\<close> violates \<^verbatim>\<open>NOT NULL\<close>; storing a blob in a
  text column is not modelled and treated as an error of the driver.
\<close>

record PeerConnection =
  pc_ws :: ws
  pc_peer_node_id :: string
  pc_peer_signing_pubkey :: bytes
  pc_peer_enc_pubkey :: pyval
  pc_local_node_id :: string

record node_state = world +
  ns_open :: bool
  ns_db :: db
  ns_conns :: "(string \<times> PeerConnection) list"
  ns_loops :: "PeerConnection list"
  ns_delivered :: "Packet list"
  ns_listening :: "(string \<times> int) option"
  ns_gossip :: bool

type_synonym 'a nodeM = "(node_state, 'a) io"

text \<open>The constant part of a node: its identity and the \<^verbatim>\<open>on_message\<close> callback of the embedding
  program, if there is one, with what the callback raises on a packet.\<close>

record Node =
  nd_identity :: NodeIdentity
  nd_on_message :: "(Packet \<Rightarrow> exn option) option"

abbreviation my_id :: "Node \<Rightarrow> string" where
  "my_id nd \<equiv> node_id (nd_identity nd)"

section \<open>Access to the storage\<close>

definition db_read :: "(db \<Rightarrow> 'a) \<Rightarrow> 'a nodeM" where
  "db_read f = (\<lambda>s. if ns_open s then (Inr (f (ns_db s)), s) else (Inl AttributeError, s))"

definition db_write :: "(db \<Rightarrow> db) \<Rightarrow> unit nodeM" where
  "db_write f =
     (\<lambda>s. if ns_open s then (Inr (), s\<lparr>ns_db := f (ns_db s)\<rparr>) else (Inl AttributeError, s))"

definition db_write_now :: "env \<Rightarrow> (int \<Rightarrow> db \<Rightarrow> db) \<Rightarrow> unit nodeM" where
  "db_write_now E f = bindM (time_now E) (\<lambda>now. db_write (f now))"

definition db_read_now :: "env \<Rightarrow> (int \<Rightarrow> db \<Rightarrow> 'a) \<Rightarrow> 'a nodeM" where
  "db_read_now E f = bindM (time_now E) (\<lambda>now. db_read (f now))"

text \<open>\<^verbatim>\<open>entry.added_at or int(time.time())\<close> asks the clock only for an entry without a date.\<close>

definition upsertM :: "env \<Rightarrow> NodeEntry \<Rightarrow> unit nodeM" where
  "upsertM E entry =
     (if ne_added_at entry \<noteq> 0 then db_write (upsert_node 0 entry)
      else db_write_now E (\<lambda>now. upsert_node now entry))"

definition int64 :: "int \<Rightarrow> bool" where
  "int64 i \<longleftrightarrow> - (2 ^ 63) \<le> i \<and> i < 2 ^ 63"

fun where_text :: "pyval \<Rightarrow> exn + string option" where
  "where_text (PStr s) = Inr (Some s)"
| "where_text (PInt i) = (if int64 i then Inr (Some (str_int i)) else Inl OverflowError)"
| "where_text (PBool b) = Inr (Some (if b then ''1'' else ''0''))"
| "where_text PNone = Inr None"
| "where_text (PBytes b) = Inr None"
| "where_text _ = Inl InterfaceError"

fun insert_text :: "pyval \<Rightarrow> exn + string" where
  "insert_text (PStr s) = Inr s"
| "insert_text (PInt i) = (if int64 i then Inr (str_int i) else Inl OverflowError)"
| "insert_text (PBool b) = Inr (if b then ''1'' else ''0'')"
| "insert_text PNone = Inl IntegrityError"
| "insert_text _ = Inl InterfaceError"

lemma db_read_apply [io_simps]:
  "db_read f s = (if ns_open s then (Inr (f (ns_db s)), s) else (Inl AttributeError, s))"
  by (simp add: db_read_def)

lemma db_write_apply [io_simps]:
  "db_write f s =
     (if ns_open s then (Inr (), s\<lparr>ns_db := f (ns_db s)\<rparr>) else (Inl AttributeError, s))"
  by (simp add: db_write_def)

section \<open>Predicates that look at one part of the state\<close>

text \<open>\<open>on_db P\<close> holds of a state when \<open>P\<close> holds of its database; a computation keeps it when each
  of its writes keeps \<open>P\<close>.  \<open>on_conns P\<close> likewise for the registry and the receive loops.\<close>

definition on_db :: "(db \<Rightarrow> bool) \<Rightarrow> node_state \<Rightarrow> bool" where
  "on_db P s \<longleftrightarrow> P (ns_db s)"

definition on_conns ::
  "((string \<times> PeerConnection) list \<Rightarrow> PeerConnection list \<Rightarrow> bool) \<Rightarrow> node_state \<Rightarrow> bool" where
  "on_conns P s \<longleftrightarrow> P (ns_conns s) (ns_loops s)"

lemma on_db_free [simp, intro]: "world_free (on_db P)"
  by (simp add: world_free_def on_db_def)

lemma on_conns_free [simp, intro]: "world_free (on_conns P)"
  by (simp add: world_free_def on_conns_def)

lemma keeps_db_read [keeps_intros]: "keeps I (db_read f)"
  by (simp add: keeps_def io_simps)

lemma keeps_db_write: "(\<And>d. P d \<Longrightarrow> P (f d)) \<Longrightarrow> keeps (on_db P) (db_write f)"
  by (auto simp: keeps_def io_simps on_db_def)

lemma keeps_db_write_now:
  "(\<And>now d. P d \<Longrightarrow> P (f now d)) \<Longrightarrow> keeps (on_db P) (db_write_now E f)"
  unfolding db_write_now_def by (intro keeps_bind keeps_env_calls keeps_db_write on_db_free)

lemma keeps_db_read_now [keeps_intros]: "world_free I \<Longrightarrow> keeps I (db_read_now E f)"
  unfolding db_read_now_def by (intro keeps_intros)

lemma keeps_conns_db_write [keeps_intros]: "keeps (on_conns P) (db_write f)"
  by (auto simp: keeps_def io_simps on_conns_def)

lemma keeps_conns_db_write_now [keeps_intros]: "keeps (on_conns P) (db_write_now E f)"
  unfolding db_write_now_def by (intro keeps_intros on_conns_free)

lemma keeps_conns_upsertM [keeps_intros]: "keeps (on_conns P) (upsertM E e)"
  unfolding upsertM_def by (intro keeps_intros)

lemma keeps_upsertM:
  "(\<And>now d. P d \<Longrightarrow> P (upsert_node now e d)) \<Longrightarrow> keeps (on_db P) (upsertM E e)"
  unfolding upsertM_def by (intro keeps_if keeps_db_write keeps_db_write_now)

end
