(* ===== verification/Nevod_Transport.thy ===== *)
theory Nevod_Transport
  imports Nevod_State
begin

text \<open>
  The WebSocket transport (\<^verbatim>\<open>node/transport.py\<close>): the connection registry, outgoing
  connections, signing and sending, and the receive loop.  A receive loop is modelled on the
  list of frames its socket delivers before it closes; the handler \<^verbatim>\<open>on_packet\<close> is a parameter.
\<close>

section \<open>ConnectionRegistry\<close>

definition conn_add :: "PeerConnection \<Rightarrow> unit nodeM" where
  "conn_add conn =
     modifyM (\<lambda>s. s\<lparr>ns_conns := dict_set (pc_peer_node_id conn) conn (ns_conns s)\<rparr>)"

definition conn_remove :: "string \<Rightarrow> unit nodeM" where
  "conn_remove nid = modifyM (\<lambda>s. s\<lparr>ns_conns := dict_pop nid (ns_conns s)\<rparr>)"

definition conn_get :: "string \<Rightarrow> PeerConnection option nodeM" where
  "conn_get nid = getM (\<lambda>s. dict_get (ns_conns s) nid)"

definition conn_all :: "PeerConnection list nodeM" where
  "conn_all = getM (\<lambda>s. map snd (ns_conns s))"

section \<open>PeerConnection\<close>

definition conn_send :: "env \<Rightarrow> PeerConnection \<Rightarrow> Packet \<Rightarrow> unit nodeM" where
  "conn_send E conn packet = bindM (liftM (pack E packet)) (ws_send E (pc_ws conn))"

definition conn_recv :: "env \<Rightarrow> PeerConnection \<Rightarrow> Packet nodeM" where
  "conn_recv E conn = bindM (ws_recv E (pc_ws conn)) (\<lambda>data. liftM (unpack E data))"

definition conn_close :: "PeerConnection \<Rightarrow> unit nodeM" where
  "conn_close conn = ws_close (pc_ws conn)"

section \<open>Transport\<close>

text \<open>The server object stays in \<^verbatim>\<open>self._server\<close> after it was closed; what is modelled is the
  address it accepts connections on.\<close>

definition transport_start :: "env \<Rightarrow> string \<Rightarrow> int \<Rightarrow> unit nodeM" where
  "transport_start E host port =
     bindM tickM (\<lambda>t.
     case e_serve E t host port of
       Some e \<Rightarrow> raiseM e
     | None \<Rightarrow> modifyM (\<lambda>s. s\<lparr>ns_listening := Some (host, port)\<rparr>))"

text \<open>\<^verbatim>\<open>server.close()\<close> and \<^verbatim>\<open>wait_closed()\<close>: the server closes the sockets it accepted and waits
  until their handlers have ended, each with the removal of its peer from the registry.\<close>

definition server_close :: "env \<Rightarrow> unit nodeM" where
  "server_close E =
     modifyM (\<lambda>s. if ns_listening s = None then s
       else (let served = filter (\<lambda>c. e_accepted E (pc_ws c)) (ns_loops s) in
         s\<lparr>ns_listening := None,
           w_closed := w_closed s @ map pc_ws served,
           ns_loops := filter (\<lambda>c. \<not> e_accepted E (pc_ws c)) (ns_loops s),
           ns_conns := fold (\<lambda>c. dict_pop (pc_peer_node_id c)) served (ns_conns s)\<rparr>))"

definition transport_stop :: "env \<Rightarrow> unit nodeM" where
  "transport_stop E =
     bindM (server_close E) (\<lambda>_.
     bindM conn_all (\<lambda>conns. forM conns conn_close))"

definition do_auth :: "env \<Rightarrow> Node \<Rightarrow> ws \<Rightarrow> string option \<Rightarrow> PeerConnection nodeM" where
  "do_auth E nd ws expected_node_id =
     bindM (auth_exchange E ws (my_id nd) (ni_signing (nd_identity nd))
              (ni_encryption (nd_identity nd)) expected_node_id) (\<lambda>result.
     returnM \<lparr>pc_ws = ws, pc_peer_node_id = ar_node_id result,
              pc_peer_signing_pubkey = ar_signing_pubkey result,
              pc_peer_enc_pubkey = ar_enc_pubkey result, pc_local_node_id = my_id nd\<rparr>)"

text \<open>\<^verbatim>\<open>asyncio.create_task(self._recv_loop(conn))\<close> only schedules the loop.\<close>

definition spawn_recv_loop :: "PeerConnection \<Rightarrow> unit nodeM" where
  "spawn_recv_loop conn = modifyM (\<lambda>s. s\<lparr>ns_loops := ns_loops s @ [conn]\<rparr>)"

definition open_and_auth :: "env \<Rightarrow> Node \<Rightarrow> string \<Rightarrow> string option \<Rightarrow> PeerConnection nodeM" where
  "open_and_auth E nd address expected_node_id =
     bindM (ws_connect E (''ws://'' @ address)) (\<lambda>ws.
     bindM (do_auth E nd ws expected_node_id) (\<lambda>conn.
     bindM (conn_add conn) (\<lambda>_.
     bindM (spawn_recv_loop conn) (\<lambda>_.
     returnM conn))))"

definition transport_connect :: "env \<Rightarrow> Node \<Rightarrow> string \<Rightarrow> PeerConnection nodeM" where
  "transport_connect E nd address =
     (if CHR '':'' \<notin> set address then raiseM ValueError
      else open_and_auth E nd address None)"

definition connect_to_node :: "env \<Rightarrow> Node \<Rightarrow> string \<Rightarrow> string \<Rightarrow> PeerConnection nodeM" where
  "connect_to_node E nd nid address = open_and_auth E nd address (Some nid)"

text \<open>\<^verbatim>\<open>sign\<close> writes the signature into the packet object it is given, so the packet a caller
  passes to \<^verbatim>\<open>send_via\<close> or \<^verbatim>\<open>send_to\<close> is \<open>signed\<close> afterwards, sent or not.\<close>

definition transport_sign :: "env \<Rightarrow> Node \<Rightarrow> Packet \<Rightarrow> exn + Packet" where
  "transport_sign E nd packet = sign_packet E packet (ni_signing (nd_identity nd))"

definition signed :: "env \<Rightarrow> Node \<Rightarrow> Packet \<Rightarrow> Packet" where
  "signed E nd packet = (case transport_sign E nd packet of Inl e \<Rightarrow> packet | Inr q \<Rightarrow> q)"

definition send_via :: "env \<Rightarrow> Node \<Rightarrow> PeerConnection \<Rightarrow> Packet \<Rightarrow> unit nodeM" where
  "send_via E nd conn packet =
     bindM (liftM (transport_sign E nd packet)) (\<lambda>q. conn_send E conn q)"

definition send_to :: "env \<Rightarrow> Node \<Rightarrow> string \<Rightarrow> Packet \<Rightarrow> (bool \<times> Packet) nodeM" where
  "send_to E nd nid packet =
     bindM (conn_get nid) (\<lambda>c.
     case c of
       None \<Rightarrow> returnM (False, packet)
     | Some conn \<Rightarrow>
         tryM (bindM (send_via E nd conn packet) (\<lambda>_. returnM (True, signed E nd packet)))
           (\<lambda>e. if e = ConnectionClosed
                then bindM (conn_remove nid) (\<lambda>_. returnM (False, signed E nd packet))
                else raiseM e))"

section \<open>Receiving\<close>

type_synonym handler = "Packet \<Rightarrow> PeerConnection \<Rightarrow> unit nodeM"

text \<open>One turn of the receive loop.  Only the call of the handler is guarded by
  \<^verbatim>\<open>except Exception\<close>; what \<^verbatim>\<open>unpack\<close> or \<^verbatim>\<open>verify_packet\<close> raises leaves the loop.\<close>

definition recv_frame :: "env \<Rightarrow> handler \<Rightarrow> PeerConnection \<Rightarrow> bytes \<Rightarrow> unit nodeM" where
  "recv_frame E on_packet conn raw =
     bindM (liftM (unpack E raw)) (\<lambda>pkt.
     bindM (liftM (verify_packet E pkt (pc_peer_signing_pubkey conn))) (\<lambda>ok.
     if \<not> ok then returnM ()
     else tryM (on_packet pkt conn) (\<lambda>e. returnM ())))"

definition recv_loop :: "env \<Rightarrow> handler \<Rightarrow> PeerConnection \<Rightarrow> bytes list \<Rightarrow> unit nodeM" where
  "recv_loop E on_packet conn frames =
     finallyM
       (tryM (forM frames (recv_frame E on_packet conn))
          (\<lambda>e. if e = ConnectionClosed then returnM () else raiseM e))
       (conn_remove (pc_peer_node_id conn))"

definition handle_incoming :: "env \<Rightarrow> Node \<Rightarrow> handler \<Rightarrow> ws \<Rightarrow> bytes list \<Rightarrow> unit nodeM" where
  "handle_incoming E nd on_packet ws frames =
     (\<lambda>s. case do_auth E nd ws None s of
        (Inl e, s') \<Rightarrow> ws_close ws s'
      | (Inr conn, s') \<Rightarrow>
          bindM (conn_add conn) (\<lambda>_.
            finallyM (recv_loop E on_packet conn frames) (conn_remove (pc_peer_node_id conn))) s')"

lemmas registry_defs = conn_add_def conn_remove_def conn_get_def conn_all_def

lemma registry_apply [io_simps]:
  "conn_add c s = (Inr (), s\<lparr>ns_conns := dict_set (pc_peer_node_id c) c (ns_conns s)\<rparr>)"
  "conn_remove k s = (Inr (), s\<lparr>ns_conns := dict_pop k (ns_conns s)\<rparr>)"
  "conn_get k s = (Inr (dict_get (ns_conns s) k), s)"
  "conn_all s = (Inr (map snd (ns_conns s)), s)"
  "spawn_recv_loop c s = (Inr (), s\<lparr>ns_loops := ns_loops s @ [c]\<rparr>)"
  by (simp_all add: registry_defs spawn_recv_loop_def io_simps)

section \<open>What the transport keeps\<close>

lemma keeps_listening [keeps_intros]:
  "keeps (on_db P) (modifyM (ns_listening_update f))" "keeps (on_conns Q) (modifyM (ns_listening_update f))"
  by (auto simp: keeps_def io_simps on_db_def on_conns_def)

lemma keeps_db_server [keeps_intros]:
  "keeps (on_db P) (transport_start E h p)" "keeps (on_db P) (server_close E)"
  by (auto simp: keeps_def transport_start_def server_close_def io_simps on_db_def Let_def split: option.splits)

lemma keeps_db_registry [keeps_intros]:
  "keeps (on_db P) (conn_add c)" "keeps (on_db P) (conn_remove k)" "keeps (on_db P) (conn_get k)"
  "keeps (on_db P) conn_all" "keeps (on_db P) (spawn_recv_loop c)"
  by (simp_all add: keeps_def io_simps on_db_def)

lemma keeps_conn_io [keeps_intros]:
  assumes "world_free I"
  shows "keeps I (conn_send E c p)" "keeps I (conn_recv E c)" "keeps I (conn_close c)"
    "keeps I (do_auth E nd ws x)" "keeps I (send_via E nd c p)"
  unfolding conn_send_def conn_recv_def conn_close_def do_auth_def send_via_def
  by (intro keeps_intros assms)+

lemma keeps_db_transport [keeps_intros]:
  "keeps (on_db P) (open_and_auth E nd a x)" "keeps (on_db P) (transport_connect E nd a)"
  "keeps (on_db P) (connect_to_node E nd i a)" "keeps (on_db P) (send_to E nd i p)"
  "keeps (on_db P) (transport_stop E)"
  unfolding open_and_auth_def transport_connect_def connect_to_node_def send_to_def
    transport_stop_def conn_send_def conn_close_def
  by (intro keeps_intros on_db_free)+

lemma keeps_recv_frame [keeps_intros]:
  "(\<And>p. keeps I (h p c)) \<Longrightarrow> keeps I (recv_frame E h c raw)"
  unfolding recv_frame_def by (intro keeps_intros)

lemma keeps_db_recv [keeps_intros]:
  "(\<And>p c. keeps (on_db P) (h p c)) \<Longrightarrow> keeps (on_db P) (recv_loop E h c frames)"
  "(\<And>p c. keeps (on_db P) (h p c)) \<Longrightarrow> keeps (on_db P) (handle_incoming E nd h ws frames)"
proof -
  assume h: "\<And>p c. keeps (on_db P) (h p c)"
  show loop: "keeps (on_db P) (recv_loop E h c frames)" for c
    unfolding recv_loop_def by (intro keeps_intros h)
  have "keeps (on_db P) (bindM (conn_add c) (\<lambda>_.
      finallyM (recv_loop E h c frames) (conn_remove (pc_peer_node_id c))))" for c
    by (intro keeps_intros loop)
  moreover have "keeps (on_db P) (do_auth E nd ws None)" "keeps (on_db P) (ws_close ws)"
    by (intro keeps_intros on_db_free)+
  ultimately show "keeps (on_db P) (handle_incoming E nd h ws frames)"
    unfolding handle_incoming_def keeps_def by (fastforce split: prod.splits sum.splits)
qed

section \<open>The registry holds authenticated peers under their own ids\<close>

definition conn_ok :: "PeerConnection \<Rightarrow> bool" where
  "conn_ok c \<longleftrightarrow> pc_peer_node_id c = hex (pc_peer_signing_pubkey c) \<and>
     length (pc_peer_signing_pubkey c) = 32"

definition conns_ok :: "(string \<times> PeerConnection) list \<Rightarrow> bool" where
  "conns_ok cs \<longleftrightarrow> distinct (map fst cs) \<and> (\<forall>(k, c) \<in> set cs. k = pc_peer_node_id c \<and> conn_ok c)"

definition net_ok :: "(string \<times> PeerConnection) list \<Rightarrow> PeerConnection list \<Rightarrow> bool" where
  "net_ok cs loops \<longleftrightarrow> conns_ok cs \<and> (\<forall>c \<in> set loops. conn_ok c)"

lemma set_dict_set: "set (dict_set k v d) \<subseteq> insert (k, v) (set d)"
  unfolding dict_set_def by (induction d) auto

lemma set_dict_pop: "set (dict_pop k d) \<subseteq> set d"
  unfolding dict_pop_def by (induction d) auto

lemma conns_ok_set: "conns_ok cs \<Longrightarrow> conn_ok c \<Longrightarrow> conns_ok (dict_set (pc_peer_node_id c) c cs)"
  using set_dict_set [of "pc_peer_node_id c" c cs] pydict.wf_set
  unfolding conns_ok_def by fast

lemma conns_ok_pop: "conns_ok cs \<Longrightarrow> conns_ok (dict_pop k cs)"
  using set_dict_pop [of k cs] pydict.wf_pop unfolding conns_ok_def by fast

lemma conns_ok_get: "conns_ok cs \<Longrightarrow> dict_get cs k = Some c \<Longrightarrow> pc_peer_node_id c = k \<and> conn_ok c"
  by (auto simp: conns_ok_def dict_get_def dest!: map_of_SomeD)

text \<open>The bytes of a challenge with a given nonce.\<close>

definition challenge_of :: "env \<Rightarrow> string \<Rightarrow> string \<Rightarrow> bytes \<Rightarrow> bytes \<Rightarrow> bool" where
  "challenge_of E i a n b \<longleftrightarrow> (\<exists>pl u t. e_packb E (PDict [(PStr ''nonce'', PBytes n)]) = Inr pl \<and>
     pack E (typed_packet u T_AUTH_CHALLENGE i a pl [] t PROTO_VERSION) = Inr b)"

lemma make_challenge_apply:
  "make_challenge E f a s = (case e_packb E (PDict [(PStr ''nonce'', PBytes (e_urandom E (w_tick s) NONCE_SIZE))]) of
     Inl e \<Rightarrow> (Inl e, s\<lparr>w_tick := Suc (w_tick s)\<rparr>)
   | Inr b \<Rightarrow> (Inr (typed_packet (e_uuid E (Suc (w_tick s))) T_AUTH_CHALLENGE f a b [] (e_time E (Suc (Suc (w_tick s)))) PROTO_VERSION,
         e_urandom E (w_tick s) NONCE_SIZE), s\<lparr>w_tick := w_tick s + 3\<rparr>))"
  by (simp add: make_challenge_def make_auth_challenge_def payload_packet_def encode_payload_def new_packet_apply
      typed_packet_def io_simps eval_nat_numeral split: sum.splits)

text \<open>A successful exchange: the challenge carries the random bytes drawn at its start, and the last
  frame received on the socket is a response that verifies against them.\<close>

lemma auth_exchange_verified:
  assumes "auth_exchange E ws i kp en x s = (Inr r, s')"
  obtains b b2 t raw resp where
    "challenge_of E i (case x of None \<Rightarrow> [] | Some e \<Rightarrow> e) (e_urandom E (w_tick s) NONCE_SIZE) b"
    "w_sent s' = w_sent s @ [(ws, b), (ws, b2)]" "w_tick s + 3 < t"
    "e_recv E t ws = Inr raw" "unpack E raw = Inr resp"
    "verify_response E resp (e_urandom E (w_tick s) NONCE_SIZE) x = Inr (Some r)"
proof -
  let ?n = "e_urandom E (w_tick s) NONCE_SIZE"
  let ?a = "case x of None \<Rightarrow> [] | Some e \<Rightarrow> e"
  obtain b s1 s2 where c: "challenge_of E i ?a ?n b"
    "s1 = s\<lparr>w_tick := w_tick s + 4, w_sent := w_sent s @ [(ws, b)]\<rparr>"
    "auth_answer E ws i kp en s1 = (Inr (), s2)" "auth_conclude E ws ?n x s2 = (Inr r, s')"
  proof (cases "e_packb E (PDict [(PStr ''nonce'', PBytes ?n)])")
    case (Inr pl)
    let ?c = "typed_packet (e_uuid E (Suc (w_tick s))) T_AUTH_CHALLENGE i ?a pl [] (e_time E (Suc (Suc (w_tick s)))) PROTO_VERSION"
    from assms Inr obtain b where b: "pack E ?c = Inr b"
      by (cases "pack E ?c") (simp_all add: auth_exchange_def make_challenge_apply bindM_apply liftM_apply)
    let ?s1 = "s\<lparr>w_tick := w_tick s + 4, w_sent := w_sent s @ [(ws, b)]\<rparr>"
    from assms Inr b have "bindM (auth_answer E ws i kp en) (\<lambda>_. auth_conclude E ws ?n x) ?s1 = (Inr r, s')"
      by (cases "e_send E (w_tick s + 3) ws b")
        (simp_all add: auth_exchange_def make_challenge_apply bindM_apply liftM_apply ws_send_apply eval_nat_numeral)
    then obtain s2 where "auth_answer E ws i kp en ?s1 = (Inr (), s2)" "auth_conclude E ws ?n x s2 = (Inr r, s')"
      by (auto simp: bindM_apply split: sum.splits prod.splits)
    moreover have "challenge_of E i ?a ?n b" using Inr b unfolding challenge_of_def by blast
    ultimately show thesis by (intro that [of b ?s1 s2]) simp_all
  qed (use assms in \<open>simp add: auth_exchange_def make_challenge_apply bindM_apply\<close>)
  have "\<exists>b2. w_sent s2 = w_sent s1 @ [(ws, b2)] \<and> w_tick s1 \<le> w_tick s2"
    using c(3)
    by (auto simp: auth_answer_def make_response_def make_auth_response_def payload_packet_def encode_payload_def
        new_packet_apply bindM_apply liftM_apply ws_send_apply ws_recv_apply raiseM_apply
        split: sum.splits prod.splits option.splits if_splits pyval.splits)
  then obtain b2 where b2: "w_sent s2 = w_sent s1 @ [(ws, b2)]" "w_tick s1 \<le> w_tick s2" by blast
  obtain raw resp where "e_recv E (w_tick s2) ws = Inr raw" "unpack E raw = Inr resp" "w_sent s' = w_sent s2"
      "verify_response E resp ?n x = Inr (Some r)"
    using c(4) by (auto simp: auth_conclude_def io_simps split: sum.splits if_splits option.splits)
  then show thesis using c(2) b2 by (intro that [OF c(1), of b2 "w_tick s2" raw resp]) simp_all
qed

text \<open>What an accepted peer proved: a frame that came after the challenge was sent carries the nonce
  of the challenge and a signature on it under the peer's key.\<close>

definition proved_key :: "env \<Rightarrow> string \<Rightarrow> string \<Rightarrow> bytes \<Rightarrow> ws \<Rightarrow> bytes \<Rightarrow> 'v world_scheme \<Rightarrow> 'w world_scheme \<Rightarrow> bool" where
  "proved_key E i a n ws pk s s' \<longleftrightarrow> (\<exists>b b2 t raw resp d sg.
     challenge_of E i a n b \<and> w_sent s' = w_sent s @ [(ws, b), (ws, b2)] \<and>
     w_tick s < t \<and> e_recv E t ws = Inr raw \<and> unpack E raw = Inr resp \<and>
     decode_payload E (p_payload resp) = Inr d \<and> py_index d ''nonce'' = Inr (PBytes n) \<and>
     py_index d ''signing_pubkey'' = Inr (PBytes pk) \<and> py_index d ''sig'' = Inr (PBytes sg) \<and>
     ed_verify E pk sg n)"

lemma do_auth_sound:
  assumes "do_auth E nd ws x s = (Inr c, s')"
  shows "conn_ok c \<and> pc_ws c = ws \<and> (\<forall>e. x = Some e \<and> e \<noteq> [] \<longrightarrow> pc_peer_node_id c = e) \<and>
    proved_key E (my_id nd) (case x of None \<Rightarrow> [] | Some e \<Rightarrow> e) (e_urandom E (w_tick s) NONCE_SIZE) ws
      (pc_peer_signing_pubkey c) s s'"
proof -
  let ?n = "e_urandom E (w_tick s) NONCE_SIZE"
  from assms obtain r where run: "auth_exchange E ws (my_id nd) (ni_signing (nd_identity nd))
      (ni_encryption (nd_identity nd)) x s = (Inr r, s')"
    and c: "c = \<lparr>pc_ws = ws, pc_peer_node_id = ar_node_id r, pc_peer_signing_pubkey = ar_signing_pubkey r,
              pc_peer_enc_pubkey = ar_enc_pubkey r, pc_local_node_id = my_id nd\<rparr>"
    by (auto simp: do_auth_def io_simps split: prod.splits sum.splits)
  obtain b b2 t raw resp where e:
    "challenge_of E (my_id nd) (case x of None \<Rightarrow> [] | Some e \<Rightarrow> e) ?n b"
    "w_sent s' = w_sent s @ [(ws, b), (ws, b2)]" "w_tick s + 3 < t"
    "e_recv E t ws = Inr raw" "unpack E raw = Inr resp" "verify_response E resp ?n x = Inr (Some r)"
    by (rule auth_exchange_verified [OF run])
  obtain d sg pk where v: "decode_payload E (p_payload resp) = Inr d" "py_index d ''nonce'' = Inr (PBytes ?n)"
      "py_index d ''sig'' = Inr (PBytes sg)" "py_index d ''signing_pubkey'' = Inr (PBytes pk)"
      "length pk = 32" "ed_verify E pk sg ?n" "ar_signing_pubkey r = pk"
      "ar_node_id r = hex pk" "\<forall>e. x = Some e \<and> e \<noteq> [] \<longrightarrow> ar_node_id r = e"
    using verify_response_SomeD [OF e(6)] by blast
  have t: "w_tick s < t" using e(3) by simp
  have "proved_key E (my_id nd) (case x of None \<Rightarrow> [] | Some e \<Rightarrow> e) ?n ws pk s s'"
    unfolding proved_key_def by (intro exI conjI) (rule e v t)+
  with v show ?thesis by (auto simp: c conn_ok_def)
qed

lemma keeps_bind_post:
  assumes "keeps I m" "\<And>x s s'. I s \<Longrightarrow> m s = (Inr x, s') \<Longrightarrow> keeps I (f x)"
  shows "keeps I (bindM m f)"
  unfolding keeps_def
proof (intro allI impI)
  fix s assume s: "I s"
  then have "I (snd (m s))" using assms(1) by (simp add: keeps_def)
  moreover obtain r s' where m: "m s = (r, s')" by (cases "m s")
  ultimately show "I (snd (bindM m f s))"
    using assms(2) [OF s] by (cases r) (auto simp: io_simps keeps_def)
qed

lemma keeps_conns_registry [keeps_intros]:
  "keeps (on_conns net_ok) (conn_remove k)" "keeps (on_conns P) (conn_get k)"
  "keeps (on_conns P) conn_all"
  by (auto simp: keeps_def io_simps on_conns_def net_ok_def conns_ok_pop)

lemma keeps_conns_add:
  "conn_ok c \<Longrightarrow> keeps (on_conns net_ok) (conn_add c)"
  "conn_ok c \<Longrightarrow> keeps (on_conns net_ok) (spawn_recv_loop c)"
  by (auto simp: keeps_def io_simps on_conns_def net_ok_def conns_ok_set)

lemma keeps_conns_server [keeps_intros]:
  "keeps (on_conns P) (transport_start E h p)" "keeps (on_conns net_ok) (server_close E)"
proof -
  show "keeps (on_conns P) (transport_start E h p)"
    by (auto simp: keeps_def transport_start_def io_simps on_conns_def split: option.splits)
  have "conns_ok cs \<Longrightarrow> conns_ok (fold (\<lambda>c. dict_pop (pc_peer_node_id c)) xs cs)" for xs cs
    by (induction xs arbitrary: cs) (simp_all add: conns_ok_pop)
  then show "keeps (on_conns net_ok) (server_close E)"
    by (auto simp: keeps_def server_close_def io_simps on_conns_def net_ok_def Let_def)
qed

lemma keeps_conns_transport [keeps_intros]:
  "keeps (on_conns net_ok) (open_and_auth E nd a x)"
  "keeps (on_conns net_ok) (transport_connect E nd a)"
  "keeps (on_conns net_ok) (connect_to_node E nd i a)"
  "keeps (on_conns net_ok) (send_to E nd i p)"
  "keeps (on_conns net_ok) (transport_stop E)"
proof -
  have oa: "keeps (on_conns net_ok) (open_and_auth E nd a x)" for a x
    unfolding open_and_auth_def
    by (intro keeps_bind [OF keeps_env_calls(5)] on_conns_free keeps_bind_post keeps_conn_io)
      (auto dest!: do_auth_sound intro!: keeps_intros keeps_conns_add)
  then show "keeps (on_conns net_ok) (open_and_auth E nd a x)"
    "keeps (on_conns net_ok) (transport_connect E nd a)"
    "keeps (on_conns net_ok) (connect_to_node E nd i a)"
    unfolding transport_connect_def connect_to_node_def by (auto intro!: keeps_intros)
  show "keeps (on_conns net_ok) (send_to E nd i p)"
    unfolding send_to_def by (intro keeps_intros on_conns_free)
  show "keeps (on_conns net_ok) (transport_stop E)"
    unfolding transport_stop_def by (intro keeps_intros on_conns_free)
qed

lemma keeps_conns_recv:
  assumes h: "\<And>p c. keeps (on_conns net_ok) (h p c)"
  shows "keeps (on_conns net_ok) (recv_loop E h c frames)"
    "keeps (on_conns net_ok) (handle_incoming E nd h ws frames)"
proof -
  show loop: "keeps (on_conns net_ok) (recv_loop E h c frames)" for c
    unfolding recv_loop_def by (intro keeps_intros h)
  have go: "keeps (on_conns net_ok) (bindM (conn_add c) (\<lambda>_.
      finallyM (recv_loop E h c frames) (conn_remove (pc_peer_node_id c))))" if "conn_ok c" for c
    using that by (intro keeps_intros keeps_conns_add loop)
  have au: "keeps (on_conns net_ok) (do_auth E nd ws None)" and cl: "keeps (on_conns net_ok) (ws_close ws)"
    by (intro keeps_intros on_conns_free)+
  show "keeps (on_conns net_ok) (handle_incoming E nd h ws frames)"
    unfolding keeps_def
  proof (intro allI impI)
    fix s assume s: "on_conns net_ok s"
    obtain r s1 where r: "do_auth E nd ws None s = (r, s1)" by (cases "do_auth E nd ws None s")
    have s1: "on_conns net_ok s1" using keepsD [OF au s] r by simp
    show "on_conns net_ok (snd (handle_incoming E nd h ws frames s))"
    proof (cases r)
      case (Inl e)
      with r keepsD [OF cl s1] show ?thesis by (simp add: handle_incoming_def)
    next
      case (Inr c)
      with r have "conn_ok c" using do_auth_sound by blast
      from keepsD [OF go [OF this] s1] r Inr show ?thesis by (simp add: handle_incoming_def)
    qed
  qed
qed

section \<open>Properties of the transport\<close>

definition nd0 :: Node where
  "nd0 = \<lparr>nd_identity = \<lparr>ni_signing = kp0, ni_encryption = en0, ni_address = PStr ''h:1'',
     ni_node_type = PStr ''permanent'', ni_access = PStr ''open''\<rparr>, nd_on_message = None\<rparr>"

definition state0 :: node_state where
  "state0 = \<lparr>w_tick = 0, w_sent = [], w_closed = [], ns_open = True, ns_db = empty_db,
     ns_conns = [], ns_loops = [], ns_delivered = [], ns_listening = None, ns_gossip = False\<rparr>"

definition peer1 :: PeerConnection where
  "peer1 = \<lparr>pc_ws = 9, pc_peer_node_id = hex (sk_public kp1), pc_peer_signing_pubkey = sk_public kp1,
     pc_peer_enc_pubkey = PBytes [], pc_local_node_id = hex (sk_public kp0)\<rparr>"

text \<open>
  C11: the packet handler only ever acts on verified packets.  Two handlers that agree on the
  packets whose signature verifies under the connection's authenticated key make the receive
  loop behave the same, result and state, on every sequence of frames.
\<close>
theorem recv_loop_only_verified:
  assumes "\<And>p. verify_packet E p (pc_peer_signing_pubkey conn) = Inr True \<Longrightarrow> h p conn = h' p conn"
  shows "recv_loop E h conn frames s = recv_loop E h' conn frames s"
proof -
  have "recv_frame E h conn raw = recv_frame E h' conn raw" for raw
    using assms by (auto simp: recv_frame_def fun_eq_iff io_simps split: sum.splits)
  then have "recv_frame E h conn = recv_frame E h' conn" by (rule ext)
  then show ?thesis by (simp add: recv_loop_def)
qed

theorem recv_loop_only_verified_witness:
  "\<not> (\<exists>p. p_sig p = PBytes [] \<and> verify_packet env0 p (pc_peer_signing_pubkey peer1) = Inr True) \<and>
   recv_loop env0 (\<lambda>p c. if p_sig p = PBytes [] then conn_remove ''x'' else returnM ()) peer1 [[1]] state0
     = recv_loop env0 (\<lambda>p c. returnM ()) peer1 [[1]] state0"
proof -
  have unsigned: "\<not> (\<exists>p. p_sig p = PBytes [] \<and> verify_packet env0 p (pc_peer_signing_pubkey peer1) = Inr True)"
    by (auto simp: verify_packet_def)
  then show ?thesis
    by (intro conjI recv_loop_only_verified) auto
qed

lemma forM_stop:
  assumes "\<And>t. fst (f bad t) = Inl (e t)"
  shows "forM (xs @ bad # ys) f = forM (xs @ [bad]) f"
proof -
  have "bindM (f bad) (\<lambda>_. forM ys f) = bindM (f bad) (\<lambda>_. returnM ())"
  proof
    fix t show "bindM (f bad) (\<lambda>_. forM ys f) t = bindM (f bad) (\<lambda>_. returnM ()) t"
      using assms [of t] by (cases "f bad t") (auto simp: io_simps)
  qed
  then show ?thesis by (simp add: forM_append)
qed

text \<open>
  one frame that cannot be read ends the connection.  If a frame is not a MessagePack
  dictionary, or its fields make \<^verbatim>\<open>verify_packet\<close> raise, no later frame is processed, the peer
  is no longer registered, and the exception leaves the loop; an exception in the packet
  handler, on the other hand, never ends the loop.
\<close>
theorem malformed_frame_ends_loop:
  assumes "unpack E bad = Inl e \<or>
    (\<exists>p. unpack E bad = Inr p \<and> verify_packet E p (pc_peer_signing_pubkey conn) = Inl e)"
  shows "recv_loop E h conn (xs @ bad # ys) s = recv_loop E h conn (xs @ [bad]) s \<and>
    dict_get (ns_conns (snd (recv_loop E h conn (xs @ bad # ys) s))) (pc_peer_node_id conn) = None \<and>
    (e \<noteq> ConnectionClosed \<longrightarrow> fst (recv_loop E h conn (bad # ys) s) = Inl e) \<and>
    (\<forall>raw p b t. unpack E raw = Inr p \<and> verify_packet E p (pc_peer_signing_pubkey conn) = Inr b
       \<longrightarrow> fst (recv_frame E h conn raw t) = Inr ())"
proof -
  have bad: "recv_frame E h conn bad t = (Inl e, t)" for t
    using assms by (auto simp: recv_frame_def io_simps)
  have stop: "forM (xs @ bad # ys) (recv_frame E h conn) = forM (xs @ [bad]) (recv_frame E h conn)"
    by (rule forM_stop [where e = "\<lambda>_. e"]) (simp add: bad)
  have gone: "dict_get (ns_conns (snd (recv_loop E h conn fs s))) (pc_peer_node_id conn) = None" for fs
    by (auto simp: recv_loop_def finallyM_def io_simps dict_get_pop split: prod.splits)
  have handled: "fst (recv_frame E h conn raw t) = Inr ()"
    if "unpack E raw = Inr p" "verify_packet E p (pc_peer_signing_pubkey conn) = Inr b" for raw p b t
    using that by (auto simp: recv_frame_def io_simps split: prod.splits sum.splits)
  have "e \<noteq> ConnectionClosed \<longrightarrow> fst (recv_loop E h conn (bad # ys) s) = Inl e"
    by (simp add: recv_loop_def finallyM_def io_simps bad)
  moreover have "recv_loop E h conn (xs @ bad # ys) s = recv_loop E h conn (xs @ [bad]) s"
    unfolding recv_loop_def stop ..
  ultimately show ?thesis using gone handled by blast
qed

theorem malformed_frame_ends_loop_witness:
  "unpack env0 [99] = Inl UnpackError \<and>
   recv_loop env0 (\<lambda>p c. returnM ()) peer1 ([] @ [99] # [[1], [2]]) state0
     = recv_loop env0 (\<lambda>p c. returnM ()) peer1 ([] @ [[99]]) state0"
proof -
  have bad: "unpack env0 [99] = Inl UnpackError"
    by (simp add: unpack_def ex_unpack_def)
  show ?thesis
    using bad malformed_frame_ends_loop [OF disjI1 [OF bad], where h = "\<lambda>p c. returnM ()" and conn = peer1
        and xs = "[]" and ys = "[[1], [2]]" and s = state0]
    by blast
qed

text \<open>
  the end of an old connection unregisters the new one.  After a peer has connected again,
  the registry holds the new connection; when the receive loop of the old connection ends,
  the entry is removed by peer id, and \<^verbatim>\<open>send_to\<close> reports the peer as not connected although
  the new connection is open.
\<close>
theorem stale_loop_unregisters_new_connection:
  assumes "pc_peer_node_id old = pc_peer_node_id new"
  shows "let s1 = snd (conn_add new s); s2 = snd (recv_loop E h old [] s1) in
    dict_get (ns_conns s1) (pc_peer_node_id new) = Some new \<and>
    dict_get (ns_conns s2) (pc_peer_node_id new) = None \<and> pc_ws new \<notin> set (w_closed s2) - set (w_closed s) \<and>
    send_to E nd (pc_peer_node_id new) p s2 = (Inr (False, p), s2)"
  using assms by (simp add: recv_loop_def finallyM_def io_simps Let_def send_to_def)

theorem stale_loop_unregisters_new_connection_witness:
  "pc_peer_node_id peer1 = pc_peer_node_id (peer1\<lparr>pc_ws := 10\<rparr>) \<and>
   dict_get (ns_conns (snd (recv_loop env0 (\<lambda>p c. returnM ()) peer1 []
     (snd (conn_add (peer1\<lparr>pc_ws := 10\<rparr>) state0))))) (pc_peer_node_id (peer1\<lparr>pc_ws := 10\<rparr>)) = None"
proof -
  have e: "pc_peer_node_id peer1 = pc_peer_node_id (peer1\<lparr>pc_ws := 10\<rparr>)" by simp
  show ?thesis
    using e stale_loop_unregisters_new_connection [OF e, of state0 env0 "\<lambda>p c. returnM ()"]
    by (simp add: Let_def)
qed

text \<open>
  C27: an outgoing connection reaches the node it was meant for, and the peer proves it now.  If
  \<^verbatim>\<open>connect_to_node\<close> for a non-empty id returns, then on the socket that was dialled: a challenge
  with 32 random bytes drawn in this call went out; a frame that arrived after them carries
  exactly these bytes, the key whose hexadecimal form is the id, and a signature on these bytes
  that Ed25519 accepts under that key; the connection is registered under the id, its receive
  loop is scheduled, and the database and the deliveries are untouched.
\<close>
theorem connect_to_node_authenticated:
  assumes "connect_to_node E nd nid address s = (Inr c, s')" and "nid \<noteq> []"
  shows "e_dial E (w_tick s) (''ws://'' @ address) = Inr (pc_ws c) \<and>
    pc_peer_node_id c = nid \<and> hex (pc_peer_signing_pubkey c) = nid \<and> length (pc_peer_signing_pubkey c) = 32 \<and>
    (\<exists>b b2 t raw resp d sg. let n = e_urandom E (Suc (w_tick s)) 32 in
       challenge_of E (my_id nd) nid n b \<and> w_sent s' = w_sent s @ [(pc_ws c, b), (pc_ws c, b2)] \<and>
       Suc (w_tick s) < t \<and> e_recv E t (pc_ws c) = Inr raw \<and> unpack E raw = Inr resp \<and>
       decode_payload E (p_payload resp) = Inr d \<and> py_index d ''nonce'' = Inr (PBytes n) \<and>
       py_index d ''signing_pubkey'' = Inr (PBytes (pc_peer_signing_pubkey c)) \<and> py_index d ''sig'' = Inr (PBytes sg) \<and>
       ed_verify E (pc_peer_signing_pubkey c) sg n) \<and>
    dict_get (ns_conns s') nid = Some c \<and> c \<in> set (ns_loops s') \<and>
    ns_db s' = ns_db s \<and> ns_delivered s' = ns_delivered s"
proof -
  from assms(1) obtain ws s2 where d: "e_dial E (w_tick s) (''ws://'' @ address) = Inr ws"
    and a: "do_auth E nd ws (Some nid) (s\<lparr>w_tick := Suc (w_tick s)\<rparr>) = (Inr c, s2)"
    and s': "s' = s2\<lparr>ns_conns := dict_set (pc_peer_node_id c) c (ns_conns s2), ns_loops := ns_loops s2 @ [c]\<rparr>"
    by (auto simp: connect_to_node_def open_and_auth_def bindM_apply registry_apply returnM_apply ws_connect_apply
        split: prod.splits sum.splits)
  let ?I = "\<lambda>t. ns_db t = ns_db s \<and> ns_delivered t = ns_delivered s"
  have "world_free ?I" by (simp add: world_free_def)
  then have "keeps ?I (do_auth E nd ws (Some nid))" by (rule keeps_conn_io(4))
  from keepsD [OF this, of "s\<lparr>w_tick := Suc (w_tick s)\<rparr>"] a have "?I s2" by simp
  moreover have "conn_ok c" "pc_ws c = ws" "pc_peer_node_id c = nid"
    and k: "proved_key E (my_id nd) nid (e_urandom E (Suc (w_tick s)) 32) ws (pc_peer_signing_pubkey c)
      (s\<lparr>w_tick := Suc (w_tick s)\<rparr>) s2"
    using do_auth_sound [OF a] assms(2) by (simp_all add: NONCE_SIZE_def)
  moreover have "\<exists>b b2 t raw resp d sg. let n = e_urandom E (Suc (w_tick s)) 32 in
       challenge_of E (my_id nd) nid n b \<and> w_sent s' = w_sent s @ [(ws, b), (ws, b2)] \<and>
       Suc (w_tick s) < t \<and> e_recv E t ws = Inr raw \<and> unpack E raw = Inr resp \<and>
       decode_payload E (p_payload resp) = Inr d \<and> py_index d ''nonce'' = Inr (PBytes n) \<and>
       py_index d ''signing_pubkey'' = Inr (PBytes (pc_peer_signing_pubkey c)) \<and> py_index d ''sig'' = Inr (PBytes sg) \<and>
       ed_verify E (pc_peer_signing_pubkey c) sg n"
    using k unfolding Let_def proved_key_def by (simp add: s')
  ultimately show ?thesis using d s' by (simp add: conn_ok_def dict_get_set)
qed

lemma connect_example:
  obtains b1 b2 c s' where "connect_to_node (deliver2 env0 1 b1 b2) nd0 (hex (sk_public kp1)) ''h:2'' state0
    = (Inr c, s')"
proof -
  let ?s = "state0\<lparr>w_tick := 1\<rparr>"
  have same: "same_packages env0 env0" by (simp add: same_packages_def)
  obtain b1 b2 r s1 where "auth_exchange (deliver2 env0 (w_tick ?s) b1 b2) 7 (hex (sk_public kp0)) kp0 en0
      (Some (hex (sk_public kp1))) ?s = (Inr r, s1)"
    using mutual_auth_run [OF party_ok_env0(1) [of 7] party_ok_env0(2) [of 4]
        short_payloads_env0 same disjI2 [OF refl] disjI2 [OF refl], where sA = ?s and sB = world0]
    by blast
  then have run: "auth_exchange (deliver2 env0 1 b1 b2) 7 (hex (sk_public kp0)) kp0 en0
      (Some (hex (sk_public kp1))) ?s = (Inr r, s1)"
    by simp
  have "\<exists>c s'. connect_to_node (deliver2 env0 1 b1 b2) nd0 (hex (sk_public kp1)) ''h:2'' state0 = (Inr c, s')"
    using run by (simp add: connect_to_node_def open_and_auth_def do_auth_def io_simps node_id_def nd0_def
        deliver2_def state0_def)
  with that show ?thesis by blast
qed

theorem connect_to_node_authenticated_witness:
  "\<exists>E c s'. connect_to_node E nd0 (hex (sk_public kp1)) ''h:2'' state0 = (Inr c, s') \<and>
     pc_peer_node_id c = hex (sk_public kp1)"
proof -
  obtain b1 b2 c s' where run: "connect_to_node (deliver2 env0 1 b1 b2) nd0 (hex (sk_public kp1)) ''h:2'' state0
    = (Inr c, s')"
    by (rule connect_example)
  have "length (hex (sk_public kp1)) = 64" by (simp add: kp1_def)
  then have "hex (sk_public kp1) \<noteq> []" by (metis list.size(3) zero_neq_numeral)
  from connect_to_node_authenticated [OF run this] run show ?thesis by blast
qed

section \<open>A connection from beginning to end\<close>

text \<open>What \<^verbatim>\<open>unpack\<close> and \<^verbatim>\<open>verify_packet\<close> make of a frame; the packets of the frames that pass.\<close>

definition inspect :: "env \<Rightarrow> bytes \<Rightarrow> bytes \<Rightarrow> exn + Packet option" where
  "inspect E pk raw = bindR (unpack E raw) (\<lambda>p. bindR (verify_packet E p pk) (\<lambda>ok. Inr (if ok then Some p else None)))"

definition readable :: "env \<Rightarrow> bytes \<Rightarrow> bytes \<Rightarrow> bool" where
  "readable E pk raw \<longleftrightarrow> (case inspect E pk raw of Inl e \<Rightarrow> False | Inr x \<Rightarrow> True)"

fun passing :: "env \<Rightarrow> bytes \<Rightarrow> bytes list \<Rightarrow> Packet list" where
  "passing E pk [] = []"
| "passing E pk (raw # frames) = (case inspect E pk raw of Inr (Some p) \<Rightarrow> p # passing E pk frames | _ \<Rightarrow> passing E pk frames)"

definition loop_result :: "env \<Rightarrow> bytes \<Rightarrow> bytes list \<Rightarrow> exn + unit" where
  "loop_result E pk rest =
     (case rest of [] \<Rightarrow> Inr ()
      | raw # _ \<Rightarrow> (case inspect E pk raw of Inl e \<Rightarrow> if e = ConnectionClosed then Inr () else Inl e | Inr x \<Rightarrow> Inr ()))"

lemma recv_frame_inspect:
  "recv_frame E h c raw s = (case inspect E (pc_peer_signing_pubkey c) raw of
     Inl e \<Rightarrow> (Inl e, s) | Inr None \<Rightarrow> (Inr (), s) | Inr (Some p) \<Rightarrow> (Inr (), snd (h p c s)))"
  by (auto simp: recv_frame_def inspect_def io_simps split: sum.splits prod.splits)

lemma recv_loop_step:
  "recv_loop E h c (raw # frames) s = (case inspect E (pc_peer_signing_pubkey c) raw of
     Inl e \<Rightarrow> (if e = ConnectionClosed then Inr () else Inl e, s\<lparr>ns_conns := dict_pop (pc_peer_node_id c) (ns_conns s)\<rparr>)
   | Inr x \<Rightarrow> recv_loop E h c frames (case x of None \<Rightarrow> s | Some p \<Rightarrow> snd (h p c s)))"
  by (simp add: recv_loop_def finallyM_def bindM_apply tryM_apply recv_frame_inspect registry_apply returnM_apply raiseM_apply
      split: sum.splits option.splits)

lemma recv_loop_spec:
  "recv_loop E h c frames s =
     (let ok = readable E (pc_peer_signing_pubkey c);
          s1 = fold (\<lambda>p s. snd (h p c s)) (passing E (pc_peer_signing_pubkey c) (takeWhile ok frames)) s in
      (loop_result E (pc_peer_signing_pubkey c) (dropWhile ok frames), s1\<lparr>ns_conns := dict_pop (pc_peer_node_id c) (ns_conns s1)\<rparr>))"
proof (induction frames arbitrary: s)
  case Nil
  then show ?case by (simp add: recv_loop_def finallyM_def loop_result_def io_simps)
next
  case (Cons raw frames)
  then show ?case
    by (cases "inspect E (pc_peer_signing_pubkey c) raw")
      (auto simp: recv_loop_step readable_def loop_result_def Let_def split: option.splits)
qed

text \<open>
  C22: an incoming connection from beginning to end.  If the peer does not authenticate, its socket
  is closed and nothing else happens.  If it does, it is registered; of the frames that
  arrive, up to the first that does not decode or whose signature cannot be checked, each one
  whose signature verifies under the peer's key is handed to the handler, once and in order,
  whether or not the handler raises, and the others are skipped; that first unreadable frame
  ends the loop with its exception and the frames after it are not looked at; finally the peer
  is taken off the registry.
\<close>
theorem incoming_connection_exact:
  "handle_incoming E nd h ws frames s = (case do_auth E nd ws None s of
     (Inl e, s1) \<Rightarrow> (Inr (), s1\<lparr>w_closed := w_closed s1 @ [ws]\<rparr>)
   | (Inr c, s1) \<Rightarrow>
       (let pk = pc_peer_signing_pubkey c; k = pc_peer_node_id c;
            heard = takeWhile (readable E pk) frames; rest = dropWhile (readable E pk) frames;
            s2 = fold (\<lambda>p s. snd (h p c s)) (passing E pk heard) (s1\<lparr>ns_conns := dict_set k c (ns_conns s1)\<rparr>) in
        (case rest of [] \<Rightarrow> Inr ()
         | raw # _ \<Rightarrow> (case bindR (unpack E raw) (\<lambda>p. verify_packet E p pk) of
             Inl e \<Rightarrow> if e = ConnectionClosed then Inr () else Inl e | Inr ok \<Rightarrow> Inr ()),
         s2\<lparr>ns_conns := dict_pop k (ns_conns s2)\<rparr>)))"
proof -
  have pop: "dict_pop k (dict_pop k d) = dict_pop k d" for k and d :: "(string \<times> PeerConnection) list"
    by (simp add: dict_pop_def delete_idem)
  have why: "loop_result E pk rest = (case rest of [] \<Rightarrow> Inr ()
      | raw # _ \<Rightarrow> (case bindR (unpack E raw) (\<lambda>p. verify_packet E p pk) of
          Inl e \<Rightarrow> if e = ConnectionClosed then Inr () else Inl e | Inr ok \<Rightarrow> Inr ()))" for pk rest
    by (auto simp: loop_result_def inspect_def split: list.splits sum.splits)
      (auto simp: bindR_def split: sum.splits)
  show ?thesis
    by (auto simp: handle_incoming_def finallyM_def bindM_apply registry_apply recv_loop_spec ws_close_apply Let_def pop why
        split: sum.splits prod.splits)
qed

lemma send_to_cases:
  assumes "transport_sign E nd p = Inr q" "pack E q = Inr b"
  shows "send_to E nd k p s = (case dict_get (ns_conns s) k of
      None \<Rightarrow> (Inr (False, p), s)
    | Some c \<Rightarrow> (case e_send E (w_tick s) (pc_ws c) b of
          None \<Rightarrow> (Inr (True, q), s\<lparr>w_tick := Suc (w_tick s), w_sent := w_sent s @ [(pc_ws c, b)]\<rparr>)
        | Some e \<Rightarrow> if e = ConnectionClosed
            then (Inr (False, q), s\<lparr>w_tick := Suc (w_tick s), ns_conns := dict_pop k (ns_conns s)\<rparr>)
            else (Inl e, s\<lparr>w_tick := Suc (w_tick s)\<rparr>)))"
  using assms by (auto simp: send_to_def send_via_def conn_send_def signed_def io_simps
      split: option.splits)

end
