(* ===== verification/Nevod_Router.thy ===== *)
theory Nevod_Router
  imports Nevod_Transport
begin

text \<open>
  Message routing (\<^verbatim>\<open>node/router.py\<close>): addresses, the routing decision, delivery to a local
  cell, and the store-and-forward buffer.

  \<^verbatim>\<open>transport.send_to\<close> and \<^verbatim>\<open>send_via\<close> sign the packet object in place, so the packet each step
  works on is the one the step before left behind; the functions below return it.
\<close>

section \<open>Addresses\<close>

text \<open>\<^verbatim>\<open>"@" in addr\<close> is a substring test on text, a membership test on lists and dictionaries
  (which have no \<^verbatim>\<open>split\<close>), and a \<^verbatim>\<open>TypeError\<close> on everything else.\<close>

fun parse_addr :: "pyval \<Rightarrow> exn + (string option \<times> pyval)" where
  "parse_addr (PStr addr) =
     (case split1 CHR ''@'' addr of
        Some (cid, nid) \<Rightarrow> Inr (Some cid, PStr nid)
      | None \<Rightarrow> Inr (None, PStr addr))"
| "parse_addr (PList xs) =
     (if PStr ''@'' \<in> set xs then Inl AttributeError else Inr (None, PList xs))"
| "parse_addr (PDict kvs) =
     (if PStr ''@'' \<in> set (map fst kvs) then Inl AttributeError else Inr (None, PDict kvs))"
| "parse_addr _ = Inl TypeError"

section \<open>Buffered packets\<close>

definition serialize_packet :: "env \<Rightarrow> Packet \<Rightarrow> exn + bytes" where
  "serialize_packet E pkt = e_packb E (PDict [
     (PStr ''type'', p_type pkt), (PStr ''id'', p_id pkt),
     (PStr ''from'', p_from pkt), (PStr ''to'', p_to pkt),
     (PStr ''payload'', p_payload pkt), (PStr ''sig'', p_sig pkt), (PStr ''ts'', p_ts pkt)])"

definition deserialize_packet :: "env \<Rightarrow> bytes \<Rightarrow> Packet option" where
  "deserialize_packet E data = (case unpack E data of Inl e \<Rightarrow> None | Inr p \<Rightarrow> Some p)"

section \<open>Router\<close>

text \<open>\<^verbatim>\<open>await self.node.on_message(pkt)\<close>: the callback receives the packet, then returns or raises.\<close>

definition call_on_message :: "(Packet \<Rightarrow> exn option) \<Rightarrow> Packet \<Rightarrow> unit nodeM" where
  "call_on_message cb pkt =
     bindM (modifyM (\<lambda>s. s\<lparr>ns_delivered := ns_delivered s @ [pkt]\<rparr>)) (\<lambda>_.
     case cb pkt of None \<Rightarrow> returnM () | Some e \<Rightarrow> raiseM e)"

definition deliver_local :: "env \<Rightarrow> Node \<Rightarrow> Packet \<Rightarrow> Packet nodeM" where
  "deliver_local E nd pkt =
     bindM (liftM (parse_addr (p_to pkt))) (\<lambda>(cell, _).
     bindM (case cell of
              None \<Rightarrow> returnM (False, pkt)
            | Some c \<Rightarrow> if c = [] then returnM (False, pkt) else send_to E nd c pkt)
       (\<lambda>(sent, pkt).
     if sent then returnM pkt
     else case nd_on_message nd of
            None \<Rightarrow> returnM pkt
          | Some cb \<Rightarrow> bindM (call_on_message cb pkt) (\<lambda>_. returnM pkt)))"

text \<open>The \<^verbatim>\<open>try\<close> block of \<^verbatim>\<open>_send_to_node\<close>: the packet is signed once the connection is there.\<close>

definition connect_and_send ::
  "env \<Rightarrow> Node \<Rightarrow> string \<Rightarrow> string \<Rightarrow> Packet \<Rightarrow> (bool \<times> Packet) nodeM" where
  "connect_and_send E nd nid address pkt =
     tryM (bindM (connect_to_node E nd nid address) (\<lambda>conn.
             tryM (bindM (send_via E nd conn pkt) (\<lambda>_. returnM (True, signed E nd pkt)))
               (\<lambda>e. returnM (False, signed E nd pkt))))
       (\<lambda>e. returnM (False, pkt))"

definition send_to_node :: "env \<Rightarrow> Node \<Rightarrow> string \<Rightarrow> Packet \<Rightarrow> (bool \<times> Packet) nodeM" where
  "send_to_node E nd nid pkt =
     (if nid = my_id nd
      then bindM (deliver_local E nd pkt) (\<lambda>pkt. returnM (True, pkt))
      else
        bindM (send_to E nd nid pkt) (\<lambda>(sent, pkt).
        if sent then returnM (True, pkt)
        else
          bindM (db_read (get_node nid)) (\<lambda>entry.
          case entry of
            None \<Rightarrow> returnM (False, pkt)
          | Some e \<Rightarrow>
              if ne_status e \<noteq> ''online'' then returnM (False, pkt)
              else connect_and_send E nd nid (ne_address e) pkt)))"

text \<open>\<^verbatim>\<open>pkt.id[:8]\<close> is evaluated for the log line before the message is stored.\<close>

fun sliceable :: "pyval \<Rightarrow> bool" where
  "sliceable (PStr s) = True"
| "sliceable (PBytes b) = True"
| "sliceable (PList xs) = True"
| "sliceable _ = False"

definition buffer_packet :: "env \<Rightarrow> string \<Rightarrow> string \<Rightarrow> Packet \<Rightarrow> unit nodeM" where
  "buffer_packet E cid home_node pkt =
     (if \<not> sliceable (p_id pkt) then raiseM TypeError
      else
        bindM (liftM (serialize_packet E pkt)) (\<lambda>payload.
        bindM (time_now E) (\<lambda>now.
        bindM (liftM (insert_text (p_id pkt))) (\<lambda>message_id.
        db_write (buffer_message now message_id cid home_node payload)))))"

text \<open>An address that is a list or a dictionary reaches \<^verbatim>\<open>dict.get\<close> and is unhashable there.\<close>

definition route :: "env \<Rightarrow> Node \<Rightarrow> Packet \<Rightarrow> unit nodeM" where
  "route E nd pkt =
     bindM (liftM (parse_addr (p_to pkt))) (\<lambda>(to_cell, to_node_id).
     case to_cell of
       None \<Rightarrow>
         (case to_node_id of
            PStr n \<Rightarrow> bindM (send_to_node E nd n pkt) (\<lambda>_. returnM ())
          | _ \<Rightarrow> raiseM TypeError)
     | Some cid \<Rightarrow>
         bindM (db_read (get_presence cid)) (\<lambda>presence.
         case presence of
           None \<Rightarrow>
             bindM (db_read (get_cell cid)) (\<lambda>cell.
             case cell of
               Some _ \<Rightarrow> bindM (deliver_local E nd pkt) (\<lambda>_. returnM ())
             | None \<Rightarrow> returnM ())
         | Some pr \<Rightarrow>
             bindM (case pe_visiting_node_id pr of
                      None \<Rightarrow> returnM (False, pkt)
                    | Some v \<Rightarrow> if v = [] then returnM (False, pkt) else send_to_node E nd v pkt)
               (\<lambda>(sent, pkt).
             if sent then returnM ()
             else
               bindM (send_to_node E nd (pe_home_node_id pr) pkt) (\<lambda>(sent, pkt).
               if sent then returnM ()
               else buffer_packet E cid (pe_home_node_id pr) pkt))))"

definition flush_message :: "env \<Rightarrow> Node \<Rightarrow> BufferedMessage \<Rightarrow> unit nodeM" where
  "flush_message E nd msg =
     (case deserialize_packet E (bm_payload msg) of
        None \<Rightarrow> returnM ()
      | Some pkt \<Rightarrow>
          bindM (route E nd pkt) (\<lambda>_. db_write (delete_buffered (bm_message_id msg))))"

definition flush_buffer :: "env \<Rightarrow> Node \<Rightarrow> string \<Rightarrow> unit nodeM" where
  "flush_buffer E nd cid =
     bindM (db_read_now E (\<lambda>now. get_buffered now cid)) (\<lambda>messages.
     forM messages (flush_message E nd))"

section \<open>What routing keeps\<close>

lemma keeps_call_on_message [keeps_intros]:
  "keeps (on_db P) (call_on_message cb p)" "keeps (on_conns Q) (call_on_message cb p)"
  by (auto simp: keeps_def call_on_message_def io_simps on_db_def on_conns_def split: option.splits)

lemma keeps_db_deliver [keeps_intros]:
  "keeps (on_db P) (deliver_local E nd p)" "keeps (on_db P) (connect_and_send E nd n a p)"
  "keeps (on_db P) (send_to_node E nd n p)"
proof -
  show d: "keeps (on_db P) (deliver_local E nd p)" for p
    unfolding deliver_local_def by (intro keeps_intros)
  show c: "keeps (on_db P) (connect_and_send E nd n a p)" for a p
    unfolding connect_and_send_def by (intro keeps_intros on_db_free)
  show "keeps (on_db P) (send_to_node E nd n p)"
    unfolding send_to_node_def by (intro keeps_intros d c)
qed

lemma keeps_pyval [keeps_intros]:
  "(\<And>a. v = PStr a \<Longrightarrow> keeps I (f a)) \<Longrightarrow> keeps I (case v of PStr a \<Rightarrow> f a | _ \<Rightarrow> raiseM e)"
  by (cases v) (auto intro: keeps_intros)

lemma keeps_db_route:
  assumes "\<And>now m c h b d. P d \<Longrightarrow> P (buffer_message now m c h b d)"
  shows "keeps (on_db P) (route E nd p)"
  unfolding route_def buffer_packet_def
  by (intro keeps_intros keeps_db_write assms on_db_free)

lemma keeps_db_flush:
  assumes "\<And>now m c h b d. P d \<Longrightarrow> P (buffer_message now m c h b d)"
    and "\<And>m d. P d \<Longrightarrow> P (delete_buffered m d)"
  shows "keeps (on_db P) (flush_buffer E nd c)"
  unfolding flush_buffer_def flush_message_def
  by (intro keeps_intros keeps_db_route keeps_db_write assms on_db_free)

lemma keeps_conns_route [keeps_intros]:
  "keeps (on_conns net_ok) (route E nd p)" "keeps (on_conns net_ok) (flush_buffer E nd c)"
proof -
  have d: "keeps (on_conns net_ok) (deliver_local E nd p)" for p
    unfolding deliver_local_def by (intro keeps_intros)
  have c: "keeps (on_conns net_ok) (connect_and_send E nd n a p)" for n a p
    unfolding connect_and_send_def by (intro keeps_intros on_conns_free)
  have s: "keeps (on_conns net_ok) (send_to_node E nd n p)" for n p
    unfolding send_to_node_def by (intro keeps_intros d c)
  have b: "keeps (on_conns net_ok) (buffer_packet E c h p)" for c h p
    unfolding buffer_packet_def by (intro keeps_intros on_conns_free)
  show r: "keeps (on_conns net_ok) (route E nd p)" for p
    unfolding route_def by (intro keeps_intros d s b)
  show "keeps (on_conns net_ok) (flush_buffer E nd c)"
    unfolding flush_buffer_def flush_message_def by (intro keeps_intros r on_conns_free)
qed

section \<open>Addresses and buffered packets\<close>

lemma split1_Some_iff: "(a = c @ sep # n \<and> sep \<notin> set c) = (split1 sep a = Some (c, n))"
  using split1_append split1_SomeD by blast

lemma parse_addr_cell: "CHR ''@'' \<notin> set c \<Longrightarrow> parse_addr (PStr (c @ CHR ''@'' # n)) = Inr (Some c, PStr n)"
  by (simp add: split1_append)

text \<open>
  \<^verbatim>\<open>parse_addr\<close> splits an address at its first at-sign and loses nothing: it answers a cell
  and a node exactly for the text cell + at-sign + node where the cell has no at-sign (the
  node may have one), and no cell exactly for a text without at-sign, which is then the node.
\<close>
theorem parse_addr_split:
  "(parse_addr (PStr a) = Inr (Some c, v) \<longleftrightarrow>
      (\<exists>n. v = PStr n \<and> a = c @ CHR ''@'' # n \<and> CHR ''@'' \<notin> set c)) \<and>
   (parse_addr (PStr a) = Inr (None, v) \<longleftrightarrow> v = PStr a \<and> CHR ''@'' \<notin> set a) \<and>
   (\<exists>r. parse_addr (PStr a) = Inr r)"
proof -
  have none: "split1 CHR ''@'' a = None \<longleftrightarrow> CHR ''@'' \<notin> set a" by (rule split1_None_iff)
  show ?thesis
    unfolding split1_Some_iff none [symmetric]
    by (cases "split1 CHR ''@'' a") auto
qed

lemma deserialize_serialize:
  assumes "msgpack_ok E" "packable (packet_dict p)" "p_payload p = PBytes pl" "p_sig p = PBytes sg"
  obtains b where "serialize_packet E p = Inr b" "deserialize_packet E b = Some (p\<lparr>p_v := PInt 1\<rparr>)"
proof -
  let ?d = "PDict [(PStr ''type'', p_type p), (PStr ''id'', p_id p), (PStr ''from'', p_from p),
    (PStr ''to'', p_to p), (PStr ''payload'', p_payload p), (PStr ''sig'', p_sig p), (PStr ''ts'', p_ts p)]"
  have "packable ?d" using assms(2) by (simp add: packable_def packet_dict_def)
  then obtain b where b: "e_packb E ?d = Inr b" "e_unpackb E b = Inr ?d"
    by (rule msgpack_okD [OF assms(1)])
  have "unpack E b = Inr (p\<lparr>p_v := PInt 1\<rparr>)"
    using b(2) assms(3,4) by (cases p) (simp add: unpack_def py_or_def PROTO_VERSION_def)
  with b(1) that show ?thesis by (simp add: serialize_packet_def deserialize_packet_def)
qed

text \<open>A packet of the declared types is signed, packed and accepted by the next hop.\<close>

lemma signed_frame:
  assumes "msgpack_ok E" "ed25519_ok E" "signing_valid E kp"
    and "packable (packet_dict (typed_packet i t f a pl sg ts v))"
  obtains sg' b where "sign_packet E (typed_packet i t f a pl sg ts v) kp = Inr (typed_packet i t f a pl sg' ts v)"
    "pack E (typed_packet i t f a pl sg' ts v) = Inr b" "unpack E b = Inr (typed_packet i t f a pl sg' ts v)"
    "verify_packet E (typed_packet i t f a pl sg' ts v) (sk_public kp) = Inr True"
    "packable (packet_dict (typed_packet i t f a pl sg' ts v))"
proof -
  define sg' where "sg' = sign E (encode (i @ t @ f @ a) @ pl @ encode (str_int ts)) kp"
  let ?q = "typed_packet i t f a pl sg' ts v"
  have q: "sign_packet E (typed_packet i t f a pl sg ts v) kp = Inr ?q"
    by (simp add: sign_packet_def typed_packet_def sign_data_strs sg'_def)
  have p: "packable (packet_dict ?q)"
    using assms(4) length_sign [OF assms(2,3)] by (simp add: packable_typed sg'_def)
  then obtain b where "pack E ?q = Inr b" "unpack E b = Inr ?q"
    by (rule pack_unpack [OF assms(1)]) (auto simp: typed_packet_def)
  with q p verify_signed [OF assms(2,3) q] that show ?thesis by blast
qed

lemma transport_frame:
  assumes "msgpack_ok E" "ed25519_ok E" "signing_valid E (ni_signing (nd_identity nd))"
    and "packable (packet_dict (typed_packet i t f a pl sg ts v))"
  obtains sg' b where "transport_sign E nd (typed_packet i t f a pl sg ts v) = Inr (typed_packet i t f a pl sg' ts v)"
    "pack E (typed_packet i t f a pl sg' ts v) = Inr b" "unpack E b = Inr (typed_packet i t f a pl sg' ts v)"
    "verify_packet E (typed_packet i t f a pl sg' ts v) (sk_public (ni_signing (nd_identity nd))) = Inr True"
  using signed_frame [OF assms] that unfolding transport_sign_def by blast

lemma typed_packet_sig: "(typed_packet i t f a pl sg ts v)\<lparr>p_sig := PBytes sg'\<rparr> = typed_packet i t f a pl sg' ts v"
  by (simp add: typed_packet_def)

section \<open>The routing decision\<close>

lemma send_to_unconnected:
  "dict_get (ns_conns s) k = None \<Longrightarrow> send_to E nd k p s = (Inr (False, p), s)"
  by (simp add: send_to_def io_simps)

text \<open>A node that cannot be reached now: it is not this node, there is no connection, and the
  node table has no online entry for it, or one whose address refuses connections.\<close>

definition unreachable :: "env \<Rightarrow> Node \<Rightarrow> string \<Rightarrow> node_state \<Rightarrow> bool" where
  "unreachable E nd nid s \<longleftrightarrow> nid \<noteq> my_id nd \<and> dict_get (ns_conns s) nid = None \<and>
     (\<forall>e. get_node nid (ns_db s) = Some e \<and> ne_status e = ''online'' \<longrightarrow>
        (\<forall>t. \<exists>x. e_dial E t (''ws://'' @ ne_address e) = Inl x))"

lemma unreachable_tick [simp]: "unreachable E nd n (s\<lparr>w_tick := k\<rparr>) = unreachable E nd n s"
  by (simp add: unreachable_def)

lemma connect_refused:
  assumes "\<And>t. \<exists>x. e_dial E t (''ws://'' @ a) = Inl x"
  shows "connect_and_send E nd n a p s = (Inr (False, p), s\<lparr>w_tick := Suc (w_tick s)\<rparr>)"
proof -
  from assms obtain x where "e_dial E (w_tick s) (''ws://'' @ a) = Inl x" by blast
  then show ?thesis
    by (simp add: connect_and_send_def connect_to_node_def open_and_auth_def io_simps)
qed

lemma send_to_node_unreachable:
  assumes "unreachable E nd n s" "ns_open s"
  shows "\<exists>k. send_to_node E nd n p s = (Inr (False, p), s\<lparr>w_tick := k\<rparr>)"
proof -
  have off: "\<exists>k. (Inr (False, p) :: exn + bool \<times> Packet, s) = (Inr (False, p), s\<lparr>w_tick := k\<rparr>)"
    by (rule exI [of _ "w_tick s"]) simp
  show ?thesis
  proof (cases "get_node n (ns_db s)")
    case None
    with assms off show ?thesis
      by (auto simp: unreachable_def send_to_node_def send_to_unconnected io_simps)
  next
    case (Some e)
    show ?thesis
    proof (cases "ne_status e = ''online''")
      case True
      with Some assms(1) have "\<And>t. \<exists>x. e_dial E t (''ws://'' @ ne_address e) = Inl x"
        by (simp add: unreachable_def)
      from connect_refused [OF this] assms Some True show ?thesis
        by (auto simp: unreachable_def send_to_node_def send_to_unconnected io_simps)
    next
      case False
      with Some assms off show ?thesis
        by (auto simp: unreachable_def send_to_node_def send_to_unconnected io_simps)
    qed
  qed
qed

text \<open>The attempt at the visiting node that \<^verbatim>\<open>route\<close> makes first.\<close>

abbreviation visiting :: "PresenceEntry \<Rightarrow> string option" where
  "visiting pr \<equiv> (case pe_visiting_node_id pr of None \<Rightarrow> None | Some v \<Rightarrow> if v = [] then None else Some v)"

lemma route_present:
  assumes "p_to p = PStr (c @ CHR ''@'' # n)" "CHR ''@'' \<notin> set c" "ns_open s"
    "get_presence c (ns_db s) = Some pr"
  shows "route E nd p s =
    bindM (case visiting pr of None \<Rightarrow> returnM (False, p) | Some v \<Rightarrow> send_to_node E nd v p) (\<lambda>(sent, p).
      if sent then returnM ()
      else bindM (send_to_node E nd (pe_home_node_id pr) p) (\<lambda>(sent, p).
        if sent then returnM () else buffer_packet E c (pe_home_node_id pr) p)) s"
  using assms
  by (simp add: route_def parse_addr_cell bindM_apply liftM_apply db_read_apply
      del: parse_addr.simps split: option.splits)

text \<open>
  C8: store and forward.  When the cell's presence names a visiting node and a home node that
  cannot be reached now, \<^verbatim>\<open>route\<close> returns normally, sends and delivers nothing, and stores the
  packet under its id: until 72 hours later every read for that cell returns a message whose
  payload decodes to the same packet, field by field (with the protocol version 1).
\<close>
theorem unreachable_cell_buffered:
  assumes "msgpack_ok E" and "ns_open s"
    and "p = typed_packet i t f (c @ CHR ''@'' # n) pl sg ts v" and "CHR ''@'' \<notin> set c"
    and "packable (packet_dict p)"
    and "get_presence c (ns_db s) = Some pr" and "unreachable E nd (pe_home_node_id pr) s"
    and "\<And>w. visiting pr = Some w \<Longrightarrow> unreachable E nd w s"
    and "i \<notin> bm_message_id ` set (message_buffer (ns_db s))"
  shows "\<exists>k b. route E nd p s =
      (Inr (), s\<lparr>w_tick := Suc k,
         ns_db := buffer_message (e_time E k) i c (pe_home_node_id pr) b (ns_db s)\<rparr>) \<and>
    deserialize_packet E b = Some (p\<lparr>p_v := PInt 1\<rparr>) \<and>
    (\<forall>t' < e_time E k + 259200. \<exists>m \<in> set (get_buffered t' c
       (buffer_message (e_time E k) i c (pe_home_node_id pr) b (ns_db s))).
         bm_message_id m = i \<and> bm_payload m = b)"
proof -
  obtain b where b: "serialize_packet E p = Inr b" "deserialize_packet E b = Some (p\<lparr>p_v := PInt 1\<rparr>)"
    by (rule deserialize_serialize [OF assms(1,5)]) (auto simp: assms(3) typed_packet_def)
  have "\<exists>k. (case visiting pr of None \<Rightarrow> returnM (False, p) | Some v \<Rightarrow> send_to_node E nd v p) s
      = (Inr (False, p), s\<lparr>w_tick := k\<rparr>)"
  proof (cases "visiting pr")
    case None
    then show ?thesis by (auto simp: returnM_apply intro: exI [of _ "w_tick s"])
  next
    case (Some w)
    with send_to_node_unreachable [OF assms(8) assms(2)] show ?thesis by simp
  qed
  then obtain k1 where 1: "(case visiting pr of None \<Rightarrow> returnM (False, p)
      | Some v \<Rightarrow> send_to_node E nd v p) s = (Inr (False, p), s\<lparr>w_tick := k1\<rparr>)" ..
  obtain k where 2: "send_to_node E nd (pe_home_node_id pr) p (s\<lparr>w_tick := k1\<rparr>)
      = (Inr (False, p), s\<lparr>w_tick := k\<rparr>)"
    using send_to_node_unreachable [of E nd "pe_home_node_id pr" "s\<lparr>w_tick := k1\<rparr>" p] assms(2,7)
    by auto
  have to: "p_to p = PStr (c @ CHR ''@'' # n)" and pid: "p_id p = PStr i"
    by (simp_all add: assms(3) typed_packet_def)
  have "route E nd p s = (Inr (), s\<lparr>w_tick := Suc k,
      ns_db := buffer_message (e_time E k) i c (pe_home_node_id pr) b (ns_db s)\<rparr>)"
    using 1 2 b(1) assms(2) pid
    by (simp add: route_present [OF to assms(4,2,6)] bindM_apply buffer_packet_def io_simps)
  moreover have "\<exists>m \<in> set (get_buffered t' c
       (buffer_message (e_time E k) i c (pe_home_node_id pr) b (ns_db s))).
         bm_message_id m = i \<and> bm_payload m = b" if "t' < e_time E k + 259200" for t'
  proof -
    let ?m = "\<lparr>bm_message_id = i, bm_to_cell = c, bm_to_node = pe_home_node_id pr, bm_payload = b,
      bm_created_at = 0, bm_expires_at = 0\<rparr>"
    have "stamp_message (e_time E k) ?m \<in> set (get_buffered t' (bm_to_cell ?m) (put_message (e_time E k) ?m (ns_db s)))"
      using that assms(9) by (intro buf.fetch_until_expiry) (auto simp: is_buffered_def TTL_MESSAGE_SECS_def)
    then show ?thesis by (intro bexI) (auto simp: put_message_def stamp_message_def)
  qed
  ultimately show ?thesis using b(2) by blast
qed

definition msg0 :: Packet where
  "msg0 = typed_packet ''m1'' ''msg'' ''aa@nn'' ''cc@nn'' [1, 2] [] 7 1"

lemma msg0_packable: "packable (packet_dict msg0)"
  by (simp add: msg0_def packable_typed Let_def)

text \<open>A state whose presence table has the cell \<^verbatim>\<open>cc\<close> with the given home node.\<close>

definition at_home :: "string \<Rightarrow> node_state" where
  "at_home h = state0\<lparr>ns_db := update_presence 1 ''cc'' h None empty_db\<rparr>"

lemma at_home_simps [simp]:
  "ns_open (at_home h)" "ns_conns (at_home h) = []" "w_tick (at_home h) = 0" "w_sent (at_home h) = []"
  "get_presence ''cc'' (ns_db (at_home h)) = Some \<lparr>pe_cell_id = ''cc'', pe_home_node_id = h,
     pe_visiting_node_id = None, pe_updated_at = 1\<rparr>"
  "get_node k (ns_db (at_home h)) = None" "message_buffer (ns_db (at_home h)) = []"
  by (simp_all add: at_home_def state0_def get_presence_update)
    (simp_all add: empty_db_def get_node_def update_presence_def)

lemma msg0_to: "p_to msg0 = PStr (''cc'' @ CHR ''@'' # ''nn'')"
  by (simp add: msg0_def typed_packet_def)

lemma short_not_nd0: "length k < 64 \<Longrightarrow> k \<noteq> my_id nd0"
proof
  assume "length k < 64" "k = my_id nd0"
  then have "length (my_id nd0) < 64" by simp
  then show False by (simp add: nd0_def node_id_def kp0_def)
qed

theorem unreachable_cell_buffered_witness:
  "\<exists>k b. route env0 nd0 msg0 (at_home ''hh'') = (Inr (), (at_home ''hh'')\<lparr>w_tick := Suc k,
      ns_db := buffer_message (e_time env0 k) ''m1'' ''cc'' ''hh'' b (ns_db (at_home ''hh''))\<rparr>)"
proof -
  have home: "unreachable env0 nd0 ''hh'' (at_home ''hh'')"
    by (simp add: unreachable_def dict_get_def short_not_nd0)
  show ?thesis
    using unreachable_cell_buffered [OF env0_ok(1), of "at_home ''hh''" msg0 "''m1''" "''msg''" "''aa@nn''"
        "''cc''" "''nn''" "[1, 2]" "[]" 7 1 _ nd0] home msg0_packable
    by (auto simp: msg0_def dict_get_def)
qed

text \<open>
  an unknown cell's message is dropped: if the cell has neither a presence record nor a
  registration, \<^verbatim>\<open>route\<close> returns normally and changes nothing at all, in the database, the
  registry, the sockets or the deliveries.
\<close>
theorem unknown_cell_dropped:
  assumes "ns_open s" and "p_to p = PStr (c @ CHR ''@'' # n)" and "CHR ''@'' \<notin> set c"
    and "get_presence c (ns_db s) = None" and "get_cell c (ns_db s) = None"
  shows "route E nd p s = (Inr (), s)"
  using assms by (simp add: route_def parse_addr_cell io_simps del: parse_addr.simps)

theorem unknown_cell_dropped_witness: "route env0 nd0 msg0 state0 = (Inr (), state0)"
proof (rule unknown_cell_dropped [OF _ msg0_to])
  show "get_presence ''cc'' (ns_db state0) = None" "get_cell ''cc'' (ns_db state0) = None"
    by (simp_all add: state0_def empty_db_def get_presence_def get_cell_def)
qed (simp_all add: state0_def)

lemma deliver_local_unconnected:
  assumes "p_to p = PStr (c @ CHR ''@'' # n)" "CHR ''@'' \<notin> set c"
    "dict_get (ns_conns s) c = None" "nd_on_message nd = None"
  shows "deliver_local E nd p s = (Inr p, s)"
  using assms
  by (simp add: deliver_local_def parse_addr_cell send_to_unconnected io_simps del: parse_addr.simps)

lemma route_home:
  assumes "p_to p = PStr (c @ CHR ''@'' # n)" "CHR ''@'' \<notin> set c" "ns_open s"
    "get_presence c (ns_db s) = Some pr" "visiting pr = None" "pe_home_node_id pr = my_id nd"
  shows "route E nd p s = bindM (deliver_local E nd p) (\<lambda>_. returnM ()) s"
  using assms(5,6)
  by (simp add: route_present [OF assms(1-4)] send_to_node_def bindM_apply returnM_apply
      split: prod.splits sum.splits)

text \<open>
  C34: a message for a cell at home here that is offline is lost.  If the presence record
  names this node as home, the cell has no connection and there is no \<^verbatim>\<open>on_message\<close>, then
  \<^verbatim>\<open>_send_to_node\<close> reports success for a delivery that did not happen: \<^verbatim>\<open>route\<close> returns
  normally and leaves the whole state as it was, so the packet is neither sent nor delivered
  nor buffered, and a later \<^verbatim>\<open>flush_buffer\<close> cannot find it.
\<close>
theorem offline_home_cell_message_lost:
  assumes "ns_open s" and "p_to p = PStr (c @ CHR ''@'' # n)" and "CHR ''@'' \<notin> set c"
    and "get_presence c (ns_db s) = Some pr" and "visiting pr = None"
    and "pe_home_node_id pr = my_id nd"
    and "dict_get (ns_conns s) c = None" and "nd_on_message nd = None"
  shows "route E nd p s = (Inr (), s)"
  by (simp add: route_home [OF assms(2,3,1,4,5,6)] bindM_apply returnM_apply
      deliver_local_unconnected [OF assms(2,3,7,8)])

theorem offline_home_cell_message_lost_witness:
  "route env0 nd0 msg0 (at_home (my_id nd0)) = (Inr (), at_home (my_id nd0))"
  by (rule offline_home_cell_message_lost [OF _ msg0_to _ at_home_simps(5)])
    (simp_all add: dict_get_def nd0_def)

text \<open>
  a forwarded message is accepted by the next hop.  When the cell is visiting a connected
  node, \<^verbatim>\<open>route\<close> sends exactly one frame, over that connection, and changes nothing else; the
  frame decodes to the same packet re-signed by this node, and the receive loop of a peer
  that authenticated this node hands that packet to its handler.
\<close>
theorem forwarded_to_visiting_node:
  assumes "msgpack_ok E" and "ed25519_ok E" and "signing_valid E (ni_signing (nd_identity nd))"
    and "ns_open s" and "p = typed_packet i t f (c @ CHR ''@'' # n) pl sg ts v"
    and "CHR ''@'' \<notin> set c" and "packable (packet_dict p)"
    and "get_presence c (ns_db s) = Some pr" and "visiting pr = Some w" and "w \<noteq> my_id nd"
    and "dict_get (ns_conns s) w = Some conn" and "\<And>b. e_send E (w_tick s) (pc_ws conn) b = None"
    and "pc_peer_signing_pubkey here = sk_public (ni_signing (nd_identity nd))"
  shows "\<exists>b sg'. route E nd p s = (Inr (), s\<lparr>w_tick := Suc (w_tick s), w_sent := w_sent s @ [(pc_ws conn, b)]\<rparr>) \<and>
    recv_frame E h here b s' = tryM (h (p\<lparr>p_sig := PBytes sg'\<rparr>) here) (\<lambda>_. returnM ()) s'"
proof -
  obtain sg' b where q: "transport_sign E nd p = Inr (p\<lparr>p_sig := PBytes sg'\<rparr>)"
    and b: "pack E (p\<lparr>p_sig := PBytes sg'\<rparr>) = Inr b" "unpack E b = Inr (p\<lparr>p_sig := PBytes sg'\<rparr>)"
    and v: "verify_packet E (p\<lparr>p_sig := PBytes sg'\<rparr>) (sk_public (ni_signing (nd_identity nd))) = Inr True"
    using transport_frame [OF assms(1-3) assms(7) [unfolded assms(5)]]
    by (metis (no_types, lifting) assms(5) typed_packet_sig)
  have to: "p_to p = PStr (c @ CHR ''@'' # n)" by (simp add: assms(5) typed_packet_def)
  have "send_to_node E nd w p s = (Inr (True, p\<lparr>p_sig := PBytes sg'\<rparr>),
      s\<lparr>w_tick := Suc (w_tick s), w_sent := w_sent s @ [(pc_ws conn, b)]\<rparr>)"
    using assms(10,11,12) by (simp add: send_to_node_def bindM_apply send_to_cases [OF q b(1)] returnM_apply)
  then have "route E nd p s = (Inr (), s\<lparr>w_tick := Suc (w_tick s), w_sent := w_sent s @ [(pc_ws conn, b)]\<rparr>)"
    using assms(9) by (simp add: route_present [OF to assms(6,4,8)] bindM_apply returnM_apply)
  moreover have "recv_frame E h here b s' = tryM (h (p\<lparr>p_sig := PBytes sg'\<rparr>) here) (\<lambda>_. returnM ()) s'"
    using b(2) v assms(13) by (simp add: recv_frame_def bindM_apply liftM_apply)
  ultimately show ?thesis by blast
qed

theorem forwarded_to_visiting_node_witness:
  "\<exists>b s'. route env0 nd0 msg0 ((at_home ''hh'')\<lparr>ns_conns := [(''vv'', peer1)],
       ns_db := update_presence 2 ''cc'' ''hh'' (Some ''vv'') empty_db\<rparr>) = (Inr (), s') \<and>
     w_sent s' = [(pc_ws peer1, b)]"
proof -
  let ?s = "(at_home ''hh'')\<lparr>ns_conns := [(''vv'', peer1)],
    ns_db := update_presence 2 ''cc'' ''hh'' (Some ''vv'') empty_db\<rparr>"
  have pr: "get_presence ''cc'' (ns_db ?s) = Some \<lparr>pe_cell_id = ''cc'', pe_home_node_id = ''hh'',
    pe_visiting_node_id = Some ''vv'', pe_updated_at = 2\<rparr>"
    by (simp add: get_presence_update)
  have m: "msg0 = typed_packet ''m1'' ''msg'' ''aa@nn'' (''cc'' @ CHR ''@'' # ''nn'') [1, 2] [] 7 1"
    by (simp add: msg0_def)
  have v: "signing_valid env0 (ni_signing (nd_identity nd0))" by (simp add: nd0_def)
  show ?thesis
    using forwarded_to_visiting_node [OF env0_ok(1,2) v _ m _ msg0_packable pr, where w = "''vv''" and
        conn = peer1 and h = "\<lambda>p c. returnM ()" and s' = state0 and
        here = "peer1\<lparr>pc_peer_signing_pubkey := sk_public (ni_signing (nd_identity nd0))\<rparr>"]
    by (auto simp: dict_get_def short_not_nd0)
qed

section \<open>Flushing the buffer\<close>

text \<open>A stored message that decodes to a packet for the cell which can be signed and packed;
  \<open>flush_frame\<close> is the frame it becomes.\<close>

definition flush_frame :: "env \<Rightarrow> Node \<Rightarrow> BufferedMessage \<Rightarrow> bytes" where
  "flush_frame E nd m =
     (case deserialize_packet E (bm_payload m) of
        None \<Rightarrow> []
      | Some p \<Rightarrow> (case bindR (transport_sign E nd p) (pack E) of Inl e \<Rightarrow> [] | Inr b \<Rightarrow> b))"

definition flushable :: "env \<Rightarrow> Node \<Rightarrow> string \<Rightarrow> BufferedMessage \<Rightarrow> bool" where
  "flushable E nd c m \<longleftrightarrow>
     (\<exists>p n q b. deserialize_packet E (bm_payload m) = Some p \<and> p_to p = PStr (c @ CHR ''@'' # n) \<and>
        transport_sign E nd p = Inr q \<and> pack E q = Inr b)"

text \<open>The state in which \<^verbatim>\<open>_handle_cell_register\<close> calls \<^verbatim>\<open>flush_buffer\<close>: the cell is at home here.\<close>

definition home_here :: "Node \<Rightarrow> string \<Rightarrow> node_state \<Rightarrow> bool" where
  "home_here nd c s \<longleftrightarrow> ns_open s \<and> c \<noteq> [] \<and> CHR ''@'' \<notin> set c \<and>
     (case get_presence c (ns_db s) of None \<Rightarrow> False
      | Some pr \<Rightarrow> visiting pr = None \<and> pe_home_node_id pr = my_id nd)"

lemma home_here_frame [simp]:
  "home_here nd c (s\<lparr>w_tick := k\<rparr>) = home_here nd c s"
  "home_here nd c (s\<lparr>w_sent := x\<rparr>) = home_here nd c s"
  "home_here nd c (s\<lparr>ns_conns := y\<rparr>) = home_here nd c s"
  "home_here nd c (s\<lparr>ns_db := delete_buffered m (ns_db s)\<rparr>) = home_here nd c s"
  by (simp_all add: home_here_def)

lemma flush_message_home:
  assumes "home_here nd c s" "deserialize_packet E (bm_payload m) = Some p"
    "p_to p = PStr (c @ CHR ''@'' # n)"
  shows "flush_message E nd m s =
    bindM (deliver_local E nd p) (\<lambda>_. db_write (delete_buffered (bm_message_id m))) s"
proof -
  from assms(1) obtain pr where "get_presence c (ns_db s) = Some pr" "visiting pr = None"
    "pe_home_node_id pr = my_id nd" "ns_open s" "CHR ''@'' \<notin> set c"
    by (auto simp: home_here_def split: option.splits)
  from route_home [OF assms(3) this(5,4,1,2,3)] assms(2) show ?thesis
    by (simp add: flush_message_def bindM_apply returnM_apply split: prod.splits sum.splits)
qed

lemma flush_message_sent:
  assumes "home_here nd c s" "flushable E nd c m" "dict_get (ns_conns s) c = Some conn"
    "\<And>t b. e_send E t (pc_ws conn) b = None"
  shows "flush_message E nd m s = (Inr (), s\<lparr>w_tick := Suc (w_tick s),
    w_sent := w_sent s @ [(pc_ws conn, flush_frame E nd m)],
    ns_db := delete_buffered (bm_message_id m) (ns_db s)\<rparr>)"
proof -
  from assms(2) obtain p n q b where p: "deserialize_packet E (bm_payload m) = Some p"
    and to: "p_to p = PStr (c @ CHR ''@'' # n)" and q: "transport_sign E nd p = Inr q" "pack E q = Inr b"
    by (auto simp: flushable_def)
  have f: "flush_frame E nd m = b" by (simp add: flush_frame_def p q)
  have c: "c \<noteq> []" "CHR ''@'' \<notin> set c" "ns_open s" using assms(1) by (auto simp: home_here_def)
  show ?thesis
    using c assms(3,4)
    by (simp add: flush_message_home [OF assms(1) p to] deliver_local_def to parse_addr_cell bindM_apply
        liftM_apply send_to_cases [OF q] returnM_apply db_write_apply f del: parse_addr.simps)
qed

lemma flush_messages_sent:
  assumes "home_here nd c s" "\<forall>m \<in> set ms. flushable E nd c m" "dict_get (ns_conns s) c = Some conn"
    "\<And>t b. e_send E t (pc_ws conn) b = None"
  shows "forM ms (flush_message E nd) s = (Inr (), s\<lparr>w_tick := w_tick s + length ms,
    w_sent := w_sent s @ map (\<lambda>m. (pc_ws conn, flush_frame E nd m)) ms,
    ns_db := fold delete_buffered (map bm_message_id ms) (ns_db s)\<rparr>)"
  using assms(1-3)
proof (induction ms arbitrary: s)
  case Nil
  then show ?case by (simp add: returnM_apply)
next
  case (Cons m ms)
  let ?s = "s\<lparr>w_tick := Suc (w_tick s), w_sent := w_sent s @ [(pc_ws conn, flush_frame E nd m)],
    ns_db := delete_buffered (bm_message_id m) (ns_db s)\<rparr>"
  have "flush_message E nd m s = (Inr (), ?s)"
    using Cons.prems assms(4) by (intro flush_message_sent) auto
  moreover have "home_here nd c ?s" using Cons.prems(1) by (simp add: home_here_def)
  ultimately show ?case
    using Cons.IH [of ?s] Cons.prems(2,3) by (simp add: bindM_apply)
qed

lemma dict_pop_absent: "dict_get d k = None \<Longrightarrow> dict_pop k d = d"
  by (induction d) (auto simp: dict_get_def dict_pop_def split: if_splits)

lemma get_buffered_mono: "get_buffered now c d = [] \<Longrightarrow> now \<le> t \<Longrightarrow> get_buffered t c d = []"
  by (auto simp: get_buffered_def filter_empty_conv)

lemma flushed_buffer:
  assumes "wf_db d" and d': "d' = fold delete_buffered (map bm_message_id (get_buffered now c d)) d"
  shows "now \<le> t \<Longrightarrow> get_buffered t c d' = []" and "c' \<noteq> c \<Longrightarrow> get_buffered t c' d' = get_buffered t c' d"
proof -
  show "get_buffered t c d' = []" if "now \<le> t"
    unfolding d' by (rule get_buffered_mono [OF buf.drop_fetched that])
  have "m \<in> set (get_buffered t c' d) \<Longrightarrow> bm_message_id m \<notin> bm_message_id ` set (get_buffered now c d)"
    if "c' \<noteq> c" for m
    using wf_db_keys(4) [OF assms(1)] that by (auto simp: get_buffered_def distinct_map dest: inj_onD)
  then show "get_buffered t c' d' = get_buffered t c' d" if "c' \<noteq> c"
    unfolding d' buf.drop_all using that by (simp add: filter_id_conv)
qed

text \<open>
  C9: when a cell comes home, every message stored for it is delivered, once and in order.  If
  the cell is at home here and connected, and sending works, \<^verbatim>\<open>flush_buffer\<close> returns normally;
  the frames sent are exactly the frames of the stored messages, in the order they were
  stored, all over the cell's connection; afterwards nothing is left for the cell, and the
  messages of every other cell are untouched.
\<close>
theorem flush_delivers_in_order:
  assumes "wf_db (ns_db s)" and "home_here nd c s"
    and "dict_get (ns_conns s) c = Some conn" and "\<And>t b. e_send E t (pc_ws conn) b = None"
    and "msgs = get_buffered (e_time E (w_tick s)) c (ns_db s)"
    and "\<forall>m \<in> set msgs. flushable E nd c m"
  shows "\<exists>s'. flush_buffer E nd c s = (Inr (), s') \<and>
    w_sent s' = w_sent s @ map (\<lambda>m. (pc_ws conn, flush_frame E nd m)) msgs \<and>
    (\<forall>t \<ge> e_time E (w_tick s). get_buffered t c (ns_db s') = []) \<and>
    (\<forall>t c'. c' \<noteq> c \<longrightarrow> get_buffered t c' (ns_db s') = get_buffered t c' (ns_db s)) \<and>
    ns_conns s' = ns_conns s \<and> ns_delivered s' = ns_delivered s"
proof -
  let ?s = "s\<lparr>w_tick := Suc (w_tick s)\<rparr>"
  have "ns_open s" using assms(2) by (simp add: home_here_def)
  then have "flush_buffer E nd c s = forM msgs (flush_message E nd) ?s"
    by (simp add: flush_buffer_def db_read_now_def io_simps assms(5))
  also have "\<dots> = (Inr (), ?s\<lparr>w_tick := w_tick ?s + length msgs,
      w_sent := w_sent ?s @ map (\<lambda>m. (pc_ws conn, flush_frame E nd m)) msgs,
      ns_db := fold delete_buffered (map bm_message_id msgs) (ns_db ?s)\<rparr>)"
    using assms(2-4,6) by (intro flush_messages_sent) auto
  finally show ?thesis
    using flushed_buffer [OF assms(1) refl] by (simp add: assms(5))
qed

text \<open>A cell at home on the example node, connected, with one stored message.\<close>

definition stored_one :: "bytes \<Rightarrow> node_state" where
  "stored_one b = (at_home (my_id nd0))\<lparr>ns_conns := [(''cc'', peer1)],
     ns_db := buffer_message 1 ''m1'' ''cc'' (my_id nd0) b (ns_db (at_home (my_id nd0)))\<rparr>"

lemma stored_one_facts:
  "wf_db (ns_db (stored_one b))" "home_here nd0 ''cc'' (stored_one b)"
  "dict_get (ns_conns (stored_one b)) ''cc'' = Some peer1" "w_sent (stored_one b) = []"
  "get_buffered 5 ''cc'' (ns_db (stored_one b)) = [\<lparr>bm_message_id = ''m1'', bm_to_cell = ''cc'',
     bm_to_node = my_id nd0, bm_payload = b, bm_created_at = 1, bm_expires_at = 259201\<rparr>]"
proof -
  have "wf_db (ns_db (at_home h))" for h
    by (simp add: at_home_def wf_update_presence wf_empty_db)
  then show "wf_db (ns_db (stored_one b))" by (simp add: stored_one_def wf_buffer_message)
  show "home_here nd0 ''cc'' (stored_one b)" by (simp add: home_here_def stored_one_def)
  show "dict_get (ns_conns (stored_one b)) ''cc'' = Some peer1" "w_sent (stored_one b) = []"
    by (simp_all add: stored_one_def dict_get_def)
  show "get_buffered 5 ''cc'' (ns_db (stored_one b)) = [\<lparr>bm_message_id = ''m1'', bm_to_cell = ''cc'',
     bm_to_node = my_id nd0, bm_payload = b, bm_created_at = 1, bm_expires_at = 259201\<rparr>]"
    by (simp add: stored_one_def get_buffered_def buffer_message_def tbl_upsert_def TTL_MESSAGE_SECS_def)
qed

lemma flushable_msg0:
  assumes "msgpack_ok E" "ed25519_ok E" "signing_valid E kp0"
  obtains b where "\<And>m. bm_payload m = b \<Longrightarrow> flushable E nd0 ''cc'' m"
proof -
  have kp: "signing_valid E (ni_signing (nd_identity nd0))" using assms(3) by (simp add: nd0_def)
  have p: "packable (packet_dict (typed_packet ''m1'' ''msg'' ''aa@nn'' ''cc@nn'' [1, 2] [] 7 1))"
    using msg0_packable by (simp add: msg0_def)
  obtain b where b: "deserialize_packet E b = Some (msg0\<lparr>p_v := PInt 1\<rparr>)"
    by (rule deserialize_serialize [OF assms(1) msg0_packable]) (auto simp: msg0_def typed_packet_def)
  moreover have "msg0\<lparr>p_v := PInt 1\<rparr> = msg0" by (simp add: msg0_def typed_packet_def)
  moreover obtain q r where "transport_sign E nd0 msg0 = Inr q" "pack E q = Inr r"
    by (rule transport_frame [OF assms(1,2) kp p]) (simp add: msg0_def)
  ultimately show ?thesis using that msg0_to unfolding flushable_def by metis
qed

theorem flush_delivers_in_order_witness:
  "\<exists>b f s'. flush_buffer env0 nd0 ''cc'' (stored_one b) = (Inr (), s') \<and> w_sent s' = [(9, f)] \<and>
     get_buffered 5 ''cc'' (ns_db s') = []"
proof -
  obtain b where b: "\<And>m. bm_payload m = b \<Longrightarrow> flushable env0 nd0 ''cc'' m"
    by (rule flushable_msg0 [of env0]) auto
  have "\<exists>f s'. flush_buffer env0 nd0 ''cc'' (stored_one b) = (Inr (), s') \<and> w_sent s' = [(9, f)] \<and>
     get_buffered 5 ''cc'' (ns_db s') = []"
    using flush_delivers_in_order [OF stored_one_facts(1-3), of env0 _ b, OF _ refl] b
    by (auto simp: stored_one_facts peer1_def)
  then show ?thesis by (rule exI [of _ b])
qed

lemma flush_message_closed:
  assumes "home_here nd c s" "flushable E nd c m" "nd_on_message nd = None"
    "dict_get (ns_conns s) c = None \<or> (\<exists>conn. dict_get (ns_conns s) c = Some conn \<and>
       (\<forall>t b. e_send E t (pc_ws conn) b = Some ConnectionClosed))"
  shows "\<exists>k. flush_message E nd m s = (Inr (), s\<lparr>w_tick := k, ns_conns := dict_pop c (ns_conns s),
    ns_db := delete_buffered (bm_message_id m) (ns_db s)\<rparr>)"
proof -
  from assms(2) obtain p n q b where p: "deserialize_packet E (bm_payload m) = Some p"
    and to: "p_to p = PStr (c @ CHR ''@'' # n)" and q: "transport_sign E nd p = Inr q" "pack E q = Inr b"
    by (auto simp: flushable_def)
  have c: "c \<noteq> []" "CHR ''@'' \<notin> set c" "ns_open s" using assms(1) by (auto simp: home_here_def)
  note run = flush_message_home [OF assms(1) p to] deliver_local_def to parse_addr_cell bindM_apply
        liftM_apply send_to_cases [OF q] returnM_apply db_write_apply
  show ?thesis
  proof (cases "dict_get (ns_conns s) c")
    case None
    then have "dict_pop c (ns_conns s) = ns_conns s" by (rule dict_pop_absent)
    with None c assms(3) show ?thesis
      by (intro exI [of _ "w_tick s"]) (simp add: run del: parse_addr.simps)
  next
    case (Some conn)
    with c assms(3,4) show ?thesis
      by (intro exI [of _ "Suc (w_tick s)"]) (simp add: run del: parse_addr.simps)
  qed
qed

lemma flush_messages_closed:
  assumes "home_here nd c s" "\<forall>m \<in> set ms. flushable E nd c m" "nd_on_message nd = None"
    "dict_get (ns_conns s) c = None \<or> (\<exists>conn. dict_get (ns_conns s) c = Some conn \<and>
       (\<forall>t b. e_send E t (pc_ws conn) b = Some ConnectionClosed))"
  shows "\<exists>k cs. forM ms (flush_message E nd) s = (Inr (), s\<lparr>w_tick := k, ns_conns := cs,
    ns_db := fold delete_buffered (map bm_message_id ms) (ns_db s)\<rparr>)"
  using assms(1,2,4)
proof (induction ms arbitrary: s)
  case Nil
  show ?case by (rule exI [of _ "w_tick s"], rule exI [of _ "ns_conns s"]) (simp add: returnM_apply)
next
  case (Cons m ms)
  obtain k where k: "flush_message E nd m s = (Inr (), s\<lparr>w_tick := k, ns_conns := dict_pop c (ns_conns s),
      ns_db := delete_buffered (bm_message_id m) (ns_db s)\<rparr>)" (is "_ = (_, ?s)")
    using flush_message_closed [OF Cons.prems(1) _ assms(3) Cons.prems(3), of m] Cons.prems(2) by auto
  have "home_here nd c ?s" using Cons.prems(1) by (simp add: home_here_def)
  with Cons.IH [of ?s] Cons.prems(2) k show ?case by (simp add: bindM_apply dict_get_pop)
qed

text \<open>
  C23: a connection that closes during the flush loses the stored messages.  If every send to
  the cell raises \<^verbatim>\<open>ConnectionClosed\<close> and there is no \<^verbatim>\<open>on_message\<close>, \<^verbatim>\<open>flush_buffer\<close> still returns
  normally and deletes every stored message of the cell although nothing was sent and
  nothing was delivered.
\<close>
theorem flush_on_closed_connection_loses_messages:
  assumes "wf_db (ns_db s)" and "home_here nd c s" and "nd_on_message nd = None"
    and "dict_get (ns_conns s) c = Some conn" and "\<And>t b. e_send E t (pc_ws conn) b = Some ConnectionClosed"
    and "\<forall>m \<in> set (get_buffered (e_time E (w_tick s)) c (ns_db s)). flushable E nd c m"
  shows "\<exists>s'. flush_buffer E nd c s = (Inr (), s') \<and> w_sent s' = w_sent s \<and>
    ns_delivered s' = ns_delivered s \<and> (\<forall>t \<ge> e_time E (w_tick s). get_buffered t c (ns_db s') = [])"
proof -
  let ?s = "s\<lparr>w_tick := Suc (w_tick s)\<rparr>" and ?ms = "get_buffered (e_time E (w_tick s)) c (ns_db s)"
  have "ns_open s" using assms(2) by (simp add: home_here_def)
  then have "flush_buffer E nd c s = forM ?ms (flush_message E nd) ?s"
    by (simp add: flush_buffer_def db_read_now_def io_simps)
  moreover obtain k cs where "forM ?ms (flush_message E nd) ?s = (Inr (), ?s\<lparr>w_tick := k, ns_conns := cs,
      ns_db := fold delete_buffered (map bm_message_id ?ms) (ns_db ?s)\<rparr>)"
    using flush_messages_closed [of nd c ?s ?ms E] assms(2-6) by auto
  ultimately show ?thesis
    using flushed_buffer(1) [OF assms(1) refl] by simp
qed

theorem flush_on_closed_connection_loses_messages_witness:
  "\<exists>E b s'. get_buffered 5 ''cc'' (ns_db (stored_one b)) \<noteq> [] \<and>
     flush_buffer E nd0 ''cc'' (stored_one b) = (Inr (), s') \<and> w_sent s' = [] \<and>
     get_buffered 5 ''cc'' (ns_db s') = []"
proof -
  let ?E = "env0\<lparr>e_send := \<lambda>t w b. Some ConnectionClosed\<rparr>"
  have kp: "signing_valid ?E kp0" by (simp add: signing_valid_def kp0_def)
  obtain b where b: "\<And>m. bm_payload m = b \<Longrightarrow> flushable ?E nd0 ''cc'' m"
    by (rule flushable_msg0 [OF _ _ kp]) auto
  have "\<exists>s'. flush_buffer ?E nd0 ''cc'' (stored_one b) = (Inr (), s') \<and> w_sent s' = [] \<and>
     get_buffered 5 ''cc'' (ns_db s') = []"
    using flush_on_closed_connection_loses_messages [OF stored_one_facts(1,2) _ stored_one_facts(3),
        where E = ?E and b1 = b] b
    by (auto simp: stored_one_facts nd0_def)
  then show ?thesis by (intro exI [of _ ?E] exI [of _ b]) (simp add: stored_one_facts)
qed

end
