(* ===== verification/Nevod_Gossip.thy ===== *)
theory Nevod_Gossip
  imports Nevod_Router
begin

text \<open>
  The gossip engine (\<^verbatim>\<open>node/gossip.py\<close>): one round of pings, expiry and table exchange, and the
  handlers of \<^verbatim>\<open>GOSSIP\<close>, \<^verbatim>\<open>PING\<close> and \<^verbatim>\<open>PONG\<close> packets.

  A timeout of \<^verbatim>\<open>asyncio.wait_for\<close> is an answer \<^verbatim>\<open>TimeoutError\<close> of the environment to the socket
  operation that was waiting.
\<close>

definition GOSSIP_FANOUT :: nat where
  "GOSSIP_FANOUT = 3"

section \<open>One round\<close>

definition ping_node :: "env \<Rightarrow> Node \<Rightarrow> NodeEntry \<Rightarrow> unit nodeM" where
  "ping_node E nd entry =
     bindM (conn_get (ne_node_id entry)) (\<lambda>found.
     bindM (case found of
              Some conn \<Rightarrow> returnM (Some conn)
            | None \<Rightarrow>
                tryM (bindM (connect_to_node E nd (ne_node_id entry) (ne_address entry))
                        (\<lambda>conn. returnM (Some conn)))
                  (\<lambda>e. bindM (db_write_now E (\<lambda>now. update_node_ping now (ne_node_id entry) False))
                         (\<lambda>_. returnM None)))
       (\<lambda>found.
     case found of
       None \<Rightarrow> returnM ()
     | Some conn \<Rightarrow>
         bindM (make_ping E (my_id nd) (ne_node_id entry)) (\<lambda>pkt.
         tryM (bindM (send_via E nd conn pkt)
                 (\<lambda>_. db_write_now E (\<lambda>now. update_node_ping now (ne_node_id entry) True)))
           (\<lambda>e. db_write_now E (\<lambda>now. update_node_ping now (ne_node_id entry) False)))))"

definition exchange :: "env \<Rightarrow> Node \<Rightarrow> NodeEntry \<Rightarrow> unit nodeM" where
  "exchange E nd peer =
     bindM (conn_get (ne_node_id peer)) (\<lambda>found.
     case found of
       None \<Rightarrow> returnM ()
     | Some conn \<Rightarrow>
         bindM (db_read get_all_nodes) (\<lambda>all_nodes.
         bindM (make_gossip E (my_id nd) (map to_dict all_nodes)) (\<lambda>pkt.
         tryM (send_via E nd conn pkt) (\<lambda>e. returnM ()))))"

definition gossip_round :: "env \<Rightarrow> Node \<Rightarrow> unit nodeM" where
  "gossip_round E nd =
     bindM (db_read get_all_nodes) (\<lambda>nodes.
     bindM (forM nodes (\<lambda>entry.
              if ne_node_id entry = my_id nd then returnM () else ping_node E nd entry)) (\<lambda>_.
     bindM (db_write_now E cleanup_expired_nodes) (\<lambda>_.
     bindM (db_write_now E cleanup_expired_messages) (\<lambda>_.
     let online = filter (\<lambda>n. ne_status n = ''online'' \<and> ne_node_id n \<noteq> my_id nd) nodes in
     bindM (random_sample E online (min GOSSIP_FANOUT (length online))) (\<lambda>peers.
     forM peers (exchange E nd))))))"

text \<open>One turn of \<^verbatim>\<open>_loop\<close>: an error of the round is logged, the loop goes on.\<close>

definition gossip_turn :: "env \<Rightarrow> Node \<Rightarrow> unit nodeM" where
  "gossip_turn E nd = tryM (gossip_round E nd) (\<lambda>e. returnM ())"

text \<open>\<^verbatim>\<open>start\<close> creates the gossip task, \<^verbatim>\<open>stop\<close> cancels it if there is one.\<close>

definition gossip_start :: "unit nodeM" where
  "gossip_start = modifyM (\<lambda>s. s\<lparr>ns_gossip := True\<rparr>)"

definition gossip_stop :: "unit nodeM" where
  "gossip_stop = modifyM (\<lambda>s. s\<lparr>ns_gossip := False\<rparr>)"

section \<open>Packet handlers\<close>

text \<open>Iteration over a decoded value; the characters of a text are single-byte strings here, which
  is enough because the loop body raises on the first of them.\<close>

fun py_iter :: "pyval \<Rightarrow> exn + pyval list" where
  "py_iter (PList xs) = Inr xs"
| "py_iter (PDict kvs) = Inr (map fst kvs)"
| "py_iter (PStr s) = Inr (map (\<lambda>c. PStr [c]) s)"
| "py_iter (PBytes b) = Inr (map (\<lambda>x. PInt (uint x)) b)"
| "py_iter _ = Inl TypeError"

text \<open>The new entry of a discovered node goes through SQL as text parameters.  \<^verbatim>\<open>node_id[:8]\<close> in
  the log line comes after the insertion.\<close>

definition discovered :: "int \<Rightarrow> int \<Rightarrow> string \<Rightarrow> string \<Rightarrow> string \<Rightarrow> string \<Rightarrow> NodeEntry" where
  "discovered seen added nid address type access = \<lparr>
     ne_node_id = nid, ne_address = address, ne_type = type, ne_access = access, ne_cert = [],
     ne_parent_node = [], ne_last_seen = seen, ne_missed_pings = 0, ne_status = ''online'',
     ne_added_at = added\<rparr>"

definition add_discovered :: "env \<Rightarrow> pyval \<Rightarrow> pyval \<Rightarrow> pyval \<Rightarrow> unit nodeM" where
  "add_discovered E n nid address =
     bindM (liftM (py_get n ''type'' (PStr ''permanent''))) (\<lambda>type.
     bindM (liftM (py_get n ''access'' (PStr ''closed''))) (\<lambda>access.
     bindM (time_now E) (\<lambda>seen.
     bindM (time_now E) (\<lambda>added.
     bindM (liftM (insert_text nid)) (\<lambda>nid_t.
     bindM (liftM (insert_text address)) (\<lambda>address_t.
     bindM (liftM (insert_text type)) (\<lambda>type_t.
     bindM (liftM (insert_text access)) (\<lambda>access_t.
     bindM (upsertM E (discovered seen added nid_t address_t type_t access_t)) (\<lambda>_.
     if sliceable nid then returnM () else raiseM TypeError)))))))))"

definition merge_node :: "env \<Rightarrow> pyval \<Rightarrow> unit nodeM" where
  "merge_node E n =
     bindM (liftM (py_get n ''node_id'' (PStr []))) (\<lambda>nid.
     bindM (liftM (py_get n ''address'' (PStr []))) (\<lambda>address.
     if \<not> truthy nid \<or> \<not> truthy address then returnM ()
     else
       bindM (liftM (where_text nid)) (\<lambda>key.
       bindM (db_read (\<lambda>d. case key of None \<Rightarrow> None | Some k \<Rightarrow> get_node k d)) (\<lambda>existing.
       case existing of
         Some _ \<Rightarrow> returnM ()
       | None \<Rightarrow> add_discovered E n nid address))))"

definition handle_gossip :: "env \<Rightarrow> Packet \<Rightarrow> unit nodeM" where
  "handle_gossip E pkt =
     (case bindR (decode_payload E (p_payload pkt)) (\<lambda>data. py_get data ''nodes'' (PList [])) of
        Inl e \<Rightarrow> returnM ()
      | Inr remote_nodes \<Rightarrow>
          bindM (liftM (py_iter remote_nodes)) (\<lambda>ns. forM ns (merge_node E)))"

definition handle_ping :: "env \<Rightarrow> Node \<Rightarrow> Packet \<Rightarrow> PeerConnection \<Rightarrow> unit nodeM" where
  "handle_ping E nd pkt conn =
     bindM (make_pong E (my_id nd) (p_from pkt) (p_id pkt)) (\<lambda>pong. send_via E nd conn pong)"

definition handle_pong :: "env \<Rightarrow> Packet \<Rightarrow> unit nodeM" where
  "handle_pong E pkt =
     bindM (time_now E) (\<lambda>now.
     bindM (liftM (where_text (p_from pkt))) (\<lambda>key.
     db_write (case key of None \<Rightarrow> (\<lambda>d. d) | Some k \<Rightarrow> update_node_ping now k True)))"

section \<open>What gossip keeps\<close>

lemma keeps_db_ping:
  assumes "\<And>now n ok d. P d \<Longrightarrow> P (update_node_ping now n ok d)"
  shows "keeps (on_db P) (ping_node E nd e)" "keeps (on_db P) (handle_pong E p)"
proof -
  show "keeps (on_db P) (ping_node E nd e)"
    unfolding ping_node_def by (intro keeps_intros keeps_db_write_now assms on_db_free)
  show "keeps (on_db P) (handle_pong E p)"
    unfolding handle_pong_def
    by (intro keeps_intros keeps_db_write on_db_free) (auto intro: assms split: option.splits)
qed

lemma keeps_db_exchange [keeps_intros]: "keeps (on_db P) (exchange E nd e)"
  unfolding exchange_def by (intro keeps_intros on_db_free)

lemma keeps_db_round:
  assumes "\<And>now n ok d. P d \<Longrightarrow> P (update_node_ping now n ok d)"
    and "\<And>now d. P d \<Longrightarrow> P (cleanup_expired_nodes now d)"
    and "\<And>now d. P d \<Longrightarrow> P (cleanup_expired_messages now d)"
  shows "keeps (on_db P) (gossip_turn E nd)"
  unfolding gossip_turn_def gossip_round_def
  by (intro keeps_intros keeps_db_ping keeps_db_write_now assms on_db_free)

lemma keeps_db_gossip:
  assumes "\<And>now seen added n a t x d. P d \<Longrightarrow> P (upsert_node now (discovered seen added n a t x) d)"
  shows "keeps (on_db P) (handle_gossip E p)"
  unfolding handle_gossip_def merge_node_def add_discovered_def
  by (intro keeps_intros keeps_upsertM assms on_db_free)

lemma keeps_db_handle_ping [keeps_intros]: "keeps (on_db P) (handle_ping E nd p c)"
  unfolding handle_ping_def by (intro keeps_intros on_db_free)

lemma keeps_conns_gossip [keeps_intros]:
  "keeps (on_conns net_ok) (gossip_turn E nd)" "keeps (on_conns P) (handle_gossip E p)"
  "keeps (on_conns P) (handle_ping E nd p c)" "keeps (on_conns P) (handle_pong E p)"
proof -
  have "keeps (on_conns net_ok) (ping_node E nd e)" "keeps (on_conns net_ok) (exchange E nd e)" for e
    unfolding ping_node_def exchange_def by (intro keeps_intros on_conns_free)+
  then show "keeps (on_conns net_ok) (gossip_turn E nd)"
    unfolding gossip_turn_def gossip_round_def by (intro keeps_intros on_conns_free)
  show "keeps (on_conns P) (handle_gossip E p)" "keeps (on_conns P) (handle_ping E nd p c)"
    "keeps (on_conns P) (handle_pong E p)"
    unfolding handle_gossip_def merge_node_def add_discovered_def handle_ping_def handle_pong_def
    by (intro keeps_intros on_conns_free)+
qed

lemma gossip_task_apply [io_simps]:
  "gossip_start s = (Inr (), s\<lparr>ns_gossip := True\<rparr>)" "gossip_stop s = (Inr (), s\<lparr>ns_gossip := False\<rparr>)"
  by (simp_all add: gossip_start_def gossip_stop_def io_simps)

lemma keeps_gossip_task [keeps_intros]:
  "keeps (on_db P) gossip_start" "keeps (on_db P) gossip_stop"
  "keeps (on_conns Q) gossip_start" "keeps (on_conns Q) gossip_stop"
  by (simp_all add: keeps_def io_simps on_db_def on_conns_def)

section \<open>Sending a fresh packet\<close>

text \<open>What a node relies on to talk: its codec, its signatures, its clock and its own key pair.\<close>

definition node_ok :: "env \<Rightarrow> Node \<Rightarrow> bool" where
  "node_ok E nd \<longleftrightarrow> msgpack_ok E \<and> ed25519_ok E \<and> clock_ok E \<and> signing_valid E (ni_signing (nd_identity nd))"

lemma node_ok_env0 [simp]: "node_ok env0 nd0"
  by (simp add: node_ok_def nd0_def clock_ok_def Let_def)

lemma node_id_wire: "node_ok E nd \<Longrightarrow> wire_str (my_id nd)"
  using length_public [of E "ni_signing (nd_identity nd)"] by (simp add: node_ok_def node_id_def)

lemma send_fresh:
  assumes ok: "node_ok E nd" and w: "wire_str t" "wire_str f" "wire_str a" "length pl < 2 ^ 32"
    and send: "\<And>k b. e_send E k (pc_ws c) b = None"
  obtains sg b where
    "bindM (new_packet E t (PBytes pl) (PStr f) (PStr a)) (send_via E nd c) s =
       (Inr (), s\<lparr>w_tick := w_tick s + 3, w_sent := w_sent s @ [(pc_ws c, b)]\<rparr>)"
    "unpack E b = Inr (typed_packet (e_uuid E (w_tick s)) t f a pl sg (e_time E (Suc (w_tick s))) 1)"
    "verify_packet E (typed_packet (e_uuid E (w_tick s)) t f a pl sg (e_time E (Suc (w_tick s))) 1)
       (sk_public (ni_signing (nd_identity nd))) = Inr True"
proof -
  let ?p = "\<lambda>sg. typed_packet (e_uuid E (w_tick s)) t f a pl sg (e_time E (Suc (w_tick s))) 1"
  have env: "msgpack_ok E" "ed25519_ok E" "signing_valid E (ni_signing (nd_identity nd))" "clock_ok E"
    using ok by (simp_all add: node_ok_def)
  have "packable (packet_dict (?p []))"
    unfolding packable_typed
    using w clock_okD [OF env(4), of "w_tick s"] clock_okD [OF env(4), of "Suc (w_tick s)"] by auto
  then obtain sg b where q: "transport_sign E nd (?p []) = Inr (?p sg)" "pack E (?p sg) = Inr b"
    and u: "unpack E b = Inr (?p sg)"
    and v: "verify_packet E (?p sg) (sk_public (ni_signing (nd_identity nd))) = Inr True"
    by (rule transport_frame [OF env(1-3)])
  have new: "new_packet E t (PBytes pl) (PStr f) (PStr a) s = (Inr (?p []), s\<lparr>w_tick := Suc (Suc (w_tick s))\<rparr>)"
    by (simp add: new_packet_apply typed_packet_def PROTO_VERSION_def)
  have "bindM (new_packet E t (PBytes pl) (PStr f) (PStr a)) (send_via E nd c) s =
      (Inr (), s\<lparr>w_tick := w_tick s + 3, w_sent := w_sent s @ [(pc_ws c, b)]\<rparr>)"
    using q send by (simp add: bindM_apply new send_via_def conn_send_def io_simps numeral_3_eq_3)
  with u v that show ?thesis by blast
qed

section \<open>Merging node tables\<close>

lemma insert_where: "insert_text v = Inr t \<Longrightarrow> where_text v = Inr (Some t)"
  by (cases v) (auto split: if_splits)

lemma upsertM_apply:
  assumes "ns_open s"
  obtains j now where "upsertM E e s = (Inr (), s\<lparr>w_tick := j, ns_db := upsert_node now e (ns_db s)\<rparr>)"
proof (cases "ne_added_at e = 0")
  case True
  with assms that show thesis by (simp add: upsertM_def db_write_now_def io_simps)
next
  case False
  with assms that [where j = "w_tick s" and now = 0] show thesis by (simp add: upsertM_def io_simps)
qed

text \<open>Merging one item touches the database only by inserting an entry that was not there.\<close>

lemma add_discovered_cases:
  assumes "ns_open s"
  shows "(\<exists>j. snd (add_discovered E n v a s) = s\<lparr>w_tick := j\<rparr>) \<or>
    (\<exists>j now seen added k b t x. insert_text v = Inr k \<and> snd (add_discovered E n v a s) =
       s\<lparr>w_tick := j, ns_db := upsert_node now (discovered seen added k b t x) (ns_db s)\<rparr>)"
proof -
  let ?s = "s\<lparr>w_tick := Suc (Suc (w_tick s))\<rparr>"
  have same: "\<exists>j. s = s\<lparr>w_tick := j\<rparr>" by (rule exI [of _ "w_tick s"]) simp
  show ?thesis
  proof (cases "\<exists>k a' t t' x x'. insert_text v = Inr k \<and> insert_text a = Inr a' \<and>
      py_get n ''type'' (PStr ''permanent'') = Inr t \<and> insert_text t = Inr t' \<and>
      py_get n ''access'' (PStr ''closed'') = Inr x \<and> insert_text x = Inr x'")
    case True
    then obtain k a' t t' x x' where eqs: "insert_text v = Inr k" "insert_text a = Inr a'"
      "py_get n ''type'' (PStr ''permanent'') = Inr t" "insert_text t = Inr t'"
      "py_get n ''access'' (PStr ''closed'') = Inr x" "insert_text x = Inr x'" by blast
    let ?e = "discovered (e_time E (w_tick s)) (e_time E (Suc (w_tick s))) k a' t' x'"
    obtain j now where "upsertM E ?e ?s = (Inr (), s\<lparr>w_tick := j, ns_db := upsert_node now ?e (ns_db s)\<rparr>)"
      by (rule upsertM_apply [of ?s E ?e]) (use assms in auto)
    then have "snd (add_discovered E n v a s) = s\<lparr>w_tick := j, ns_db := upsert_node now ?e (ns_db s)\<rparr>"
      by (auto simp: add_discovered_def io_simps eqs)
    with eqs(1) show ?thesis by blast
  next
    case False
    then have "snd (add_discovered E n v a s) = s \<or> snd (add_discovered E n v a s) = ?s"
      by (auto simp: add_discovered_def io_simps split: sum.splits)
    with same show ?thesis by metis
  qed
qed

lemma merge_node_cases:
  assumes "ns_open s"
  shows "(\<exists>j. snd (merge_node E n s) = s\<lparr>w_tick := j\<rparr>) \<or>
    (\<exists>j now seen added k a t x. get_node k (ns_db s) = None \<and> snd (merge_node E n s) =
       s\<lparr>w_tick := j, ns_db := upsert_node now (discovered seen added k a t x) (ns_db s)\<rparr>)"
proof -
  have same: "\<exists>j. s = s\<lparr>w_tick := j\<rparr>" by (rule exI [of _ "w_tick s"]) simp
  show ?thesis
  proof (cases "\<exists>v a key. py_get n ''node_id'' (PStr []) = Inr v \<and> py_get n ''address'' (PStr []) = Inr a \<and>
      truthy v \<and> truthy a \<and> where_text v = Inr key \<and>
      (case key of None \<Rightarrow> None | Some k \<Rightarrow> get_node k (ns_db s)) = None")
    case True
    then obtain v a key where eqs: "py_get n ''node_id'' (PStr []) = Inr v" "py_get n ''address'' (PStr []) = Inr a"
      "truthy v" "truthy a" "where_text v = Inr key"
      "(case key of None \<Rightarrow> None | Some k \<Rightarrow> get_node k (ns_db s)) = None" by blast
    have "snd (merge_node E n s) = snd (add_discovered E n v a s)"
      using assms by (simp add: merge_node_def io_simps eqs)
    moreover have "get_node k (ns_db s) = None" if "insert_text v = Inr k" for k
      using insert_where [OF that] eqs(5,6) by simp
    ultimately show ?thesis
      using add_discovered_cases [OF assms, of E n v a] by metis
  next
    case False
    then have "snd (merge_node E n s) = s"
      using assms by (auto simp: merge_node_def io_simps split: sum.splits option.splits) force
    with same show ?thesis by metis
  qed
qed

lemma keeps_known_merge:
  assumes "\<And>now seen added k a t x d. P d \<Longrightarrow> get_node k d = None \<Longrightarrow>
    P (upsert_node now (discovered seen added k a t x) d)"
  shows "keeps (\<lambda>s. ns_open s \<and> P (ns_db s)) (handle_gossip E p)"
proof -
  have "keeps (\<lambda>s. ns_open s \<and> P (ns_db s)) (merge_node E n)" for n
  proof (rule keepsI)
    fix s :: node_state assume s: "ns_open s \<and> P (ns_db s)"
    with merge_node_cases [of s E n] assms
    show "ns_open (snd (merge_node E n s)) \<and> P (ns_db (snd (merge_node E n s)))" by auto
  qed
  then show ?thesis unfolding handle_gossip_def by (intro keeps_intros)
qed

lemma get_node_discovered:
  "get_node k d = None \<Longrightarrow> get_node j (upsert_node now (discovered seen added k a t x) d) = (if j = k
     then Some (discovered seen (if added = 0 then now else added) k a t x) else get_node j d)"
  by (simp add: get_node_upsert discovered_def)

definition fresh_entry :: "NodeEntry \<Rightarrow> bool" where
  "fresh_entry e \<longleftrightarrow> ne_status e = ''online'' \<and> ne_missed_pings e = 0 \<and> ne_cert e = [] \<and> ne_parent_node e = []"

definition only_new :: "db \<Rightarrow> db \<Rightarrow> bool" where
  "only_new d d' \<longleftrightarrow>
     (\<forall>k. case get_node k d of
        Some e \<Rightarrow> get_node k d' = Some e
      | None \<Rightarrow> (case get_node k d' of None \<Rightarrow> True | Some e \<Rightarrow> fresh_entry e)) \<and>
     cells d' = cells d \<and> presence_table d' = presence_table d \<and> message_buffer d' = message_buffer d"

lemma only_new_discovered:
  assumes "only_new d d2" "get_node k d2 = None"
  shows "only_new d (upsert_node now (discovered seen added k a t x) d2)"
proof -
  have f: "fresh_entry (discovered seen y k a t x)" for y
    by (simp add: fresh_entry_def discovered_def)
  have "get_node k d = None"
    using assms by (cases "get_node k d") (auto simp: only_new_def dest!: spec [of _ k])
  with assms f show ?thesis
    unfolding only_new_def get_node_discovered [OF assms(2)]
    by (auto simp: upsert_node_def Let_def split: option.splits)
qed

text \<open>
  gossip cannot change what a node already knows.  Whatever a \<^verbatim>\<open>GOSSIP\<close> packet contains,
  well-formed or not, after \<^verbatim>\<open>handle_gossip\<close>, whether it returns or raises, every entry that
  was in the node table is still there unchanged, and every entry that is new was inserted
  as freshly seen: online, no missed pings, no certificate, no parent.  The cells, the
  presence records and the stored messages are untouched.
\<close>
theorem gossip_keeps_known_nodes:
  assumes "ns_open s" and "d = ns_db s" and "d' = ns_db (snd (handle_gossip E p s))"
  shows "(\<forall>k e. get_node k d = Some e \<longrightarrow> get_node k d' = Some e) \<and>
    (\<forall>k e. get_node k d = None \<and> get_node k d' = Some e \<longrightarrow>
       ne_status e = ''online'' \<and> ne_missed_pings e = 0 \<and> ne_cert e = [] \<and> ne_parent_node e = []) \<and>
    cells d' = cells d \<and> presence_table d' = presence_table d \<and> message_buffer d' = message_buffer d"
proof -
  have start: "only_new d d"
    by (simp add: only_new_def split: option.splits)
  have keep: "keeps (\<lambda>s. ns_open s \<and> only_new d (ns_db s)) (handle_gossip E p)"
    by (rule keeps_known_merge) (rule only_new_discovered)
  have n: "only_new d d'"
    using keepsD [OF keep, of s] start assms by simp
  then have old: "get_node k d' = Some e" if "get_node k d = Some e" for k e
    using that by (auto simp: only_new_def dest!: spec [of _ k])
  have "fresh_entry e" if "get_node k d = None" "get_node k d' = Some e" for k e
    using n that by (auto simp: only_new_def dest!: spec [of _ k])
  with n old show ?thesis unfolding fresh_entry_def only_new_def by blast
qed

text \<open>A state that knows one node, and a gossip payload that mentions it with another address.\<close>

definition knows_one :: node_state where
  "knows_one = state0\<lparr>ns_db := upsert_node 0 example_node empty_db\<rparr>"

definition gossip0 :: Packet where
  "gossip0 = msg0\<lparr>p_type := PStr ''gossip'', p_payload := PBytes (ex_pack (PDict [(PStr ''nodes'',
     PList (map to_dict [example_node\<lparr>ne_address := ''evil:1''\<rparr>, example_node\<lparr>ne_node_id := ''n2''\<rparr>]))]))\<rparr>"

lemma knows_one_facts [simp]:
  "ns_open knows_one" "get_node k (ns_db knows_one) = (if k = ''n1'' then Some example_node else None)"
  by (simp_all add: knows_one_def state0_def get_node_upsert)
    (auto simp: example_node_def empty_db_def get_node_def)

lemma gossip0_payload: "decode_payload env0 (p_payload gossip0) = Inr (PDict [(PStr ''nodes'',
   PList (map to_dict [example_node\<lparr>ne_address := ''evil:1''\<rparr>, example_node\<lparr>ne_node_id := ''n2''\<rparr>]))])"
  unfolding gossip0_def by (simp add: decode_payload_def ex_unpack_pack del: list.map ex_pack.simps)

theorem gossip_keeps_known_nodes_witness:
  "get_node ''n1'' (ns_db (snd (handle_gossip env0 gossip0 knows_one))) = Some example_node"
  by (rule conjunct1 [OF gossip_keeps_known_nodes [OF knows_one_facts(1) refl refl], rule_format]) simp

section \<open>Exchanging tables with an honest peer\<close>

lemma merge_to_dict:
  assumes "ns_open s"
  shows "\<exists>j now added. merge_node E (to_dict e) s = (Inr (),
    if ne_node_id e = [] \<or> ne_address e = [] \<or> get_node (ne_node_id e) (ns_db s) \<noteq> None then s
    else s\<lparr>w_tick := j, ns_db := upsert_node now (discovered (e_time E (w_tick s)) added (ne_node_id e)
           (ne_address e) (ne_type e) (ne_access e)) (ns_db s)\<rparr>)"
proof -
  let ?s = "s\<lparr>w_tick := Suc (Suc (w_tick s))\<rparr>"
  let ?n = "discovered (e_time E (w_tick s)) (e_time E (Suc (w_tick s))) (ne_node_id e)
           (ne_address e) (ne_type e) (ne_access e)"
  have get: "py_get (to_dict e) ''node_id'' v = Inr (PStr (ne_node_id e))"
    "py_get (to_dict e) ''address'' v = Inr (PStr (ne_address e))"
    "py_get (to_dict e) ''type'' v = Inr (PStr (ne_type e))"
    "py_get (to_dict e) ''access'' v = Inr (PStr (ne_access e))" for v
    by (simp_all add: to_dict_def)
  obtain j now where "upsertM E ?n ?s = (Inr (), s\<lparr>w_tick := j, ns_db := upsert_node now ?n (ns_db s)\<rparr>)"
    by (rule upsertM_apply [of ?s E ?n]) (use assms in auto)
  then have "add_discovered E (to_dict e) (PStr (ne_node_id e)) (PStr (ne_address e)) s
      = (Inr (), s\<lparr>w_tick := j, ns_db := upsert_node now ?n (ns_db s)\<rparr>)"
    by (simp add: add_discovered_def io_simps get)
  with assms show ?thesis
    by (intro exI [of _ j] exI [of _ now] exI [of _ "e_time E (Suc (w_tick s))"])
      (auto simp: merge_node_def io_simps get split: option.splits)
qed

text \<open>What merging the entries \<open>es\<close> into the table of \<open>d\<close> has to give: the known entries as they
  were, and for every other id the first usable entry of \<open>es\<close>, marked as seen now.\<close>

definition usable :: "string \<Rightarrow> NodeEntry \<Rightarrow> bool" where
  "usable k e \<longleftrightarrow> ne_node_id e = k \<and> k \<noteq> [] \<and> ne_address e \<noteq> []"

definition merged_at :: "env \<Rightarrow> db \<Rightarrow> NodeEntry list \<Rightarrow> db \<Rightarrow> string \<Rightarrow> bool" where
  "merged_at E d es d' k \<longleftrightarrow> (case get_node k d of
     Some e \<Rightarrow> get_node k d' = Some e
   | None \<Rightarrow> (case find (usable k) es of
       None \<Rightarrow> get_node k d' = None
     | Some e \<Rightarrow> (\<exists>t added. get_node k d' = Some (discovered (e_time E t) added k (ne_address e)
                     (ne_type e) (ne_access e)))))"

lemma merged_at_step:
  assumes "usable k e" "get_node k d = None"
    and m: "merged_at E (upsert_node now (discovered (e_time E t) added k (ne_address e) (ne_type e) (ne_access e)) d)
      es d' j"
  shows "merged_at E d (e # es) d' j"
proof -
  note up = get_node_discovered [OF assms(2)]
  have u: "usable j e \<longleftrightarrow> j = k" using assms(1) by (auto simp: usable_def)
  show ?thesis
  proof (cases "j = k")
    case True
    with m up u assms(2) show ?thesis by (simp add: merged_at_def) blast
  next
    case False
    with m up u show ?thesis by (cases "get_node j d") (simp_all add: merged_at_def)
  qed
qed

lemma merged_at_skip:
  assumes "ne_node_id e = [] \<or> ne_address e = [] \<or> get_node (ne_node_id e) d \<noteq> None" "merged_at E d es d' j"
  shows "merged_at E d (e # es) d' j"
proof (cases "get_node j d")
  case None
  with assms(1) have "\<not> usable j e" by (auto simp: usable_def)
  with None assms(2) show ?thesis by (simp add: merged_at_def)
next
  case (Some x)
  with assms(2) show ?thesis by (simp add: merged_at_def)
qed

lemma merge_all:
  "ns_open s \<Longrightarrow> \<exists>s'. forM (map to_dict es) (merge_node E) s = (Inr (), s') \<and>
     (\<forall>k. merged_at E (ns_db s) es (ns_db s') k)"
proof (induction es arbitrary: s)
  case Nil
  then show ?case by (auto simp: io_simps merged_at_def split: option.splits)
next
  case (Cons e es)
  obtain j now added where step: "merge_node E (to_dict e) s = (Inr (),
    if ne_node_id e = [] \<or> ne_address e = [] \<or> get_node (ne_node_id e) (ns_db s) \<noteq> None then s
    else s\<lparr>w_tick := j, ns_db := upsert_node now (discovered (e_time E (w_tick s)) added (ne_node_id e)
           (ne_address e) (ne_type e) (ne_access e)) (ns_db s)\<rparr>)" (is "_ = (_, ?s1)")
    using merge_to_dict [OF Cons.prems, of E e] by blast
  have "ns_open ?s1" using Cons.prems by simp
  then obtain s' where s': "forM (map to_dict es) (merge_node E) ?s1 = (Inr (), s')"
    "\<And>k. merged_at E (ns_db ?s1) es (ns_db s') k"
    using Cons.IH by blast
  have "merged_at E (ns_db s) (e # es) (ns_db s') k" for k
  proof (cases "ne_node_id e = [] \<or> ne_address e = [] \<or> get_node (ne_node_id e) (ns_db s) \<noteq> None")
    case True
    with s'(2) [of k] show ?thesis by (intro merged_at_skip) simp_all
  next
    case False
    with s'(2) [of k] show ?thesis by (intro merged_at_step [of "ne_node_id e"]) (simp_all add: usable_def)
  qed
  with s'(1) step show ?case by (auto simp: bindM_apply)
qed

lemma handle_gossip_tables:
  assumes "ns_open s" "decode_payload E (p_payload p) = Inr (PDict [(PStr ''nodes'', PList (map to_dict es))])"
  shows "\<exists>s'. handle_gossip E p s = (Inr (), s') \<and> (\<forall>k. merged_at E (ns_db s) es (ns_db s') k)"
  using merge_all [OF assms(1), of es E] assms(2)
  by (simp add: handle_gossip_def bindM_apply liftM_apply)

text \<open>
  C12: merging a peer's table is exact.  If the payload is the table \<open>es\<close> of a peer, as
  \<^verbatim>\<open>make_gossip\<close> encodes it, \<^verbatim>\<open>handle_gossip\<close> returns normally; for every id, a known entry stays
  as it is; an unknown id is added exactly when \<open>es\<close> has an entry for it with non-empty id and
  address, with the address, type and access of the first such entry; the new entry is
  \<^verbatim>\<open>online\<close> and last seen at the local clock, also when the peer marked the node offline.
\<close>
theorem gossip_merge_exact:
  assumes "ns_open s"
    and "decode_payload E (p_payload p) = Inr (PDict [(PStr ''nodes'', PList (map to_dict es))])"
  shows "\<exists>s'. handle_gossip E p s = (Inr (), s') \<and>
    (\<forall>k. case get_node k (ns_db s) of
       Some e \<Rightarrow> get_node k (ns_db s') = Some e
     | None \<Rightarrow> (case find (\<lambda>e. ne_node_id e = k \<and> k \<noteq> [] \<and> ne_address e \<noteq> []) es of
         None \<Rightarrow> get_node k (ns_db s') = None
       | Some e \<Rightarrow> (\<exists>e' t. get_node k (ns_db s') = Some e' \<and> ne_address e' = ne_address e \<and>
           ne_type e' = ne_type e \<and> ne_access e' = ne_access e \<and>
           ne_status e' = ''online'' \<and> ne_missed_pings e' = 0 \<and> ne_last_seen e' = e_time E t)))"
proof -
  obtain s' where s': "handle_gossip E p s = (Inr (), s')" "\<And>k. merged_at E (ns_db s) es (ns_db s') k"
    using handle_gossip_tables [OF assms] by blast
  have u: "(\<lambda>e. ne_node_id e = k \<and> k \<noteq> [] \<and> ne_address e \<noteq> []) = usable k" for k
    by (simp add: fun_eq_iff usable_def)
  have "case get_node k (ns_db s) of
       Some e \<Rightarrow> get_node k (ns_db s') = Some e
     | None \<Rightarrow> (case find (usable k) es of
         None \<Rightarrow> get_node k (ns_db s') = None
       | Some e \<Rightarrow> (\<exists>e' t. get_node k (ns_db s') = Some e' \<and> ne_address e' = ne_address e \<and>
           ne_type e' = ne_type e \<and> ne_access e' = ne_access e \<and>
           ne_status e' = ''online'' \<and> ne_missed_pings e' = 0 \<and> ne_last_seen e' = e_time E t))" for k
    using s'(2) [of k] by (auto simp: merged_at_def discovered_def split: option.splits)
  with s'(1) show ?thesis unfolding u by blast
qed

theorem gossip_merge_exact_witness:
  "\<exists>s' e'. handle_gossip env0 gossip0 knows_one = (Inr (), s') \<and>
     get_node ''n1'' (ns_db s') = Some example_node \<and>
     get_node ''n2'' (ns_db s') = Some e' \<and> ne_address e' = ''10.0.0.1:8765''"
proof -
  obtain s' where run: "handle_gossip env0 gossip0 knows_one = (Inr (), s')"
    and m: "\<forall>k. case get_node k (ns_db knows_one) of
       Some e \<Rightarrow> get_node k (ns_db s') = Some e
     | None \<Rightarrow> (case find (\<lambda>e. ne_node_id e = k \<and> k \<noteq> [] \<and> ne_address e \<noteq> [])
         [example_node\<lparr>ne_address := ''evil:1''\<rparr>, example_node\<lparr>ne_node_id := ''n2''\<rparr>] of
         None \<Rightarrow> get_node k (ns_db s') = None
       | Some e \<Rightarrow> (\<exists>e' t. get_node k (ns_db s') = Some e' \<and> ne_address e' = ne_address e \<and>
           ne_type e' = ne_type e \<and> ne_access e' = ne_access e \<and>
           ne_status e' = ''online'' \<and> ne_missed_pings e' = 0 \<and> ne_last_seen e' = e_time env0 t))"
    using gossip_merge_exact [OF knows_one_facts(1) gossip0_payload] by blast
  show ?thesis
    using run m [rule_format, of "''n1''"] m [rule_format, of "''n2''"] by (auto simp: example_node_def)
qed

section \<open>Pings\<close>

text \<open>Predicates of the database, its handle and the deliveries only.\<close>

definition on_core :: "(bool \<Rightarrow> db \<Rightarrow> Packet list \<Rightarrow> bool) \<Rightarrow> node_state \<Rightarrow> bool" where
  "on_core P s \<longleftrightarrow> P (ns_open s) (ns_db s) (ns_delivered s)"

lemma on_core_free: "world_free (on_core P)"
  by (simp add: world_free_def on_core_def)

lemma keeps_core_connect: "keeps (on_core P) (connect_to_node E nd n a)"
proof -
  have "keeps (on_core P) (conn_add c)" "keeps (on_core P) (spawn_recv_loop c)" for c
    by (simp_all add: keeps_def io_simps on_core_def)
  then show ?thesis
    unfolding connect_to_node_def open_and_auth_def by (intro keeps_intros on_core_free)
qed

lemma connect_core:
  assumes "connect_to_node E nd n a s = (r, s')"
  shows "ns_open s' = ns_open s" "ns_db s' = ns_db s" "ns_delivered s' = ns_delivered s"
  using keepsD [OF keeps_core_connect [of "\<lambda>op d dl. op = ns_open s \<and> d = ns_db s \<and> dl = ns_delivered s"
        E nd n a], of s] assms
  by (simp_all add: on_core_def)

text \<open>What is sent is only ever appended.\<close>

definition sent_after :: "(ws \<times> bytes) list \<Rightarrow> node_state \<Rightarrow> bool" where
  "sent_after l s \<longleftrightarrow> (\<exists>x. w_sent s = l @ x)"

lemma keeps_sent_calls:
  "keeps (sent_after l) tickM" "keeps (sent_after l) (ws_send E w b)" "keeps (sent_after l) (conn_add c)"
  "keeps (sent_after l) (spawn_recv_loop c)" "keeps (sent_after l) (conn_get k)"
  by (auto simp: keeps_def io_simps sent_after_def split: option.splits)


lemma keeps_sent_packet:
  "keeps (sent_after l) (new_packet E ty pl f a)" "keeps (sent_after l) (payload_packet E ty d f a)"
  unfolding payload_packet_def new_packet_def uuid4_def time_now_def by (intro keeps_intros keeps_sent_calls)+

lemma keeps_sent_connect: "keeps (sent_after l) (connect_to_node E nd n a)"
proof -
  have r: "keeps (sent_after l) (make_response E i v u sg en)" for i v u sg en
    unfolding make_response_def make_auth_response_def by (cases u) (auto intro!: keeps_intros keeps_sent_packet)
  show ?thesis
    unfolding connect_to_node_def open_and_auth_def do_auth_def auth_exchange_def make_challenge_def
      make_auth_challenge_def auth_answer_def auth_conclude_def ws_connect_def ws_recv_def urandom_def
    by (intro keeps_intros keeps_sent_calls keeps_sent_packet r)
qed

lemma connect_conns:
  assumes "connect_to_node E nd n a s = (r, s')" "n \<noteq> []"
  shows "ns_conns s' = (case r of Inl e \<Rightarrow> ns_conns s | Inr c \<Rightarrow> dict_set n c (ns_conns s))"
proof (cases "e_dial E (w_tick s) (''ws://'' @ a)")
  case (Inr ws)
  let ?I = "\<lambda>t. ns_conns t = ns_conns s" and ?s = "s\<lparr>w_tick := Suc (w_tick s)\<rparr>"
  obtain q s2 where q: "do_auth E nd ws (Some n) ?s = (q, s2)" by (cases "do_auth E nd ws (Some n) ?s")
  have "world_free ?I" by (simp add: world_free_def)
  from keepsD [OF keeps_conn_io(4) [OF this], of ?s E nd ws "Some n"] q have "ns_conns s2 = ns_conns s" by simp
  moreover have "pc_peer_node_id c = n" if "q = Inr c" for c
    using do_auth_sound [of E nd ws "Some n" ?s c s2] q that assms(2) by simp
  ultimately show ?thesis
    using assms(1) q Inr
    by (cases q) (auto simp: connect_to_node_def open_and_auth_def bindM_apply registry_apply returnM_apply ws_connect_apply)
qed (use assms in \<open>auto simp: connect_to_node_def open_and_auth_def bindM_apply ws_connect_apply\<close>)

lemma connect_effect:
  assumes "connect_to_node E nd n a s = (r, s')" "n \<noteq> []"
  shows "k \<noteq> n \<Longrightarrow> dict_get (ns_conns s') k = dict_get (ns_conns s) k"
    "r = Inr c \<Longrightarrow> dict_get (ns_conns s') n = Some c"
  using connect_conns [OF assms] by (auto simp: dict_get_set split: sum.splits)

lemma send_via_cases:
  "(\<exists>q b. transport_sign E nd p = Inr q \<and> pack E q = Inr b \<and>
     send_via E nd c p s = (Inr (), s\<lparr>w_tick := Suc (w_tick s), w_sent := w_sent s @ [(pc_ws c, b)]\<rparr>)) \<or>
   (\<exists>e j. send_via E nd c p s = (Inl e, s\<lparr>w_tick := j\<rparr>))"
proof -
  have same: "\<exists>j. s = s\<lparr>w_tick := j\<rparr>" by (rule exI [of _ "w_tick s"]) simp
  then show ?thesis
    by (auto simp: send_via_def conn_send_def io_simps split: sum.splits option.splits)
qed

text \<open>The bytes of a signed ping for a node.\<close>

definition ping_frame :: "env \<Rightarrow> Node \<Rightarrow> string \<Rightarrow> bytes \<Rightarrow> bool" where
  "ping_frame E nd n b \<longleftrightarrow> (\<exists>u t q.
     transport_sign E nd (typed_packet u T_PING (my_id nd) n [] [] t PROTO_VERSION) = Inr q \<and> pack E q = Inr b)"

lemma ping_send:
  assumes "ns_open s"
  shows "\<exists>ok t j x. bindM (make_ping E (my_id nd) n) (\<lambda>pkt.
      tryM (bindM (send_via E nd c pkt) (\<lambda>_. db_write_now E (\<lambda>now. update_node_ping now n True)))
        (\<lambda>e. db_write_now E (\<lambda>now. update_node_ping now n False))) s
    = (Inr (), s\<lparr>w_tick := j, w_sent := w_sent s @ x, ns_db := update_node_ping (e_time E t) n ok (ns_db s)\<rparr>) \<and>
    (if ok then \<exists>b. x = [(pc_ws c, b)] \<and> ping_frame E nd n b else x = []) \<and>
    (node_ok E nd \<and> wire_str n \<and> (\<forall>k b. e_send E k (pc_ws c) b = None) \<longrightarrow> ok)"
proof -
  let ?m = "\<lambda>pkt. tryM (bindM (send_via E nd c pkt) (\<lambda>_. db_write_now E (\<lambda>now. update_node_ping now n True)))
        (\<lambda>e. db_write_now E (\<lambda>now. update_node_ping now n False))"
  let ?s = "s\<lparr>w_tick := Suc (Suc (w_tick s))\<rparr>"
  let ?p = "typed_packet (e_uuid E (w_tick s)) T_PING (my_id nd) n [] [] (e_time E (Suc (w_tick s))) PROTO_VERSION"
  have new: "new_packet E T_PING (PBytes []) (PStr (my_id nd)) (PStr n) s = (Inr ?p, ?s)"
    by (simp add: new_packet_apply typed_packet_def)
  then have pkt: "bindM (make_ping E (my_id nd) n) ?m s = ?m ?p ?s"
    by (simp add: make_ping_def bindM_apply)
  have good: "fst (send_via E nd c ?p ?s) = Inr ()"
    if g: "node_ok E nd" "wire_str n" "\<forall>k b. e_send E k (pc_ws c) b = None"
  proof -
    obtain b where "bindM (new_packet E T_PING (PBytes []) (PStr (my_id nd)) (PStr n)) (send_via E nd c) s =
        (Inr (), s\<lparr>w_tick := w_tick s + 3, w_sent := w_sent s @ [(pc_ws c, b)]\<rparr>)"
      by (rule send_fresh [OF g(1) _ node_id_wire [OF g(1)] g(2), of T_PING "[]" c s])
        (use g(3) in \<open>auto simp: Let_def\<close>)
    with new show ?thesis by (simp add: bindM_apply)
  qed
  consider q b where "transport_sign E nd ?p = Inr q" "pack E q = Inr b"
      "send_via E nd c ?p ?s = (Inr (), ?s\<lparr>w_tick := Suc (w_tick ?s), w_sent := w_sent ?s @ [(pc_ws c, b)]\<rparr>)"
    | e j where "send_via E nd c ?p ?s = (Inl e, ?s\<lparr>w_tick := j\<rparr>)"
    using send_via_cases [of E nd ?p c ?s] by blast
  then show ?thesis
  proof cases
    case 1
    then have "ping_frame E nd n b" unfolding ping_frame_def by blast
    with 1(3) assms show ?thesis
      unfolding pkt
      by (intro exI [of _ True] exI [of _ "Suc (Suc (Suc (w_tick s)))"]
          exI [of _ "Suc (Suc (Suc (Suc (w_tick s))))"] exI [of _ "[(pc_ws c, b)]"])
        (simp add: db_write_now_def io_simps)
  next
    case 2
    then have "fst (send_via E nd c ?p ?s) \<noteq> Inr ()" by (simp del: T_PING_def)
    then have bad: "\<not> (node_ok E nd \<and> wire_str n \<and> (\<forall>k b. e_send E k (pc_ws c) b = None))" using good by blast
    have "?m ?p ?s = (Inr (), s\<lparr>w_tick := Suc j, ns_db := update_node_ping (e_time E j) n False (ns_db s)\<rparr>)"
      using 2 assms by (simp add: db_write_now_def io_simps)
    with bad show ?thesis
      unfolding pkt
      by - (rule exI [of _ False], rule exI [of _ j], rule exI [of _ "Suc j"], rule exI [of _ "[]"], simp)
  qed
qed

text \<open>What one ping of a node \<open>n\<close> did between two states: whether it counted as a hit, what was sent to
  set up a connection, and the ping itself.\<close>

definition pinged :: "env \<Rightarrow> Node \<Rightarrow> string \<Rightarrow> bool \<Rightarrow> (ws \<times> bytes) list \<Rightarrow> (ws \<times> bytes) list \<Rightarrow> node_state \<Rightarrow> node_state \<Rightarrow> bool" where
  "pinged E nd n ok pre out s s' \<longleftrightarrow>
     (if ok then \<exists>c b. out = [(pc_ws c, b)] \<and> ping_frame E nd n b \<and> (n \<noteq> [] \<longrightarrow> dict_get (ns_conns s') n = Some c) else out = []) \<and>
     (\<forall>c. dict_get (ns_conns s) n = Some c \<longrightarrow> pre = [] \<and> (ok \<longrightarrow> (\<exists>b. out = [(pc_ws c, b)])) \<and>
        (node_ok E nd \<and> wire_str n \<and> (\<forall>k b. e_send E k (pc_ws c) b = None) \<longrightarrow> ok))"

lemma ping_effect:
  assumes "ns_open s"
  shows "\<exists>ok t pre out s'. ping_node E nd e s = (Inr (), s') \<and>
    ns_db s' = update_node_ping (e_time E t) (ne_node_id e) ok (ns_db s) \<and>
    ns_open s' \<and> ns_delivered s' = ns_delivered s \<and> w_sent s' = w_sent s @ pre @ out \<and>
    pinged E nd (ne_node_id e) ok pre out s s' \<and>
    (ne_node_id e \<noteq> [] \<longrightarrow> (\<forall>k. k \<noteq> ne_node_id e \<longrightarrow> dict_get (ns_conns s') k = dict_get (ns_conns s) k)) \<and>
    (dict_get (ns_conns s) (ne_node_id e) = None \<and>
       (\<forall>t. \<exists>x. e_dial E t (''ws://'' @ ne_address e) = Inl x) \<longrightarrow> \<not> ok)"
proof (cases "dict_get (ns_conns s) (ne_node_id e)")
  case (Some c)
  let ?n = "ne_node_id e"
  obtain ok t j x where s': "bindM (make_ping E (my_id nd) ?n) (\<lambda>pkt.
      tryM (bindM (send_via E nd c pkt) (\<lambda>_. db_write_now E (\<lambda>now. update_node_ping now ?n True)))
        (\<lambda>e. db_write_now E (\<lambda>now. update_node_ping now ?n False))) s
    = (Inr (), s\<lparr>w_tick := j, w_sent := w_sent s @ x, ns_db := update_node_ping (e_time E t) ?n ok (ns_db s)\<rparr>)"
    "if ok then \<exists>b. x = [(pc_ws c, b)] \<and> ping_frame E nd ?n b else x = []"
    "node_ok E nd \<and> wire_str ?n \<and> (\<forall>k b. e_send E k (pc_ws c) b = None) \<longrightarrow> ok"
    using ping_send [OF assms, of E nd ?n c] by blast
  let ?s = "s\<lparr>w_tick := j, w_sent := w_sent s @ x, ns_db := update_node_ping (e_time E t) ?n ok (ns_db s)\<rparr>"
  have "ping_node E nd e s = (Inr (), ?s)"
    using Some s'(1) by (simp add: ping_node_def bindM_apply [of "conn_get _"] registry_apply)
  moreover have "pinged E nd ?n ok [] x s ?s"
    using s'(2,3) Some by (auto simp: pinged_def simp del: T_PING_def split: if_splits)
  ultimately show ?thesis
    using assms Some
    by - (rule exI [of _ ok], rule exI [of _ t], rule exI [of _ "[]"], rule exI [of _ x], rule exI [of _ ?s], simp)
next
  case None
  let ?n = "ne_node_id e"
  obtain r s1 where con: "connect_to_node E nd ?n (ne_address e) s = (r, s1)"
    by (cases "connect_to_node E nd ?n (ne_address e) s")
  note core = connect_core [OF con]
  have "\<exists>x. w_sent s1 = w_sent s @ x"
    using keepsD [OF keeps_sent_connect [of "w_sent s" E nd ?n "ne_address e"], of s] con by (simp add: sent_after_def)
  then obtain pre where pre: "w_sent s1 = w_sent s @ pre" by blast
  show ?thesis
  proof (cases r)
    case (Inl x)
    let ?s = "s1\<lparr>w_tick := Suc (w_tick s1), ns_db := update_node_ping (e_time E (w_tick s1)) ?n False (ns_db s1)\<rparr>"
    have "ping_node E nd e s = (Inr (), ?s)"
      using Inl None con core assms by (simp add: ping_node_def db_write_now_def io_simps)
    then show ?thesis
      using core assms None pre connect_effect(1) [OF con]
      by - (rule exI [of _ False], rule exI [of _ "w_tick s1"], rule exI [of _ pre], rule exI [of _ "[]"],
          rule exI [of _ ?s], simp add: pinged_def)
  next
    case (Inr c)
    have no: "\<not> (\<forall>t. \<exists>x. e_dial E t (''ws://'' @ ne_address e) = Inl x)"
    proof
      assume "\<forall>t. \<exists>x. e_dial E t (''ws://'' @ ne_address e) = Inl x"
      then obtain x where "e_dial E (w_tick s) (''ws://'' @ ne_address e) = Inl x" by blast
      with con Inr show False by (simp add: connect_to_node_def open_and_auth_def io_simps)
    qed
    have go: "ping_node E nd e s = bindM (make_ping E (my_id nd) ?n) (\<lambda>pkt.
        tryM (bindM (send_via E nd c pkt) (\<lambda>_. db_write_now E (\<lambda>now. update_node_ping now ?n True)))
          (\<lambda>x. db_write_now E (\<lambda>now. update_node_ping now ?n False))) s1"
      using None con Inr
      by (simp add: ping_node_def bindM_apply [of "conn_get _"] registry_apply bindM_apply [of "tryM _ _"]
          bindM_apply [of "connect_to_node _ _ _ _"] tryM_apply returnM_apply)
    have op: "ns_open s1" using core assms by simp
    obtain ok t j x where p: "bindM (make_ping E (my_id nd) ?n) (\<lambda>pkt.
        tryM (bindM (send_via E nd c pkt) (\<lambda>_. db_write_now E (\<lambda>now. update_node_ping now ?n True)))
          (\<lambda>x. db_write_now E (\<lambda>now. update_node_ping now ?n False))) s1
      = (Inr (), s1\<lparr>w_tick := j, w_sent := w_sent s1 @ x,
           ns_db := update_node_ping (e_time E t) ?n ok (ns_db s1)\<rparr>)"
      "if ok then \<exists>b. x = [(pc_ws c, b)] \<and> ping_frame E nd ?n b else x = []"
      using ping_send [OF op, of E nd ?n c] by blast
    let ?s = "s1\<lparr>w_tick := j, w_sent := w_sent s1 @ x, ns_db := update_node_ping (e_time E t) ?n ok (ns_db s1)\<rparr>"
    have "pinged E nd ?n ok pre x s ?s"
      using p(2) None connect_effect(2) [OF con _ Inr]
      by (auto simp: pinged_def simp del: T_PING_def split: if_splits)
    then show ?thesis
      unfolding go p(1) using core op None no pre connect_effect(1) [OF con]
      by - (rule exI [of _ ok], rule exI [of _ t], rule exI [of _ pre], rule exI [of _ x], rule exI [of _ ?s], force)
  qed
qed

text \<open>
  a ping always settles.  With the storage open, \<^verbatim>\<open>_ping_node\<close> returns normally whatever the
  network does, and its effect on the database is exactly one \<^verbatim>\<open>update_node_ping\<close> of that node;
  over an existing connection it counts as success if and only if the one ping frame was
  handed to the socket; without a connection and with the address refusing connections it
  counts as a miss.
\<close>
theorem ping_node_settles:
  assumes "ns_open s"
  shows "\<exists>ok t s'. ping_node E nd e s = (Inr (), s') \<and>
    ns_db s' = update_node_ping (e_time E t) (ne_node_id e) ok (ns_db s) \<and>
    ns_open s' \<and> ns_delivered s' = ns_delivered s \<and>
    (\<forall>c. dict_get (ns_conns s) (ne_node_id e) = Some c \<longrightarrow>
       (if ok then \<exists>b. w_sent s' = w_sent s @ [(pc_ws c, b)] else w_sent s' = w_sent s)) \<and>
    (dict_get (ns_conns s) (ne_node_id e) = None \<and>
       (\<forall>t. \<exists>x. e_dial E t (''ws://'' @ ne_address e) = Inl x) \<longrightarrow> \<not> ok)"
proof -
  obtain ok t pre out s' where p: "ping_node E nd e s = (Inr (), s')"
    "ns_db s' = update_node_ping (e_time E t) (ne_node_id e) ok (ns_db s)" "ns_open s'" "ns_delivered s' = ns_delivered s"
    "w_sent s' = w_sent s @ pre @ out" "pinged E nd (ne_node_id e) ok pre out s s'"
    "dict_get (ns_conns s) (ne_node_id e) = None \<and> (\<forall>t. \<exists>x. e_dial E t (''ws://'' @ ne_address e) = Inl x) \<longrightarrow> \<not> ok"
    using ping_effect [OF assms, of E nd e] by blast
  have c: "if ok then \<exists>b. w_sent s' = w_sent s @ [(pc_ws c, b)] else w_sent s' = w_sent s"
    if "dict_get (ns_conns s) (ne_node_id e) = Some c" for c
    using p(5,6) that by (auto simp: pinged_def split: if_splits)
  show ?thesis
    by (rule exI [of _ ok], rule exI [of _ t], rule exI [of _ s']) (use p(1-4,7) c in blast)
qed

theorem ping_node_settles_witness:
  "\<exists>t s'. ping_node (env0\<lparr>e_dial := \<lambda>t u. Inl ConnectError\<rparr>) nd0 example_node knows_one = (Inr (), s') \<and>
     ns_db s' = update_node_ping t ''n1'' False (ns_db knows_one)"
proof -
  let ?E = "env0\<lparr>e_dial := \<lambda>t u. Inl ConnectError\<rparr>"
  have "dict_get (ns_conns knows_one) (ne_node_id example_node) = None"
    by (simp add: knows_one_def state0_def dict_get_def)
  then show ?thesis
    using ping_node_settles [OF knows_one_facts(1), of ?E nd0 example_node]
    by (auto simp: example_node_def)
qed

text \<open>The script of received frames does not matter to signing and sending.\<close>

lemma py_str_recv [simp]: "py_str (E\<lparr>e_recv := r\<rparr>) v = py_str E v"
  by (cases v) auto

lemma send_recv_irrelevant:
  "new_packet (E\<lparr>e_recv := r\<rparr>) t pl f a s = new_packet E t pl f a s"
  "send_via (E\<lparr>e_recv := r\<rparr>) nd c p s = send_via E nd c p s"
  by (simp_all add: new_packet_apply send_via_def conn_send_def transport_sign_def sign_packet_def
      sign_data_def io_simps split: sum.splits)

text \<open>
  a connected peer that never answers stays online.  While the socket accepts frames, a
  ping marks the peer online, seen now, with no missed pings, and what the peer sends back, if
  anything, has no influence: the result is the same for every script of received frames.
  Only a failed send counts as a missed ping; nothing waits for the pong.
\<close>
theorem silent_peer_stays_online:
  assumes "node_ok E nd" and "ns_open s" and "wire_str (ne_node_id e)"
    and "dict_get (ns_conns s) (ne_node_id e) = Some c" and "\<And>k b. e_send E k (pc_ws c) b = None"
    and "get_node (ne_node_id e) (ns_db s) = Some old"
  shows "\<exists>t s'. ping_node E nd e s = (Inr (), s') \<and>
    get_node (ne_node_id e) (ns_db s') =
      Some (old\<lparr>ne_last_seen := e_time E t, ne_missed_pings := 0, ne_status := ''online''\<rparr>) \<and>
    ping_node (E\<lparr>e_recv := r\<rparr>) nd e s = (Inr (), s')"
proof -
  obtain sg b where sent: "bindM (new_packet E T_PING (PBytes []) (PStr (my_id nd)) (PStr (ne_node_id e)))
      (send_via E nd c) s = (Inr (), s\<lparr>w_tick := w_tick s + 3, w_sent := w_sent s @ [(pc_ws c, b)]\<rparr>)"
    by (rule send_fresh [OF assms(1) _ node_id_wire [OF assms(1)] assms(3), of T_PING "[]" c s])
      (auto simp: Let_def assms(5))
  have run: "ping_node F nd e s = (Inr (), s\<lparr>w_tick := w_tick s + 4, w_sent := w_sent s @ [(pc_ws c, b)],
      ns_db := update_node_ping (e_time E (w_tick s + 3)) (ne_node_id e) True (ns_db s)\<rparr>)"
    if F: "\<And>t pl f a (s :: node_state). new_packet F t pl f a s = new_packet E t pl f a s"
      "\<And>c p s. send_via F nd c p s = send_via E nd c p s" "e_time F = e_time E" for F
  proof -
    obtain p s1 where p: "new_packet E T_PING (PBytes []) (PStr (my_id nd)) (PStr (ne_node_id e)) s = (Inr p, s1)"
      by (simp add: new_packet_apply)
    have "send_via E nd c p s1 = (Inr (), s\<lparr>w_tick := w_tick s + 3, w_sent := w_sent s @ [(pc_ws c, b)]\<rparr>)"
      using sent p by (simp add: bindM_apply)
    with assms(2,4) p show ?thesis
      by (simp add: ping_node_def make_ping_def bindM_apply registry_apply returnM_apply tryM_apply F
          db_write_now_def time_now_apply db_write_apply eval_nat_numeral)
  qed
  show ?thesis
    using run [of E] run [of "E\<lparr>e_recv := r\<rparr>"] assms(6)
    by (auto simp: send_recv_irrelevant get_node_ping spec_ping_def)
qed

theorem silent_peer_stays_online_witness:
  "\<exists>s' e. ping_node env0 nd0 example_node (knows_one\<lparr>ns_conns := [(''n1'', peer1)]\<rparr>) = (Inr (), s') \<and>
     get_node ''n1'' (ns_db s') = Some e \<and> ne_status e = ''online'' \<and> ne_missed_pings e = 0"
proof -
  have w: "wire_str (ne_node_id example_node)" by (simp add: example_node_def Let_def)
  show ?thesis
    using silent_peer_stays_online [OF node_ok_env0 _ w, of "knows_one\<lparr>ns_conns := [(''n1'', peer1)]\<rparr>" peer1
        example_node]
    by (fastforce simp: dict_get_def example_node_def)
qed

section \<open>A round\<close>

type_synonym mark = "string \<times> bool \<times> int \<times> (ws \<times> bytes) list \<times> (ws \<times> bytes) list"

definition apply_marks :: "mark list \<Rightarrow> db \<Rightarrow> db" where
  "apply_marks marks d = fold (\<lambda>(n, ok, t, _). update_node_ping t n ok) marks d"

lemma apply_marks_simps [simp]:
  "apply_marks [] d = d" "apply_marks ((n, ok, t, x) # ms) d = apply_marks ms (update_node_ping t n ok d)"
  by (simp_all add: apply_marks_def)

definition sent_by :: "mark list \<Rightarrow> (ws \<times> bytes) list" where
  "sent_by marks = concat (map (\<lambda>(n, ok, t, pre, out). pre @ out) marks)"

lemma sent_by_simps [simp]: "sent_by [] = []" "sent_by ((n, ok, t, pre, out) # ms) = pre @ out @ sent_by ms"
  by (simp_all add: sent_by_def)






end
