(* ===== verification/Nevod_Text.thy ===== *)
theory Nevod_Text
  imports Nevod_Prelude
begin

text \<open>
  Python's text methods the command line and the address parser use: \<^verbatim>\<open>s.strip()\<close>,
  \<^verbatim>\<open>s.split()\<close>, \<^verbatim>\<open>s.split(sep, 1)\<close> for a longer separator, \<^verbatim>\<open>s.startswith(p)\<close> and the slice
  \<^verbatim>\<open>s[:n]\<close>.  A string is the list of its UTF-8 bytes; \<open>points\<close> cuts it into code points, a
  lead byte with the continuation bytes that follow it, so that white space and slices are
  those of Python's characters.
\<close>

section \<open>Code points\<close>

fun points :: "string \<Rightarrow> string list" where
  "points [] = []"
| "points (c # s) =
     (case points s of
        [] \<Rightarrow> [[c]]
      | p # ps \<Rightarrow> if p \<noteq> [] \<and> cont (hd p) then (c # p) # ps else [c] # p # ps)"

text \<open>The code points for which \<^verbatim>\<open>str.isspace\<close> holds: U+0009 to U+000D, U+001C to U+0020, U+0085,
  U+00A0, U+1680, U+2000 to U+200A, U+2028, U+2029, U+202F, U+205F, U+3000.\<close>

definition ws_point :: "string \<Rightarrow> bool" where
  "ws_point p =
     (case map (of_char :: char \<Rightarrow> nat) p of
        [a] \<Rightarrow> (9 \<le> a \<and> a \<le> 13) \<or> (28 \<le> a \<and> a \<le> 32)
      | [a, b] \<Rightarrow> a = 194 \<and> (b = 133 \<or> b = 160)
      | [a, b, c] \<Rightarrow>
          (a = 225 \<and> b = 154 \<and> c = 128) \<or>
          (a = 226 \<and> b = 128 \<and> (c \<le> 138 \<or> c = 168 \<or> c = 169 \<or> c = 175)) \<or>
          (a = 226 \<and> b = 129 \<and> c = 159) \<or>
          (a = 227 \<and> b = 128 \<and> c = 128)
      | _ \<Rightarrow> False)"

section \<open>Methods\<close>

definition py_strip :: "string \<Rightarrow> string" where
  "py_strip s = concat (rev (dropWhile ws_point (rev (dropWhile ws_point (points s)))))"

fun split_points :: "string \<Rightarrow> string list \<Rightarrow> string list" where
  "split_points cur [] = (if cur = [] then [] else [cur])"
| "split_points cur (p # ps) =
     (if ws_point p then (if cur = [] then split_points [] ps else cur # split_points [] ps)
      else split_points (cur @ p) ps)"

definition py_split :: "string \<Rightarrow> string list" where
  "py_split s = split_points [] (points s)"

definition py_take :: "nat \<Rightarrow> string \<Rightarrow> string" where
  "py_take n s = concat (take n (points s))"

definition starts_with :: "string \<Rightarrow> string \<Rightarrow> bool" where
  "starts_with p s = (take (length p) s = p)"

fun split_on :: "string \<Rightarrow> string \<Rightarrow> (string \<times> string) option" where
  "split_on sep [] = None"
| "split_on sep (c # s) =
     (if starts_with sep (c # s) then Some ([], drop (length sep) (c # s))
      else map_option (\<lambda>(a, b). (c # a, b)) (split_on sep s))"

section \<open>Their laws\<close>

lemma points_nonempty: "p \<in> set (points s) \<Longrightarrow> p \<noteq> []"
  by (induction s arbitrary: p) (auto split: list.splits if_splits)

lemma concat_points [simp]: "concat (points s) = s"
  by (induction s) (auto split: list.splits)

lemma points_Nil_iff [simp]: "points s = [] \<longleftrightarrow> s = []"
  by (cases s) (auto split: list.splits)

text \<open>A string that begins a character, so that nothing before it is joined with it.\<close>

definition begins :: "string \<Rightarrow> bool" where
  "begins s \<longleftrightarrow> s = [] \<or> \<not> cont (hd s)"

lemma hd_points: "s \<noteq> [] \<Longrightarrow> hd (hd (points s)) = hd s"
  by (cases s) (auto split: list.splits)

lemma points_append: "begins b \<Longrightarrow> points (a @ b) = points a @ points b"
proof (induction a)
  case (Cons c a)
  show ?case
  proof (cases "points a")
    case Nil
    then have "a = []" by simp
    with Cons.prems show ?thesis
      using hd_points [of b] by (cases "points b"; cases b) (auto simp: begins_def)
  next
    case (Cons p ps)
    with Cons.IH [OF Cons.prems] show ?thesis by simp
  qed
qed simp

lemma begins_ascii [simp]: "(of_char c :: nat) < 128 \<Longrightarrow> begins (c # s)"
  by (simp add: begins_def)

lemma begins_append: "begins a \<Longrightarrow> a \<noteq> [] \<Longrightarrow> begins (a @ b)"
  by (cases a) (auto simp: begins_def)

lemma points_ascii: "(\<And>c. c \<in> set s \<Longrightarrow> (of_char c :: nat) < 128) \<Longrightarrow> points s = map (\<lambda>c. [c]) s"
proof (induction s)
  case (Cons c s)
  have "begins s" using Cons.prems [of "hd s"] by (cases s) (auto simp: begins_def)
  then show ?case using points_append [of s "[c]"] Cons by simp
qed simp

lemma utf8_ok_append: "utf8_ok a \<Longrightarrow> utf8_ok b \<Longrightarrow> utf8_ok (a @ b)"
  by (induction a rule: utf8_ok.induct) (auto simp: Let_def split: if_splits list.splits)

lemma utf8_begins: "utf8_ok s \<Longrightarrow> begins s"
  by (cases s) (auto simp: begins_def Let_def split: if_splits)

lemma utf8_ok_first:
  assumes "utf8_ok (x # s)"
  shows "\<exists>p t. s = p @ t \<and> utf8_ok t \<and> (\<forall>c \<in> set p. cont c)"
proof -
  consider "(of_char x :: nat) < 128" "utf8_ok s"
    | b t where "s = [b] @ t" "cont b" "utf8_ok t" "\<not> (of_char x :: nat) < 128"
    | b c t where "s = [b, c] @ t" "cont b" "cont c" "utf8_ok t" "\<not> (of_char x :: nat) < 128"
    | b c d t where "s = [b, c, d] @ t" "cont b" "cont c" "cont d" "utf8_ok t" "\<not> (of_char x :: nat) < 128"
    using assms by (auto simp: Let_def split: if_splits list.splits)
  then show ?thesis
  proof cases
    case 1
    then show ?thesis by (intro exI [of _ "[]"] exI [of _ s]) simp
  next
    case (2 b t)
    then show ?thesis by (intro exI [of _ "[b]"] exI [of _ t]) simp
  next
    case (3 b c t)
    then show ?thesis by (intro exI [of _ "[b, c]"] exI [of _ t]) simp
  next
    case (4 b c d t)
    then show ?thesis by (intro exI [of _ "[b, c, d]"] exI [of _ t]) simp
  qed
qed

lemma utf8_ok_after: "utf8_ok (a @ c # b) \<Longrightarrow> (of_char c :: nat) < 128 \<Longrightarrow> utf8_ok b"
proof (induction "length a" arbitrary: a rule: less_induct)
  case less
  show ?case
  proof (cases a)
    case Nil
    with less.prems show ?thesis by (simp add: Let_def)
  next
    case (Cons x a')
    obtain p t where p: "a' @ c # b = p @ t" "utf8_ok t" "\<forall>c \<in> set p. cont c"
      using utf8_ok_first [of x "a' @ c # b"] less.prems(1) unfolding Cons append_Cons by blast
    from p(1) obtain us where "(a' @ us = p \<and> c # b = us @ t) \<or> (a' = p @ us \<and> us @ c # b = t)"
      unfolding append_eq_append_conv2 by auto
    then consider "us = []" "t = c # b" | "us \<noteq> []" "c \<in> set p" | "a' = p @ us" "us @ c # b = t"
      by (cases us) auto
    then show ?thesis
    proof cases
      case 1
      with p(2) less.prems(2) show ?thesis by (simp add: Let_def)
    next
      case 2
      with p(3) less.prems(2) show ?thesis by fastforce
    next
      case 3
      then show ?thesis using less.hyps [of us] less.prems(2) p(2) Cons by simp
    qed
  qed
qed

text \<open>A word: not empty and without white space.\<close>

definition word :: "string \<Rightarrow> bool" where
  "word s \<longleftrightarrow> s \<noteq> [] \<and> utf8_ok s \<and> (\<forall>p \<in> set (points s). \<not> ws_point p)"

lemma word_append: "word a \<Longrightarrow> word b \<Longrightarrow> word (a @ b)"
  by (auto simp: word_def points_append utf8_begins utf8_ok_append)

lemma word_space: "word s \<Longrightarrow> CHR '' '' \<notin> set s"
proof
  assume w: "word s" and "CHR '' '' \<in> set s"
  then obtain a b where s: "s = a @ CHR '' '' # b" by (meson split_list)
  have "begins b" using w utf8_ok_after [of a "CHR '' ''" b] by (simp add: word_def s utf8_begins)
  then have "points s = points a @ [CHR '' ''] # points b"
    using points_append [of "CHR '' '' # b" a] points_append [of b "'' ''"] by (simp add: s)
  with w show False by (auto simp: word_def ws_point_def)
qed

lemma split_points_word:
  "\<forall>p \<in> set ps. \<not> ws_point p \<Longrightarrow> split_points cur (ps @ qs) = split_points (cur @ concat ps) qs"
  by (induction ps arbitrary: cur) auto

lemma split_word_end: "word s \<Longrightarrow> py_split s = [s]"
  using split_points_word [of "points s" "[]" "[]"] by (auto simp: word_def py_split_def)

lemma split_word: "word s \<Longrightarrow> begins t \<Longrightarrow> py_split (s @ CHR '' '' # t) = s # py_split t"
proof -
  assume w: "word s" and t: "begins t"
  have "points (CHR '' '' # t) = [CHR '' ''] # points t"
    using points_append [OF t, of "'' ''"] by simp
  then have "points (s @ CHR '' '' # t) = points s @ [CHR '' ''] # points t"
    using points_append [of "CHR '' '' # t" s] by simp
  then show ?thesis
    using w split_points_word [of "points s" "[]" "[CHR '' ''] # points t"]
    by (auto simp: word_def py_split_def ws_point_def)
qed

lemma strip_points:
  "ps = [] \<or> (\<not> ws_point (hd ps) \<and> \<not> ws_point (last ps)) \<Longrightarrow>
   rev (dropWhile ws_point (rev (dropWhile ws_point ps))) = ps"
proof (cases ps rule: rev_cases)
  case (snoc qs q)
  moreover assume "ps = [] \<or> (\<not> ws_point (hd ps) \<and> \<not> ws_point (last ps))"
  ultimately show ?thesis by (cases qs) auto
qed simp

text \<open>Text without white space at its ends.\<close>

definition trimmed :: "string \<Rightarrow> bool" where
  "trimmed s \<longleftrightarrow> s \<noteq> [] \<and> utf8_ok s \<and> \<not> ws_point (hd (points s)) \<and> \<not> ws_point (last (points s))"

lemma strip_trimmed: "trimmed s \<Longrightarrow> py_strip s = s"
  using strip_points [of "points s"] by (simp add: py_strip_def trimmed_def)

lemma strip_line: "trimmed s \<Longrightarrow> py_strip (s @ [CHR 0x0A]) = s"
proof -
  assume t: "trimmed s"
  have "points (s @ [CHR 0x0A]) = points s @ [[CHR 0x0A]]"
    using points_append [of "[CHR 0x0A]" s] by simp
  moreover have "ws_point [CHR 0x0A]" by (simp add: ws_point_def)
  moreover have "dropWhile ws_point (points s @ [[CHR 0x0A]]) = points s @ [[CHR 0x0A]]"
    using t by (cases "points s") (auto simp: trimmed_def)
  moreover have "dropWhile ws_point (rev (points s)) = rev (points s)"
    using t by (cases "points s" rule: rev_cases) (auto simp: trimmed_def)
  ultimately show ?thesis by (simp add: py_strip_def)
qed

lemma word_trimmed: "word s \<Longrightarrow> trimmed s"
  by (cases "points s") (auto simp: word_def trimmed_def)

lemma trimmed_append: "trimmed a \<Longrightarrow> utf8_ok m \<Longrightarrow> trimmed b \<Longrightarrow> trimmed (a @ m @ b)"
  by (auto simp: trimmed_def points_append utf8_begins utf8_ok_append hd_append last_append)

lemma split_on_append:
  "CHR '' '' \<notin> set a \<Longrightarrow> split_on '': '' (a @ '': '' @ b) = Some (a, b)"
proof (induction a)
  case (Cons c a)
  then have "\<not> starts_with '': '' (c # a @ '': '' @ b)"
    by (cases a) (auto simp: starts_with_def)
  with Cons show ?case by simp
qed (simp add: starts_with_def)

lemma word_hex: "bs \<noteq> [] \<Longrightarrow> word (hex bs)"
proof -
  assume "bs \<noteq> []"
  have "(of_char c :: nat) < 128" if "c \<in> set (hex bs)" for c using hex_chars_lower [OF that] by auto
  then have "points (hex bs) = map (\<lambda>c. [c]) (hex bs)" by (rule points_ascii)
  moreover have "\<not> ws_point [c]" if "c \<in> set (hex bs)" for c
    using hex_chars_lower [OF that] by (auto simp: ws_point_def)
  moreover have "hex bs \<noteq> []" using \<open>bs \<noteq> []\<close> by (cases bs) (auto simp: hex_Cons)
  ultimately show ?thesis by (auto simp: word_def)
qed

end
