(* ===== verification/Nevod_Node.thy ===== *)
theory Nevod_Node
  imports Nevod_Gossip Nevod_Text
begin

text \<open>
  The node (\<^verbatim>\<open>node/node.py\<close>): creation, start and stop, joining, sending a message, the packet
  dispatcher and its handlers; then the node as a transition system, one step per handler,
  frame, connection or local call, and what holds in every state it reaches.
\<close>

section \<open>Lifecycle\<close>

definition open_storage :: "db option \<Rightarrow> unit nodeM" where
  "open_storage file = modifyM (\<lambda>s. s\<lparr>ns_open := True, ns_db := storage_open file\<rparr>)"

definition close_storage :: "unit nodeM" where
  "close_storage = modifyM (\<lambda>s. s\<lparr>ns_open := False\<rparr>)"

definition node_create ::
  "string \<Rightarrow> files \<Rightarrow> db option \<Rightarrow> (Packet \<Rightarrow> exn option) option \<Rightarrow> Node nodeM" where
  "node_create identity_path fs file on_message =
     bindM (liftM (node_load identity_path fs)) (\<lambda>identity.
     bindM (open_storage file) (\<lambda>_.
     returnM \<lparr>nd_identity = identity, nd_on_message = on_message\<rparr>))"

text \<open>\<open>discovered\<close> builds the same entry here: no certificate, no parent, online, no missed pings.
  The clock is asked for \<^verbatim>\<open>last_seen\<close> and again for \<^verbatim>\<open>added_at\<close>.\<close>

definition upsert_seen_now :: "env \<Rightarrow> string \<Rightarrow> string \<Rightarrow> string \<Rightarrow> string \<Rightarrow> unit nodeM" where
  "upsert_seen_now E nid address type access =
     bindM (time_now E) (\<lambda>seen. bindM (time_now E) (\<lambda>added.
     upsertM E (discovered seen added nid address type access)))"

definition create_genesis ::
  "env \<Rightarrow> string \<Rightarrow> string \<Rightarrow> files \<Rightarrow> db option \<Rightarrow> string \<Rightarrow> (Packet \<Rightarrow> exn option) option \<Rightarrow>
   (Node \<times> files) nodeM" where
  "create_genesis E address identity_path fs file access on_message =
     bindM (node_generate E address ''permanent'' access) (\<lambda>identity.
     let fs = node_save identity identity_path fs in
     bindM (open_storage file) (\<lambda>_.
     bindM (upsert_seen_now E (node_id identity) address ''permanent'' access) (\<lambda>_.
     returnM (\<lparr>nd_identity = identity, nd_on_message = on_message\<rparr>, fs))))"

text \<open>\<^verbatim>\<open>int(text)\<close> for ASCII digits: surrounding space, a sign, single underscores between digits.\<close>

fun int_digits :: "nat \<Rightarrow> string \<Rightarrow> nat option" where
  "int_digits acc [] = Some acc"
| "int_digits acc (c # s) =
     (let d = (of_char c :: nat) in
      if 48 \<le> d \<and> d < 58 then int_digits (10 * acc + (d - 48)) s
      else if c = CHR ''_'' then
        (case s of
           [] \<Rightarrow> None
         | x # _ \<Rightarrow> if 48 \<le> (of_char x :: nat) \<and> (of_char x :: nat) < 58 then int_digits acc s else None)
      else None)"

definition unsigned_int :: "string \<Rightarrow> nat option" where
  "unsigned_int s =
     (case s of
        [] \<Rightarrow> None
      | x # _ \<Rightarrow> if 48 \<le> (of_char x :: nat) \<and> (of_char x :: nat) < 58 then int_digits 0 s else None)"

definition py_int :: "string \<Rightarrow> exn + int" where
  "py_int t =
     (let s = py_strip t in
      case (case s of
              CHR ''-'' # r \<Rightarrow> map_option (\<lambda>n. - int n) (unsigned_int r)
            | CHR ''+'' # r \<Rightarrow> map_option int (unsigned_int r)
            | _ \<Rightarrow> map_option int (unsigned_int s)) of
        None \<Rightarrow> Inl ValueError
      | Some i \<Rightarrow> Inr i)"

fun split_address :: "pyval \<Rightarrow> exn + (string \<times> int)" where
  "split_address (PStr address) =
     (case rsplit1 CHR '':'' address of
        None \<Rightarrow> Inl ValueError
      | Some (host, port) \<Rightarrow> bindR (py_int port) (\<lambda>p. Inr (host, p)))"
| "split_address _ = Inl AttributeError"

definition node_start :: "env \<Rightarrow> Node \<Rightarrow> unit nodeM" where
  "node_start E nd =
     bindM (liftM (split_address (ni_address (nd_identity nd)))) (\<lambda>(host, port).
     bindM (transport_start E host port) (\<lambda>_.
     gossip_start))"

definition node_stop :: "env \<Rightarrow> unit nodeM" where
  "node_stop E =
     bindM gossip_stop (\<lambda>_.
     bindM (transport_stop E) (\<lambda>_. close_storage))"

definition node_join :: "env \<Rightarrow> Node \<Rightarrow> string \<Rightarrow> unit nodeM" where
  "node_join E nd bootstrap_address =
     bindM (transport_connect E nd bootstrap_address) (\<lambda>conn.
     upsert_seen_now E (pc_peer_node_id conn) bootstrap_address ''permanent'' ''open'')"

section \<open>Sending a message\<close>

definition encrypted_dict :: "encrypted \<Rightarrow> pyval" where
  "encrypted_dict c = PDict [
     (PStr ''ephemeral_pubkey'', PBytes (em_ephemeral_pubkey c)),
     (PStr ''nonce'', PBytes (em_nonce c)),
     (PStr ''ciphertext'', PBytes (em_ciphertext c))]"

definition send_message :: "env \<Rightarrow> Node \<Rightarrow> string \<Rightarrow> bytes \<Rightarrow> string option \<Rightarrow> unit nodeM" where
  "send_message E nd to_cell_at_node plaintext from_cell =
     (case split1 CHR ''@'' to_cell_at_node of
        None \<Rightarrow> raiseM ValueError
      | Some (cid, _) \<Rightarrow>
          bindM (db_read (get_cell cid)) (\<lambda>cell.
          case cell of
            None \<Rightarrow> raiseM ValueError
          | Some c \<Rightarrow>
              bindM (encrypt E plaintext (ce_enc_pubkey c)) (\<lambda>enc.
              let from_addr = (case from_cell of
                    Some f \<Rightarrow> if f \<noteq> [] then f @ CHR ''@'' # my_id nd else my_id nd
                  | None \<Rightarrow> my_id nd) in
              bindM (payload_packet E T_MSG (encrypted_dict enc) (PStr from_addr) (PStr to_cell_at_node))
                (route E nd))))"

section \<open>Packet handlers\<close>

definition remove_by :: "pyval \<Rightarrow> unit nodeM" where
  "remove_by v =
     bindM (liftM (where_text v)) (\<lambda>key.
     db_write (case key of None \<Rightarrow> (\<lambda>d. d) | Some k \<Rightarrow> remove_node k))"

text \<open>The log line of both handlers slices the id after the work is done.\<close>

definition log_slice :: "pyval \<Rightarrow> unit nodeM" where
  "log_slice v = (if sliceable v then returnM () else raiseM TypeError)"

definition handle_node_remove :: "env \<Rightarrow> Packet \<Rightarrow> unit nodeM" where
  "handle_node_remove E pkt =
     (case bindR (decode_payload E (p_payload pkt)) (\<lambda>data. py_index data ''node_id'') of
        Inl e \<Rightarrow> returnM ()
      | Inr nid \<Rightarrow> bindM (remove_by nid) (\<lambda>_. log_slice nid))"

definition handle_node_leaving :: "Packet \<Rightarrow> unit nodeM" where
  "handle_node_leaving pkt =
     bindM (remove_by (p_from pkt)) (\<lambda>_.
     bindM (case p_from pkt of PStr k \<Rightarrow> conn_remove k | _ \<Rightarrow> returnM ()) (\<lambda>_.
     log_slice (p_from pkt)))"

definition presence_dict :: "pyval \<Rightarrow> PresenceEntry option \<Rightarrow> pyval" where
  "presence_dict cid presence = PDict [
     (PStr ''cell_id'', cid),
     (PStr ''home_node_id'',
        (case presence of Some p \<Rightarrow> PStr (pe_home_node_id p) | None \<Rightarrow> PNone)),
     (PStr ''visiting_node_id'',
        (case presence of
           Some p \<Rightarrow> (case pe_visiting_node_id p of Some v \<Rightarrow> PStr v | None \<Rightarrow> PNone)
         | None \<Rightarrow> PNone))]"

definition handle_presence_query :: "env \<Rightarrow> Node \<Rightarrow> Packet \<Rightarrow> PeerConnection \<Rightarrow> unit nodeM" where
  "handle_presence_query E nd pkt conn =
     (case bindR (decode_payload E (p_payload pkt)) (\<lambda>data. py_index data ''cell_id'') of
        Inl e \<Rightarrow> returnM ()
      | Inr cid \<Rightarrow>
          bindM (liftM (where_text cid)) (\<lambda>key.
          bindM (db_read (\<lambda>d. case key of None \<Rightarrow> None | Some k \<Rightarrow> get_presence k d)) (\<lambda>presence.
          bindM (payload_packet E T_PRESENCE_RESPONSE (presence_dict cid presence)
                   (PStr (my_id nd)) (p_from pkt)) (\<lambda>response.
          send_via E nd conn response))))"

definition register_fields :: "env \<Rightarrow> Packet \<Rightarrow> exn + (pyval \<times> bytes \<times> bytes \<times> bool)" where
  "register_fields E pkt =
     bindR (decode_payload E (p_payload pkt)) (\<lambda>data.
     bindR (py_index data ''cell_id'') (\<lambda>cid.
     bindR (bindR (py_index data ''signing_pubkey'') py_bytes) (\<lambda>signing_pub.
     bindR (bindR (py_index data ''enc_pubkey'') py_bytes) (\<lambda>enc_pub.
     bindR (py_get data ''is_home'' (PBool True)) (\<lambda>is_home.
     Inr (cid, signing_pub, enc_pub, truthy is_home))))))"

definition handle_cell_register :: "env \<Rightarrow> Node \<Rightarrow> Packet \<Rightarrow> PeerConnection \<Rightarrow> unit nodeM" where
  "handle_cell_register E nd pkt conn =
     (case register_fields E pkt of
        Inl e \<Rightarrow> returnM ()
      | Inr (cid, signing_pub, enc_pub, is_home) \<Rightarrow>
          if signing_pub \<noteq> pc_peer_signing_pubkey conn then returnM ()
          else if cid \<noteq> PStr (pc_peer_node_id conn) then returnM ()
          else
            let c = pc_peer_node_id conn in
            bindM (db_write_now E (\<lambda>now. register_cell now c signing_pub enc_pub is_home)) (\<lambda>_.
            bindM (db_write_now E (\<lambda>now. update_presence now c (my_id nd) None)) (\<lambda>_.
            flush_buffer E nd c)))"

definition register_cell_locally :: "env \<Rightarrow> Node \<Rightarrow> string \<Rightarrow> bytes \<Rightarrow> bytes \<Rightarrow> unit nodeM" where
  "register_cell_locally E nd cid signing_pubkey enc_pubkey =
     bindM (db_write_now E (\<lambda>now. register_cell now cid signing_pubkey enc_pubkey True)) (\<lambda>_.
     db_write_now E (\<lambda>now. update_presence now cid (my_id nd) None))"

definition dispatch :: "env \<Rightarrow> Node \<Rightarrow> Packet \<Rightarrow> PeerConnection \<Rightarrow> unit nodeM" where
  "dispatch E nd pkt conn =
     (let t = p_type pkt in
      if t = PStr T_PING then handle_ping E nd pkt conn
      else if t = PStr T_PONG then handle_pong E pkt
      else if t = PStr T_GOSSIP then handle_gossip E pkt
      else if t = PStr T_MSG then route E nd pkt
      else if t = PStr T_NODE_REMOVE then handle_node_remove E pkt
      else if t = PStr T_NODE_LEAVING then handle_node_leaving pkt
      else if t = PStr T_PRESENCE_QUERY then handle_presence_query E nd pkt conn
      else if t = PStr T_PRESENCE_RESPONSE then returnM ()
      else if t = PStr T_CELL_REGISTER then handle_cell_register E nd pkt conn
      else log_slice (p_from pkt))"

section \<open>What the handlers keep\<close>

text \<open>The database of a node that only its own operations wrote: the schema's promises; statuses
  that agree with the ping counters; cells whose id is the hexadecimal form of their key;
  presence records that name this node as home and no visiting node; an empty buffer.\<close>

definition cell_ok :: "cell_row \<Rightarrow> bool" where
  "cell_ok c \<longleftrightarrow> cr_cell_id c = hex (cr_signing_pubkey c) \<and> length (cr_signing_pubkey c) = 32"

definition at_home_only :: "Node \<Rightarrow> db \<Rightarrow> bool" where
  "at_home_only nd d \<longleftrightarrow>
     (\<forall>p \<in> set (presence_table d). pe_home_node_id p = my_id nd \<and> pe_visiting_node_id p = None)"

definition db_inv :: "Node \<Rightarrow> db \<Rightarrow> bool" where
  "db_inv nd d \<longleftrightarrow> wf_db d \<and> healthy_db d \<and> (\<forall>c \<in> set (cells d). cell_ok c) \<and> at_home_only nd d \<and>
     message_buffer d = []"

lemma tables_frame [simp]:
  "cells (upsert_node now e d) = cells d" "presence_table (upsert_node now e d) = presence_table d"
  "cells (update_node_ping now n ok d) = cells d"
  "presence_table (update_node_ping now n ok d) = presence_table d"
  "cells (remove_node n d) = cells d" "presence_table (remove_node n d) = presence_table d"
  "cells (cleanup_expired_nodes now d) = cells d"
  "presence_table (cleanup_expired_nodes now d) = presence_table d"
  "cells (cleanup_expired_messages now d) = cells d"
  "presence_table (cleanup_expired_messages now d) = presence_table d"
  "cells (delete_buffered m d) = cells d" "presence_table (delete_buffered m d) = presence_table d"
  "presence_table (register_cell now c sp ep h d) = presence_table d"
  "cells (update_presence now c hn v d) = cells d"
  by (simp_all add: storage_defs Let_def)

lemma db_inv_nodes:
  "db_inv nd d \<Longrightarrow> db_inv nd (upsert_node now (discovered seen added n a t x) d)"
  "db_inv nd d \<Longrightarrow> db_inv nd (update_node_ping now n ok d)"
  "db_inv nd d \<Longrightarrow> db_inv nd (remove_node n d)"
  "db_inv nd d \<Longrightarrow> db_inv nd (cleanup_expired_nodes now d)"
  by (simp_all add: db_inv_def at_home_only_def wf_db_ops healthy_ops discovered_def)

lemma db_inv_messages:
  "db_inv nd d \<Longrightarrow> db_inv nd (cleanup_expired_messages now d)"
  "db_inv nd d \<Longrightarrow> db_inv nd (delete_buffered m d)"
  by (simp_all add: db_inv_def at_home_only_def wf_db_ops)
    (simp_all add: cleanup_expired_messages_def delete_buffered_def tbl_delete_def)

lemma db_inv_register:
  assumes "db_inv nd d" "length sp = 32"
  shows "db_inv nd (register_cell now (hex sp) sp ep h d)"
proof -
  have "\<forall>c \<in> set (cells (register_cell now (hex sp) sp ep h d)). cell_ok c"
    using assms by (auto simp: register_cell_def db_inv_def cell_ok_def cell_conflict_def dest!: cells.set_upsert)
  with assms show ?thesis by (simp add: db_inv_def at_home_only_def wf_db_ops)
qed

lemma db_inv_presence:
  assumes "db_inv nd d"
  shows "db_inv nd (update_presence now c (my_id nd) None d)"
proof -
  have "at_home_only nd (update_presence now c (my_id nd) None d)"
    using assms by (auto simp: update_presence_def db_inv_def at_home_only_def presence_conflict_def
        dest!: presence.set_upsert)
  with assms show ?thesis by (simp add: db_inv_def wf_db_ops)
qed

lemmas db_inv_ops = db_inv_nodes db_inv_messages db_inv_register db_inv_presence

text \<open>With such presence records routing never writes the database.\<close>

lemma send_to_self: "fst (send_to_node E nd (my_id nd) p s) = Inr (b, q) \<Longrightarrow> b"
  by (auto simp: send_to_node_def io_simps split: prod.splits sum.splits)

lemma keeps_db_route_local:
  assumes "\<And>d. P d \<Longrightarrow> at_home_only nd d"
  shows "keeps (on_db P) (route E nd p)"
proof -
  have never: False if "on_db P s" "db_read (get_presence c) s = (Inr (Some pr), s')"
    "send_to_node E nd (pe_home_node_id pr) q t = (Inr (False, r), t')" for c pr q r s s' t t'
  proof -
    have "get_presence c (ns_db s) = Some pr" using that(2) by (auto simp: io_simps split: if_splits)
    then have "pr \<in> set (presence_table (ns_db s))" by (auto simp: get_presence_def dest: tbl_get_SomeD)
    then have "pe_home_node_id pr = my_id nd"
      using that(1) assms by (auto simp: on_db_def at_home_only_def)
    with that(3) send_to_self [of E nd q t False r] show False by simp
  qed
  show ?thesis
    unfolding route_def
    by (rule keeps_bind [OF keeps_lift], rule keeps_prod, rule keeps_option)
      (auto intro!: keeps_intros keeps_bind_post dest: never)
qed

lemma keeps_db_flush_local:
  assumes "\<And>d. P d \<Longrightarrow> at_home_only nd d" "\<And>m d. P d \<Longrightarrow> P (delete_buffered m d)"
  shows "keeps (on_db P) (flush_buffer E nd c)"
  unfolding flush_buffer_def flush_message_def
  by (intro keeps_intros keeps_db_route_local keeps_db_write assms on_db_free)

lemma db_inv_home: "db_inv nd d \<Longrightarrow> at_home_only nd d"
  by (simp add: db_inv_def)

lemma keeps_db_handlers:
  assumes "conn_ok conn"
  shows "keeps (on_db (db_inv nd)) (dispatch E nd pkt conn)"
proof -
  have rm: "keeps (on_db (db_inv nd)) (remove_by v)" for v
    unfolding remove_by_def
    by (intro keeps_intros keeps_db_write) (auto intro: db_inv_ops split: option.splits)
  have lg: "keeps (on_db (db_inv nd)) (log_slice v)" for v
    unfolding log_slice_def by (intro keeps_intros)
  have rg: "keeps (on_db (db_inv nd)) (handle_cell_register E nd pkt conn)"
  proof -
    have "pc_peer_node_id conn = hex (pc_peer_signing_pubkey conn)" "length (pc_peer_signing_pubkey conn) = 32"
      using assms by (auto simp: conn_ok_def)
    then show ?thesis
      unfolding handle_cell_register_def Let_def
      by (auto intro!: keeps_intros keeps_db_write_now keeps_db_flush_local db_inv_ops dest: db_inv_home)
  qed
  have lv: "keeps (on_db (db_inv nd)) (handle_node_leaving pkt)"
    unfolding handle_node_leaving_def by (intro keeps_intros rm lg) (auto intro: keeps_intros split: pyval.splits)
  show ?thesis
    unfolding dispatch_def Let_def handle_node_remove_def handle_presence_query_def
    by (intro keeps_intros keeps_db_ping keeps_db_gossip keeps_db_route_local rm lg rg lv
        db_inv_ops db_inv_home on_db_free)
qed

lemma keeps_db_calls:
  "keeps (on_db (db_inv nd)) (gossip_turn E nd)"
  "keeps (on_db (db_inv nd)) (node_join E nd a)"
  "keeps (on_db (db_inv nd)) (send_message E nd to pt f)"
  "keeps (on_db (db_inv nd)) (node_start E nd)"
  "keeps (on_db (db_inv nd)) (node_stop E)"
  "length sp = 32 \<Longrightarrow> keeps (on_db (db_inv nd)) (register_cell_locally E nd (hex sp) sp ep)"
proof -
  have closed: "keeps (on_db (db_inv nd)) close_storage"
    by (auto simp: keeps_def close_storage_def io_simps on_db_def)
  show "keeps (on_db (db_inv nd)) (gossip_turn E nd)"
    by (intro keeps_db_round db_inv_ops)
  show "keeps (on_db (db_inv nd)) (node_join E nd a)"
    unfolding node_join_def upsert_seen_now_def by (intro keeps_intros keeps_upsertM db_inv_ops on_db_free)
  show "keeps (on_db (db_inv nd)) (send_message E nd to pt f)"
    unfolding send_message_def Let_def
    by (intro keeps_intros keeps_db_route_local db_inv_home on_db_free)
  show "keeps (on_db (db_inv nd)) (node_start E nd)"
    unfolding node_start_def by (intro keeps_intros)
  show "keeps (on_db (db_inv nd)) (node_stop E)"
    unfolding node_stop_def by (intro keeps_intros closed)
  show "keeps (on_db (db_inv nd)) (register_cell_locally E nd (hex sp) sp ep)" if "length sp = 32"
    unfolding register_cell_locally_def by (intro keeps_intros keeps_db_write_now db_inv_ops that)
qed

lemma keeps_net_dispatch: "keeps (on_conns net_ok) (dispatch E nd pkt conn)"
proof -
  have lv: "keeps (on_conns net_ok) (handle_node_leaving pkt)"
    unfolding handle_node_leaving_def remove_by_def log_slice_def
    by (intro keeps_intros) (auto intro: keeps_intros split: pyval.splits)
  show ?thesis
    unfolding dispatch_def Let_def handle_node_remove_def handle_presence_query_def
      handle_cell_register_def remove_by_def log_slice_def
    by (intro keeps_intros lv on_conns_free)
qed

lemma keeps_net_calls:
  "keeps (on_conns net_ok) (node_join E nd a)"
  "keeps (on_conns net_ok) (send_message E nd to pt f)"
  "keeps (on_conns net_ok) (node_start E nd)"
  "keeps (on_conns net_ok) (node_stop E)"
  "keeps (on_conns net_ok) (register_cell_locally E nd cid sp ep)"
proof -
  have closed: "keeps (on_conns net_ok) close_storage"
    by (auto simp: keeps_def close_storage_def io_simps on_conns_def)
  show "keeps (on_conns net_ok) (node_join E nd a)"
    unfolding node_join_def upsert_seen_now_def by (intro keeps_intros on_conns_free)
  show "keeps (on_conns net_ok) (send_message E nd to pt f)"
    unfolding send_message_def Let_def by (intro keeps_intros on_conns_free)
  show "keeps (on_conns net_ok) (node_start E nd)" "keeps (on_conns net_ok) (node_stop E)"
    unfolding node_start_def node_stop_def by (intro keeps_intros closed)+
  show "keeps (on_conns net_ok) (register_cell_locally E nd cid sp ep)"
    unfolding register_cell_locally_def by (intro keeps_intros)
qed

section \<open>The node as a transition system\<close>

text \<open>One step is one turn of the event loop that runs to its end: an incoming connection that
  passes or fails authentication (\<^verbatim>\<open>_handle_incoming\<close> up to its receive loop), one frame of one
  running receive loop, the end of a receive loop, a turn of the gossip loop, or a call of
  the embedding program.  A cell registered by the program has the id that belongs to its
  key, as \<^verbatim>\<open>CellIdentity.cell_id\<close> gives it.\<close>

inductive node_step :: "env \<Rightarrow> Node \<Rightarrow> node_state \<Rightarrow> node_state \<Rightarrow> bool" for E nd where
  accept: "do_auth E nd ws None s = (Inr conn, s1) \<Longrightarrow>
    node_step E nd s (snd (bindM (conn_add conn) (\<lambda>_. spawn_recv_loop conn) s1))"
| refuse: "do_auth E nd ws None s = (Inl e, s1) \<Longrightarrow> node_step E nd s (snd (ws_close ws s1))"
| frame: "conn \<in> set (ns_loops s) \<Longrightarrow>
    node_step E nd s (snd (recv_frame E (dispatch E nd) conn raw s))"
| loop_end: "conn \<in> set (ns_loops s) \<Longrightarrow>
    node_step E nd s (snd (conn_remove (pc_peer_node_id conn) (s\<lparr>ns_loops := remove1 conn (ns_loops s)\<rparr>)))"
| gossip: "ns_gossip s \<Longrightarrow> node_step E nd s (snd (gossip_turn E nd s))"
| join: "node_step E nd s (snd (node_join E nd a s))"
| message: "node_step E nd s (snd (send_message E nd to pt f s))"
| local_cell: "length sp = 32 \<Longrightarrow> node_step E nd s (snd (register_cell_locally E nd (hex sp) sp ep s))"
| start: "node_step E nd s (snd (node_start E nd s))"
| stop: "node_step E nd s (snd (node_stop E s))"

text \<open>A node starts on a database that was written by its own operations, a fresh one for example,
  with no connections.\<close>

inductive node_reach :: "env \<Rightarrow> Node \<Rightarrow> node_state \<Rightarrow> bool" for E nd where
  reach_init: "db_inv nd (ns_db s) \<Longrightarrow> ns_conns s = [] \<Longrightarrow> ns_loops s = [] \<Longrightarrow> node_reach E nd s"
| reach_step: "node_reach E nd s \<Longrightarrow> node_step E nd s s' \<Longrightarrow> node_reach E nd s'"

inductive_cases node_stepE: "node_step E nd s s'"

lemma db_inv_empty: "db_inv nd empty_db"
  by (simp add: db_inv_def wf_empty_db healthy_db_def at_home_only_def) (simp add: empty_db_def)

lemma keeps_dbD: "keeps (on_db P) m \<Longrightarrow> on_db P s \<Longrightarrow> on_db P (snd (m s))"
  by (rule keepsD)

lemma keeps_netD: "keeps (on_conns P) m \<Longrightarrow> on_conns P s \<Longrightarrow> on_conns P (snd (m s))"
  by (rule keepsD)

lemma step_db:
  assumes "node_step E nd s s'" "on_db (db_inv nd) s" "on_conns net_ok s"
  shows "on_db (db_inv nd) s'"
  using assms(1)
proof cases
  case (accept ws conn s1)
  have "keeps (on_db (db_inv nd)) (do_auth E nd ws None)" by (intro keeps_intros on_db_free)
  from keepsD [OF this assms(2)] accept(2) have "on_db (db_inv nd) s1" by simp
  then show ?thesis unfolding accept(1) by (intro keeps_dbD keeps_intros)
next
  case (refuse ws e s1)
  have "keeps (on_db (db_inv nd)) (do_auth E nd ws None)" by (intro keeps_intros on_db_free)
  from keepsD [OF this assms(2)] refuse(2) have "on_db (db_inv nd) s1" by simp
  then show ?thesis unfolding refuse(1) by (intro keeps_dbD keeps_intros on_db_free)
next
  case (frame conn raw)
  have "conn_ok conn" using assms(3) frame(2) by (simp add: on_conns_def net_ok_def)
  then show ?thesis
    unfolding frame(1) by (intro keeps_dbD [OF _ assms(2)] keeps_recv_frame keeps_db_handlers)
next
  case (loop_end conn)
  show ?thesis using assms(2) by (simp add: loop_end(1) io_simps on_db_def)
qed (auto intro!: keeps_dbD [OF _ assms(2)] keeps_db_calls)

lemma step_net:
  assumes "node_step E nd s s'" "on_conns net_ok s"
  shows "on_conns net_ok s'"
  using assms(1)
proof cases
  case (accept ws conn s1)
  have "keeps (on_conns net_ok) (do_auth E nd ws None)" by (intro keeps_intros on_conns_free)
  from keepsD [OF this assms(2)] accept(2) have s1: "on_conns net_ok s1" by simp
  have "conn_ok conn" using do_auth_sound [OF accept(2)] by blast
  then show ?thesis
    unfolding accept(1) by (intro keeps_netD [OF _ s1] keeps_bind keeps_conns_add)
next
  case (refuse ws e s1)
  have "keeps (on_conns net_ok) (do_auth E nd ws None)" by (intro keeps_intros on_conns_free)
  from keepsD [OF this assms(2)] refuse(2) have s1: "on_conns net_ok s1" by simp
  then show ?thesis unfolding refuse(1) by (intro keeps_netD [OF _ s1] keeps_intros on_conns_free)
next
  case (loop_end conn)
  then show ?thesis
    using assms(2) by (auto simp: io_simps on_conns_def net_ok_def conns_ok_pop dest: notin_set_remove1)
qed (auto intro!: keeps_netD [OF _ assms(2)] keeps_recv_frame keeps_net_dispatch keeps_conns_gossip keeps_net_calls)

lemma reach_inv: "node_reach E nd s \<Longrightarrow> on_db (db_inv nd) s \<and> on_conns net_ok s"
proof (induction rule: node_reach.induct)
  case (reach_init s)
  then show ?case by (simp add: on_db_def on_conns_def net_ok_def conns_ok_def)
next
  case (reach_step s s')
  then show ?case by (blast intro: step_db step_net)
qed

section \<open>Properties of the node\<close>

lemma state0_reach: "node_reach E nd state0"
  by (rule reach_init) (simp_all add: state0_def db_inv_empty)

text \<open>
  the safety of a running node.  In every state a node reaches, by any interleaving of
  connections, frames with any content, gossip turns and local calls: primary keys are unique;
  a node of the table is offline exactly when it missed three pings or more, and online
  otherwise; the id of every registered cell is the hexadecimal form of its 32-byte signing
  key; and every registered connection is filed under the id that belongs to the key the
  peer proved to own.
\<close>
theorem reachable_node_safe:
  assumes "node_reach E nd s"
  shows "distinct (map nr_node_id (node_table (ns_db s))) \<and> distinct (map cr_cell_id (cells (ns_db s))) \<and>
    (\<forall>r \<in> set (node_table (ns_db s)). 0 \<le> nr_missed_pings r \<and>
       nr_status r = (if nr_missed_pings r \<ge> 3 then ''offline'' else ''online'')) \<and>
    (\<forall>c \<in> set (cells (ns_db s)). cr_cell_id c = hex (cr_signing_pubkey c) \<and> length (cr_signing_pubkey c) = 32) \<and>
    distinct (map fst (ns_conns s)) \<and>
    (\<forall>(k, c) \<in> set (ns_conns s). k = hex (pc_peer_signing_pubkey c) \<and> length (pc_peer_signing_pubkey c) = 32)"
proof -
  from reach_inv [OF assms] have d: "db_inv nd (ns_db s)" and c: "conns_ok (ns_conns s)"
    by (auto simp: on_db_def on_conns_def net_ok_def)
  from c have "\<forall>(k, c) \<in> set (ns_conns s). k = hex (pc_peer_signing_pubkey c) \<and> length (pc_peer_signing_pubkey c) = 32"
    by (auto simp: conns_ok_def conn_ok_def)
  with d c show ?thesis
    by (simp add: db_inv_def wf_db_def healthy_db_def healthy_def cell_ok_def conns_ok_def MISSED_PINGS_OFFLINE_def)
qed

theorem reachable_node_safe_witness:
  "node_reach env0 nd0 (snd (register_cell_locally env0 nd0 (hex (replicate 32 1)) (replicate 32 1) [] state0)) \<and>
   distinct (map cr_cell_id (cells (ns_db (snd (register_cell_locally env0 nd0
     (hex (replicate 32 1)) (replicate 32 1) [] state0)))))"
proof -
  have r: "node_reach env0 nd0 (snd (register_cell_locally env0 nd0 (hex (replicate 32 1)) (replicate 32 1) [] state0))"
    by (rule reach_step [OF state0_reach local_cell]) simp
  show ?thesis using r reachable_node_safe [OF r] by blast
qed

text \<open>
  a node never buffers a message by itself.  Its own operations only write presence records
  that name the node itself as home and no visiting node; hence in every reachable state the
  buffer is empty, and routing any packet leaves the whole database unchanged.  The
  store-and-forward path of the router is reached only when the embedding program writes
  presence records through the storage itself.
\<close>
theorem reachable_never_buffers:
  assumes "node_reach E nd s"
  shows "message_buffer (ns_db s) = [] \<and>
    (\<forall>p \<in> set (presence_table (ns_db s)). pe_home_node_id p = my_id nd \<and> pe_visiting_node_id p = None) \<and>
    ns_db (snd (route E nd pkt s)) = ns_db s"
proof -
  from reach_inv [OF assms] have d: "db_inv nd (ns_db s)" by (simp add: on_db_def)
  have "keeps (on_db (\<lambda>d. d = ns_db s)) (route E nd pkt)"
    by (rule keeps_db_route_local) (use d in \<open>simp add: db_inv_home\<close>)
  from keepsD [OF this, of s] have "ns_db (snd (route E nd pkt s)) = ns_db s" by (simp add: on_db_def)
  with d show ?thesis by (simp add: db_inv_def at_home_only_def)
qed

theorem reachable_never_buffers_witness:
  "node_reach env0 nd0 state0 \<and> ns_db (snd (route env0 nd0 msg0 state0)) = ns_db state0"
  using state0_reach reachable_never_buffers [OF state0_reach] by blast

section \<open>Registration of cells\<close>

lemma flush_frame_cells: "get_cell k (ns_db (snd (flush_buffer E nd c s))) = get_cell k (ns_db s)"
  "get_presence k (ns_db (snd (flush_buffer E nd c s))) = get_presence k (ns_db s)"
proof -
  have "keeps (on_db (\<lambda>d. get_cell k d = get_cell k (ns_db s))) (flush_buffer E nd c)"
    "keeps (on_db (\<lambda>d. get_presence k d = get_presence k (ns_db s))) (flush_buffer E nd c)"
    by (auto intro!: keeps_db_flush)
  from this [THEN keepsD, of s] show "get_cell k (ns_db (snd (flush_buffer E nd c s))) = get_cell k (ns_db s)"
    "get_presence k (ns_db (snd (flush_buffer E nd c s))) = get_presence k (ns_db s)"
    by (simp_all add: on_db_def)
qed

lemma register_runs:
  assumes "ns_open s" "register_fields E p = Inr (PStr (pc_peer_node_id conn), pc_peer_signing_pubkey conn, ep, h)"
  shows "handle_cell_register E nd p conn s = flush_buffer E nd (pc_peer_node_id conn)
    (s\<lparr>w_tick := Suc (Suc (w_tick s)),
       ns_db := update_presence (e_time E (Suc (w_tick s))) (pc_peer_node_id conn) (my_id nd) None
         (register_cell (e_time E (w_tick s)) (pc_peer_node_id conn) (pc_peer_signing_pubkey conn) ep h (ns_db s))\<rparr>)"
  using assms by (simp add: handle_cell_register_def Let_def db_write_now_def io_simps)

text \<open>
  C17: a peer can register exactly itself as a cell.  Unless the packet names the connection's
  authenticated key and its id, \<^verbatim>\<open>CELL_REGISTER\<close> changes nothing; if it does, the cell is
  registered with that key and the encryption key it sent, and present at home here; and no
  registration packet ever changes the entry or the presence of another cell.
\<close>
theorem cell_register_own_identity_only:
  assumes "ns_open s" and "s' = snd (handle_cell_register E nd p conn s)"
  shows "(\<forall>k. k \<noteq> pc_peer_node_id conn \<longrightarrow>
        get_cell k (ns_db s') = get_cell k (ns_db s) \<and> get_presence k (ns_db s') = get_presence k (ns_db s)) \<and>
    ((\<nexists>ep h. register_fields E p = Inr (PStr (pc_peer_node_id conn), pc_peer_signing_pubkey conn, ep, h))
       \<longrightarrow> handle_cell_register E nd p conn s = (Inr (), s)) \<and>
    (\<forall>ep h. register_fields E p = Inr (PStr (pc_peer_node_id conn), pc_peer_signing_pubkey conn, ep, h) \<longrightarrow>
       (\<exists>e pr. get_cell (pc_peer_node_id conn) (ns_db s') = Some e \<and>
          ce_signing_pubkey e = pc_peer_signing_pubkey conn \<and> ce_enc_pubkey e = ep \<and>
          get_presence (pc_peer_node_id conn) (ns_db s') = Some pr \<and>
          pe_home_node_id pr = my_id nd \<and> pe_visiting_node_id pr = None))"
proof (cases "\<exists>ep h. register_fields E p = Inr (PStr (pc_peer_node_id conn), pc_peer_signing_pubkey conn, ep, h)")
  case True
  then obtain ep h where f: "register_fields E p = Inr (PStr (pc_peer_node_id conn), pc_peer_signing_pubkey conn, ep, h)"
    by blast
  show ?thesis
    unfolding assms(2) register_runs [OF assms(1) f] flush_frame_cells
    by (auto simp: f get_cell_register get_presence_update split: option.splits)
next
  case False
  then have "handle_cell_register E nd p conn s = (Inr (), s)"
    by (auto simp: handle_cell_register_def io_simps split: sum.splits)
  with False assms(2) show ?thesis by auto
qed

definition register0 :: Packet where
  "register0 = msg0\<lparr>p_type := PStr ''cell_register'', p_payload := PBytes (ex_pack (PDict [
     (PStr ''cell_id'', PStr (pc_peer_node_id peer1)), (PStr ''signing_pubkey'', PBytes (pc_peer_signing_pubkey peer1)),
     (PStr ''enc_pubkey'', PBytes [3])]))\<rparr>"

lemma register0_fields:
  "register_fields env0 register0 = Inr (PStr (pc_peer_node_id peer1), pc_peer_signing_pubkey peer1, [3], True)"
  by (simp add: register_fields_def register0_def decode_payload_def ex_unpack_pack del: ex_pack.simps)

theorem cell_register_own_identity_only_witness:
  "\<exists>e. get_cell (pc_peer_node_id peer1) (ns_db (snd (handle_cell_register env0 nd0 register0 peer1 state0))) = Some e \<and>
     ce_signing_pubkey e = sk_public kp1"
proof -
  have o: "ns_open state0" by (simp add: state0_def)
  obtain e where "get_cell (pc_peer_node_id peer1) (ns_db (snd (handle_cell_register env0 nd0 register0 peer1 state0)))
      = Some e" "ce_signing_pubkey e = pc_peer_signing_pubkey peer1"
    using conjunct2 [OF conjunct2 [OF cell_register_own_identity_only [OF o refl]], rule_format, OF register0_fields]
    by blast
  then show ?thesis by (simp add: peer1_def)
qed

section \<open>Network maintenance packets\<close>

lemma frame_accepted:
  "unpack E b = Inr q \<Longrightarrow> verify_packet E q (pc_peer_signing_pubkey conn) = Inr True \<Longrightarrow>
   recv_frame E h conn b s = tryM (h q conn) (\<lambda>_. returnM ()) s"
  by (simp add: recv_frame_def bindM_apply liftM_apply)

lemma dispatch_leaving:
  "ns_open s \<Longrightarrow> p_type p = PStr T_NODE_LEAVING \<Longrightarrow> p_from p = PStr k \<Longrightarrow>
   dispatch E nd p conn s =
     (Inr (), s\<lparr>ns_db := remove_node k (ns_db s), ns_conns := dict_pop k (ns_conns s)\<rparr>)"
  by (simp add: dispatch_def handle_node_leaving_def remove_by_def log_slice_def io_simps)

text \<open>
  C35: any authenticated peer can evict any node.  Whoever authenticated with some key, a cell
  included, can sign a \<^verbatim>\<open>NODE_LEAVING\<close> packet in the name of a third party: the frame passes the
  signature check, since that only concerns the sender's own key, and the victim disappears
  from the node table and its open connection from the registry.  A \<^verbatim>\<open>NODE_REMOVE\<close> packet
  removes the node it names, whoever sent it.
\<close>
theorem peer_can_evict_any_node:
  assumes "msgpack_ok E" and "ed25519_ok E" and "signing_valid E kp"
    and "pc_peer_signing_pubkey conn = sk_public kp" and "ns_open s" and "wire_str victim"
  shows "(\<exists>p q b. sign_packet E p kp = Inr q \<and> pack E q = Inr b \<and>
      recv_frame E (dispatch E nd) conn b s =
        (Inr (), s\<lparr>ns_db := remove_node victim (ns_db s), ns_conns := dict_pop victim (ns_conns s)\<rparr>)) \<and>
    (\<forall>r. p_type r = PStr T_NODE_REMOVE \<and>
       decode_payload E (p_payload r) = Inr (PDict [(PStr ''node_id'', PStr victim)]) \<longrightarrow>
       dispatch E nd r conn s = (Inr (), s\<lparr>ns_db := remove_node victim (ns_db s)\<rparr>))"
proof -
  let ?p = "\<lambda>sg. typed_packet ''i'' T_NODE_LEAVING victim [] [] sg 0 1"
  have "packable (packet_dict (?p []))"
    using assms(6) by (simp add: packable_typed Let_def)
  then obtain sg b where q: "sign_packet E (?p []) kp = Inr (?p sg)" "pack E (?p sg) = Inr b"
    "unpack E b = Inr (?p sg)" "verify_packet E (?p sg) (sk_public kp) = Inr True"
    by (rule signed_frame [OF assms(1-3)])
  have "recv_frame E (dispatch E nd) conn b s =
      (Inr (), s\<lparr>ns_db := remove_node victim (ns_db s), ns_conns := dict_pop victim (ns_conns s)\<rparr>)"
    using q(3,4) assms(4,5)
    by (simp add: frame_accepted tryM_apply dispatch_leaving typed_packet_def)
  moreover have "dispatch E nd r conn s = (Inr (), s\<lparr>ns_db := remove_node victim (ns_db s)\<rparr>)"
    if "p_type r = PStr T_NODE_REMOVE" "decode_payload E (p_payload r) = Inr (PDict [(PStr ''node_id'', PStr victim)])" for r
    using that assms(5) by (simp add: dispatch_def handle_node_remove_def remove_by_def log_slice_def io_simps)
  ultimately show ?thesis using q(1,2) by blast
qed

theorem peer_can_evict_any_node_witness:
  "\<exists>b. get_node ''n1'' (ns_db knows_one) = Some example_node \<and>
     get_node ''n1'' (ns_db (snd (recv_frame env0 (dispatch env0 nd0) peer1 b knows_one))) = None"
proof -
  have k: "pc_peer_signing_pubkey peer1 = sk_public kp1" by (simp add: peer1_def)
  have w: "wire_str ''n1''" by (simp add: Let_def)
  obtain b where "recv_frame env0 (dispatch env0 nd0) peer1 b knows_one = (Inr (),
      knows_one\<lparr>ns_db := remove_node ''n1'' (ns_db knows_one), ns_conns := dict_pop ''n1'' (ns_conns knows_one)\<rparr>)"
    using conjunct1 [OF peer_can_evict_any_node [OF env0_ok(1,2) kp1_valid k knows_one_facts(1) w]] by blast
  then show ?thesis by (intro exI [of _ b]) (simp add: get_node_remove)
qed

text \<open>Encoding a packable payload and sending it in a fresh packet.\<close>

lemma send_payload:
  assumes ok: "node_ok E nd" and v: "packable v" "\<And>b. e_packb E v = Inr b \<Longrightarrow> length b < 2 ^ 32"
    and w: "wire_str t" "wire_str f" "wire_str a" and send: "\<And>k b. e_send E k (pc_ws c) b = None"
  obtains q b where
    "bindM (payload_packet E t v (PStr f) (PStr a)) (send_via E nd c) s =
       (Inr (), s\<lparr>w_tick := w_tick s + 3, w_sent := w_sent s @ [(pc_ws c, b)]\<rparr>)"
    "unpack E b = Inr q" "verify_packet E q (sk_public (ni_signing (nd_identity nd))) = Inr True"
    "p_type q = PStr t" "p_from q = PStr f" "p_to q = PStr a" "decode_payload E (p_payload q) = Inr v"
proof -
  from ok have "msgpack_ok E" by (simp add: node_ok_def)
  then obtain pl where pl: "e_packb E v = Inr pl" "e_unpackb E pl = Inr v" by (rule msgpack_okD [OF _ v(1)])
  obtain sg b where
    "bindM (new_packet E t (PBytes pl) (PStr f) (PStr a)) (send_via E nd c) s =
       (Inr (), s\<lparr>w_tick := w_tick s + 3, w_sent := w_sent s @ [(pc_ws c, b)]\<rparr>)"
    "unpack E b = Inr (typed_packet (e_uuid E (w_tick s)) t f a pl sg (e_time E (Suc (w_tick s))) 1)"
    "verify_packet E (typed_packet (e_uuid E (w_tick s)) t f a pl sg (e_time E (Suc (w_tick s))) 1)
       (sk_public (ni_signing (nd_identity nd))) = Inr True"
    by (rule send_fresh [OF ok w v(2) [OF pl(1)], of c s]) (rule send)
  with that [of b "typed_packet (e_uuid E (w_tick s)) t f a pl sg (e_time E (Suc (w_tick s))) 1"] pl show ?thesis
    by (simp add: bindM_apply payload_packet_apply typed_packet_def decode_payload_def)
qed

lemma all_nodes_get: "get_node k d = Some e \<Longrightarrow> e \<in> set (get_all_nodes d) \<and> ne_node_id e = k"
  by (auto simp: get_node_def get_all_nodes_def row_to_node_def dest!: tbl_get_SomeD)

text \<open>
  C16: gossip spreads the node table.  When a node exchanges its table with a connected peer and
  the socket works, it sends one frame; the peer's receive loop accepts it, and afterwards the
  peer has an entry for every node with an address that the sender's table has.
\<close>
theorem gossip_propagates:
  assumes "node_ok E A" and "ns_open sA" and "ns_open sB"
    and "dict_get (ns_conns sA) (ne_node_id peer) = Some toB" and "\<And>k b. e_send E k (pc_ws toB) b = None"
    and "tbl = PDict [(PStr ''nodes'', PList (map to_dict (get_all_nodes (ns_db sA))))]"
    and "packable tbl" and "\<And>b. e_packb E tbl = Inr b \<Longrightarrow> length b < 2 ^ 32"
    and "pc_peer_signing_pubkey fromA = sk_public (ni_signing (nd_identity A))"
  shows "\<exists>b sB'. exchange E A peer sA =
      (Inr (), sA\<lparr>w_tick := w_tick sA + 3, w_sent := w_sent sA @ [(pc_ws toB, b)]\<rparr>) \<and>
    recv_frame E (dispatch E B) fromA b sB = (Inr (), sB') \<and>
    (\<forall>k e. get_node k (ns_db sA) = Some e \<and> k \<noteq> [] \<and> ne_address e \<noteq> [] \<longrightarrow> get_node k (ns_db sB') \<noteq> None)"
proof -
  let ?es = "get_all_nodes (ns_db sA)"
  obtain q b where run: "bindM (payload_packet E T_GOSSIP tbl (PStr (my_id A)) (PStr [])) (send_via E A toB) sA
      = (Inr (), sA\<lparr>w_tick := w_tick sA + 3, w_sent := w_sent sA @ [(pc_ws toB, b)]\<rparr>)"
    and q: "unpack E b = Inr q" "verify_packet E q (sk_public (ni_signing (nd_identity A))) = Inr True"
      "p_type q = PStr T_GOSSIP" "decode_payload E (p_payload q) = Inr tbl"
    by (rule send_payload [OF assms(1,7,8) _ node_id_wire [OF assms(1)], of T_GOSSIP "[]" toB sA])
      (auto simp: Let_def assms(5))
  have "exchange E A peer sA = (Inr (), sA\<lparr>w_tick := w_tick sA + 3, w_sent := w_sent sA @ [(pc_ws toB, b)]\<rparr>)"
    using run assms(2,4)
    by (auto simp: exchange_def bindM_apply registry_apply db_read_apply make_gossip_def assms(6) tryM_apply
        split: prod.splits sum.splits)
  moreover obtain sB' where h: "handle_gossip E q sB = (Inr (), sB')"
    "\<And>k. merged_at E (ns_db sB) ?es (ns_db sB') k"
    using handle_gossip_tables [OF assms(3) q(4) [unfolded assms(6)]] by blast
  have "recv_frame E (dispatch E B) fromA b sB = (Inr (), sB')"
    using q(3) h(1) by (simp add: frame_accepted [OF q(1) q(2) [folded assms(9)]] tryM_apply dispatch_def)
  moreover have "get_node k (ns_db sB') \<noteq> None"
    if "get_node k (ns_db sA) = Some e" "k \<noteq> []" "ne_address e \<noteq> []" for k e
  proof -
    have "e \<in> set ?es" "usable k e"
      using all_nodes_get [OF that(1)] that(2,3) by (auto simp: usable_def)
    then have "find (usable k) ?es \<noteq> None" by (auto simp: find_None_iff)
    then show ?thesis
      using h(2) [of k] by (auto simp: merged_at_def split: option.splits)
  qed
  ultimately show ?thesis by blast
qed

theorem gossip_propagates_witness:
  "\<exists>b sB' e. recv_frame env0 (dispatch env0 nd0) (peer1\<lparr>pc_peer_signing_pubkey := sk_public (ni_signing (nd_identity nd0))\<rparr>)
     b state0 = (Inr (), sB') \<and> get_node ''n1'' (ns_db sB') = Some e"
proof -
  let ?tbl = "PDict [(PStr ''nodes'', PList (map to_dict (get_all_nodes (ns_db knows_one))))]"
  have tbl: "?tbl = PDict [(PStr ''nodes'', PList [to_dict example_node])]"
    by (simp add: knows_one_def upsert_node_def tbl_upsert_def get_all_nodes_def empty_db_def node_to_row_def
        row_to_node_def example_node_def)
  have "packable ?tbl" unfolding tbl by (simp add: packable_def to_dict_def example_node_def Let_def)
  moreover have "length b < 2 ^ 32" if "e_packb env0 ?tbl = Inr b" for b
    using that unfolding tbl by (auto simp: to_dict_def example_node_def ex_nat_def)
  ultimately obtain b sB' where run: "recv_frame env0 (dispatch env0 nd0)
      (peer1\<lparr>pc_peer_signing_pubkey := sk_public (ni_signing (nd_identity nd0))\<rparr>) b state0 = (Inr (), sB')"
    "\<forall>k e. get_node k (ns_db (knows_one\<lparr>ns_conns := [(''n1'', peer1)]\<rparr>)) = Some e \<and> k \<noteq> [] \<and> ne_address e \<noteq> []
       \<longrightarrow> get_node k (ns_db sB') \<noteq> None"
    using gossip_propagates [OF node_ok_env0, of "knows_one\<lparr>ns_conns := [(''n1'', peer1)]\<rparr>" state0 example_node peer1
        ?tbl "peer1\<lparr>pc_peer_signing_pubkey := sk_public (ni_signing (nd_identity nd0))\<rparr>" nd0]
    by (auto simp: dict_get_def state0_def example_node_def)
  have "get_node ''n1'' (ns_db sB') \<noteq> None"
    using run(2) [rule_format, of "''n1''" example_node] by (simp add: example_node_def)
  with run(1) show ?thesis by blast
qed

text \<open>
  C29: a ping is answered and the answer refreshes the entry.  A node that dispatches a verified
  \<^verbatim>\<open>PING\<close> sends exactly one frame back over the same connection; when the sender of the ping
  receives it, its table entry for the answering node becomes online, last seen at its
  clock, with no missed pings.
\<close>
theorem ping_answered_and_recorded:
  assumes "node_ok E B" and "ns_open sA"
    and "p_type ping = PStr T_PING" and "p_from ping = PStr f" and "wire_str f" and "p_id ping = PStr i" and "wire_str i"
    and "\<And>b. e_packb E (PDict [(PStr ''ping_id'', PStr i)]) = Inr b \<Longrightarrow> length b < 2 ^ 32"
    and "\<And>k b. e_send E k (pc_ws fromA) b = None"
    and "pc_peer_signing_pubkey fromB = sk_public (ni_signing (nd_identity B))"
    and "get_node (my_id B) (ns_db sA) = Some old"
  shows "\<exists>b sA'. dispatch E B ping fromA sB =
      (Inr (), sB\<lparr>w_tick := w_tick sB + 3, w_sent := w_sent sB @ [(pc_ws fromA, b)]\<rparr>) \<and>
    recv_frame E (dispatch E A) fromB b sA = (Inr (), sA') \<and>
    get_node (my_id B) (ns_db sA') =
      Some (old\<lparr>ne_last_seen := e_time E (w_tick sA), ne_missed_pings := 0, ne_status := ''online''\<rparr>)"
proof -
  have "packable (PDict [(PStr ''ping_id'', PStr i)])"
    using assms(7) by (simp add: packable_def Let_def)
  then obtain q b where run: "bindM (payload_packet E T_PONG (PDict [(PStr ''ping_id'', PStr i)]) (PStr (my_id B)) (PStr f))
        (send_via E B fromA) sB
      = (Inr (), sB\<lparr>w_tick := w_tick sB + 3, w_sent := w_sent sB @ [(pc_ws fromA, b)]\<rparr>)"
    and q: "unpack E b = Inr q" "verify_packet E q (sk_public (ni_signing (nd_identity B))) = Inr True"
      "p_type q = PStr T_PONG" "p_from q = PStr (my_id B)"
    by (rule send_payload [OF assms(1) _ assms(8) _ node_id_wire [OF assms(1)] assms(5),
          where t = T_PONG and c = fromA and s = sB])
      (auto simp: Let_def assms(9))
  have "dispatch E B ping fromA sB =
      (Inr (), sB\<lparr>w_tick := w_tick sB + 3, w_sent := w_sent sB @ [(pc_ws fromA, b)]\<rparr>)"
    using run assms(3,4,6) by (simp add: dispatch_def handle_ping_def make_pong_def)
  moreover have "recv_frame E (dispatch E A) fromB b sA = (Inr (), sA\<lparr>w_tick := Suc (w_tick sA),
      ns_db := update_node_ping (e_time E (w_tick sA)) (my_id B) True (ns_db sA)\<rparr>)"
    using q(3,4) assms(2)
    by (simp add: frame_accepted [OF q(1) q(2) [folded assms(10)]] tryM_apply dispatch_def handle_pong_def io_simps)
  ultimately show ?thesis
    using assms(11) by (auto simp: get_node_ping spec_ping_def)
qed

definition ping0 :: Packet where
  "ping0 = typed_packet ''p1'' ''ping'' ''ff'' ''bb'' [] [7] 3 1"

theorem ping_answered_and_recorded_witness:
  "\<exists>b. dispatch env0 nd0 ping0 peer1 state0 = (Inr (), state0\<lparr>w_tick := 3, w_sent := [(9, b)]\<rparr>)"
proof -
  let ?old = "discovered 1 1 (my_id nd0) ''h:1'' ''permanent'' ''open''"
  let ?sA = "state0\<lparr>ns_db := upsert_node 0 ?old empty_db\<rparr>"
  have old: "get_node (my_id nd0) (ns_db ?sA) = Some ?old"
    by (simp add: get_node_upsert) (simp add: get_node_def empty_db_def discovered_def)
  have w: "wire_str ''ff''" "wire_str ''p1''" by (simp_all add: Let_def)
  have p: "p_type ping0 = PStr T_PING" "p_from ping0 = PStr ''ff''" "p_id ping0 = PStr ''p1''"
    by (simp_all add: ping0_def typed_packet_def)
  have len: "length b < 2 ^ 32" if "e_packb env0 (PDict [(PStr ''ping_id'', PStr ''p1'')]) = Inr b" for b
    using that by (auto simp: ex_nat_def)
  show ?thesis
    using ping_answered_and_recorded [OF node_ok_env0 _ p(1,2) w(1) p(3) w(2) len _ _ old,
        of peer1 "peer1\<lparr>pc_peer_signing_pubkey := sk_public (ni_signing (nd_identity nd0))\<rparr>" state0 nd0]
    by (auto simp: state0_def peer1_def)
qed

section \<open>Creating a node\<close>

lemma genesis_apply:
  assumes "urandom_ok E"
  obtains idt j now seen added where
    "create_genesis E address path fs file access cb s =
       (Inr (\<lparr>nd_identity = idt, nd_on_message = cb\<rparr>, node_save idt path fs),
        s\<lparr>ns_open := True, w_tick := j,
          ns_db := upsert_node now (discovered seen added (node_id idt) address ''permanent'' access) (storage_open file)\<rparr>)"
    "node_load path (node_save idt path fs) = Inr idt" "ni_address idt = PStr address"
proof -
  define sg where "sg = \<lparr>sk_private = e_urandom E (w_tick s) 32, sk_public = ed_pub E (e_urandom E (w_tick s) 32)\<rparr>"
  define en where "en = \<lparr>ek_private = e_urandom E (Suc (w_tick s)) 32, ek_public = x_pub E (e_urandom E (Suc (w_tick s)) 32)\<rparr>"
  define idt where "idt = \<lparr>ni_signing = sg, ni_encryption = en, ni_address = PStr address,
    ni_node_type = PStr ''permanent'', ni_access = PStr access\<rparr>"
  let ?s1 = "s\<lparr>ns_open := True, ns_db := storage_open file, w_tick := w_tick s + 4\<rparr>"
  let ?n = "discovered (e_time E (w_tick s + 2)) (e_time E (w_tick s + 3)) (node_id idt) address ''permanent'' access"
  obtain j now where u: "upsertM E ?n ?s1 = (Inr (), ?s1\<lparr>w_tick := j, ns_db := upsert_node now ?n (ns_db ?s1)\<rparr>)"
    by (rule upsertM_apply [of ?s1 E ?n]) simp
  have "node_generate E address ''permanent'' access s = (Inr idt, s\<lparr>w_tick := w_tick s + 2\<rparr>)"
    by (simp add: node_generate_def gen_signing_def gen_encryption_def io_simps idt_def sg_def en_def)
  then have run: "create_genesis E address path fs file access cb s =
      (Inr (\<lparr>nd_identity = idt, nd_on_message = cb\<rparr>, node_save idt path fs),
       ?s1\<lparr>w_tick := j, ns_db := upsert_node now ?n (ns_db ?s1)\<rparr>)"
    using u by (simp add: create_genesis_def Let_def open_storage_def upsert_seen_now_def io_simps eval_nat_numeral)
  have load: "node_load path (node_save idt path fs) = Inr idt"
    using assms by (intro node_save_load) (simp_all add: urandom_ok_def idt_def sg_def en_def)
  show thesis by (rule that [OF _ load]) (use run in \<open>simp_all add: idt_def\<close>)
qed

text \<open>
  a genesis node is in its own table and can be started again from its files.  Creation
  returns a node whose identity file loads back to the same identity, whose table has the
  node itself, online at the given address, and opening the same identity and database later
  gives the same node on the same database.
\<close>
theorem genesis_persists:
  assumes "urandom_ok E"
  shows "\<exists>nd fs' s' e. create_genesis E address path fs file access cb s = (Inr (nd, fs'), s') \<and> ns_open s' \<and>
    get_node (my_id nd) (ns_db s') = Some e \<and> ne_address e = address \<and> ne_status e = ''online'' \<and>
    ni_address (nd_identity nd) = PStr address \<and>
    node_load path fs' = Inr (nd_identity nd) \<and>
    node_create path fs' (Some (ns_db s')) cb t = (Inr nd, t\<lparr>ns_open := True, ns_db := ns_db s'\<rparr>)"
proof -
  obtain idt j now seen added where g: "create_genesis E address path fs file access cb s =
       (Inr (\<lparr>nd_identity = idt, nd_on_message = cb\<rparr>, node_save idt path fs),
        s\<lparr>ns_open := True, w_tick := j,
          ns_db := upsert_node now (discovered seen added (node_id idt) address ''permanent'' access) (storage_open file)\<rparr>)"
    "node_load path (node_save idt path fs) = Inr idt" "ni_address idt = PStr address"
    by (rule genesis_apply [OF assms])
  have "\<exists>e. get_node (node_id idt) (upsert_node now (discovered seen added (node_id idt) address ''permanent'' access) d) = Some e \<and>
      ne_address e = address \<and> ne_status e = ''online''" for d
    by (simp add: get_node_upsert discovered_def split: option.splits)
  then show ?thesis
    unfolding g(1) by (simp add: g(2,3) node_create_def open_storage_def storage_open_def io_simps)
qed

theorem genesis_persists_witness:
  "\<exists>nd fs' s'. create_genesis env0 ''h:1'' ''id.json'' (\<lambda>_. None) None ''open'' None state0 = (Inr (nd, fs'), s') \<and>
     node_load ''id.json'' fs' = Inr (nd_identity nd)"
  using genesis_persists [OF env0_ok(5), of "''h:1''" "''id.json''" "\<lambda>_. None" None "''open''" None state0] by blast

end
