(* ===== verification/Nevod_Client.thy ===== *)
theory Nevod_Client
  imports Nevod_Node
begin

text \<open>
  The cell client (\<^verbatim>\<open>node/client.py\<close>): connecting and registering, sending an encrypted
  message, receiving and decrypting, disconnecting; and the lemmas on the path of a message
  from one cell through a node to another.

  \<^verbatim>\<open>client._do_auth\<close> runs the same exchange as \<^verbatim>\<open>Transport._do_auth\<close> (\<open>auth_exchange\<close>).  The
  receive task is in one of the states of \<open>task\<close>: a task that is cancelled before it first
  ran does nothing, one that is waiting for a frame leaves through its \<^verbatim>\<open>finally\<close> clause.
\<close>

section \<open>State\<close>

datatype task = NoTask | Scheduled | Running | Finished

record client_state = world +
  cs_ws :: "ws option"
  cs_node_id :: string
  cs_node_signing_pubkey :: bytes
  cs_recv_task :: task
  cs_received :: "(pyval \<times> bytes) list"

type_synonym 'a clientM = "(client_state, 'a) io"

record CellClient =
  cc_identity :: CellIdentity
  cc_on_message :: "(pyval \<Rightarrow> bytes \<Rightarrow> exn option) option"

abbreviation my_cell :: "CellClient \<Rightarrow> string" where
  "my_cell cl \<equiv> cell_id (cc_identity cl)"

definition client_init :: "world \<Rightarrow> client_state" where
  "client_init w = \<lparr>w_tick = w_tick w, w_sent = w_sent w, w_closed = w_closed w, cs_ws = None,
     cs_node_id = [], cs_node_signing_pubkey = [], cs_recv_task = NoTask, cs_received = []\<rparr>"

section \<open>Connecting\<close>

definition client_auth :: "env \<Rightarrow> CellClient \<Rightarrow> ws \<Rightarrow> string option \<Rightarrow> (bytes \<times> pyval) clientM" where
  "client_auth E cl ws expected_peer_id =
     bindM (auth_exchange E ws (my_cell cl) (ci_signing (cc_identity cl))
              (ci_encryption (cc_identity cl)) expected_peer_id) (\<lambda>result.
     returnM (ar_signing_pubkey result, ar_enc_pubkey result))"

definition register_dict :: "CellClient \<Rightarrow> pyval" where
  "register_dict cl = PDict [
     (PStr ''cell_id'', PStr (my_cell cl)),
     (PStr ''signing_pubkey'', PBytes (sk_public (ci_signing (cc_identity cl)))),
     (PStr ''enc_pubkey'', PBytes (ek_public (ci_encryption (cc_identity cl)))),
     (PStr ''is_home'', PBool True)]"

text \<open>\<^verbatim>\<open>sign_packet\<close> with the cell's key, then \<^verbatim>\<open>ws.send(pack(...))\<close>.\<close>

definition client_transmit :: "env \<Rightarrow> CellClient \<Rightarrow> ws \<Rightarrow> Packet \<Rightarrow> unit clientM" where
  "client_transmit E cl ws pkt =
     bindM (liftM (sign_packet E pkt (ci_signing (cc_identity cl)))) (\<lambda>q.
     bindM (liftM (pack E q)) (ws_send E ws))"

definition client_register :: "env \<Rightarrow> CellClient \<Rightarrow> ws \<Rightarrow> string \<Rightarrow> unit clientM" where
  "client_register E cl ws node =
     bindM (payload_packet E T_CELL_REGISTER (register_dict cl) (PStr (my_cell cl)) (PStr node))
       (client_transmit E cl ws)"

definition client_connect :: "env \<Rightarrow> CellClient \<Rightarrow> string \<Rightarrow> string option \<Rightarrow> unit clientM" where
  "client_connect E cl address expected_node_id =
     bindM (ws_connect E (''ws://'' @ address)) (\<lambda>ws.
     bindM (client_auth E cl ws expected_node_id) (\<lambda>(node_signing_pub, _).
     bindM (modifyM (\<lambda>s. s\<lparr>cs_node_id := hex node_signing_pub,
                            cs_node_signing_pubkey := node_signing_pub, cs_ws := Some ws\<rparr>)) (\<lambda>_.
     bindM (client_register E cl ws (hex node_signing_pub)) (\<lambda>_.
     modifyM (\<lambda>s. s\<lparr>cs_recv_task := Scheduled\<rparr>)))))"

definition connected :: "env \<Rightarrow> bool clientM" where
  "connected E =
     bindM (getM cs_ws) (\<lambda>w.
     case w of None \<Rightarrow> returnM False | Some ws \<Rightarrow> ws_is_open E ws)"

definition task_starts :: "unit clientM" where
  "task_starts = modifyM (\<lambda>s. if cs_recv_task s = Scheduled then s\<lparr>cs_recv_task := Running\<rparr> else s)"

text \<open>\<^verbatim>\<open>disconnect\<close>: cancelling a running task executes the \<^verbatim>\<open>finally\<close> clause of \<^verbatim>\<open>_recv_loop\<close>, which
  sets \<^verbatim>\<open>self._ws\<close> to \<^verbatim>\<open>None\<close>, before \<^verbatim>\<open>disconnect\<close> looks at it.\<close>

definition client_disconnect :: "unit clientM" where
  "client_disconnect =
     bindM (modifyM (\<lambda>s.
       case cs_recv_task s of
         NoTask \<Rightarrow> s
       | Running \<Rightarrow> s\<lparr>cs_ws := None, cs_recv_task := NoTask\<rparr>
       | _ \<Rightarrow> s\<lparr>cs_recv_task := NoTask\<rparr>)) (\<lambda>_.
     bindM (getM cs_ws) (\<lambda>w.
     case w of
       None \<Rightarrow> returnM ()
     | Some ws \<Rightarrow> bindM (ws_close ws) (\<lambda>_. modifyM (\<lambda>s. s\<lparr>cs_ws := None\<rparr>))))"

section \<open>Sending and receiving\<close>

definition client_send :: "env \<Rightarrow> CellClient \<Rightarrow> string \<Rightarrow> string \<Rightarrow> bytes \<Rightarrow> bytes \<Rightarrow> unit clientM" where
  "client_send E cl to_cell to_node recipient_enc_pubkey plaintext =
     bindM (connected E) (\<lambda>ok.
     if \<not> ok then raiseM RuntimeError
     else
       bindM (encrypt E plaintext recipient_enc_pubkey) (\<lambda>enc.
       bindM (getM cs_node_id) (\<lambda>nid.
       bindM (payload_packet E T_MSG (encrypted_dict enc)
                (PStr (my_cell cl @ CHR ''@'' # nid)) (PStr (to_cell @ CHR ''@'' # to_node))) (\<lambda>pkt.
       bindM (getM cs_ws) (\<lambda>w.
       case w of
         None \<Rightarrow> raiseM AttributeError
       | Some ws \<Rightarrow> client_transmit E cl ws pkt)))))"

definition message_plaintext :: "env \<Rightarrow> CellClient \<Rightarrow> Packet \<Rightarrow> exn + bytes" where
  "message_plaintext E cl pkt =
     bindR (decode_payload E (p_payload pkt)) (\<lambda>data.
     bindR (bindR (py_index data ''ciphertext'') py_bytes) (\<lambda>ciphertext.
     bindR (bindR (py_index data ''nonce'') py_bytes) (\<lambda>nonce.
     bindR (bindR (py_index data ''ephemeral_pubkey'') py_bytes) (\<lambda>ephemeral_pubkey.
     decrypt E ciphertext nonce ephemeral_pubkey (ci_encryption (cc_identity cl))))))"

definition client_handle_msg :: "env \<Rightarrow> CellClient \<Rightarrow> Packet \<Rightarrow> unit clientM" where
  "client_handle_msg E cl pkt =
     (case message_plaintext E cl pkt of
        Inl e \<Rightarrow> if sliceable (p_from pkt) then returnM () else raiseM TypeError
      | Inr plaintext \<Rightarrow>
          (case cc_on_message cl of
             None \<Rightarrow> returnM ()
           | Some cb \<Rightarrow>
               bindM (modifyM (\<lambda>s. s\<lparr>cs_received := cs_received s @ [(p_from pkt, plaintext)]\<rparr>)) (\<lambda>_.
               case cb (p_from pkt) plaintext of None \<Rightarrow> returnM () | Some e \<Rightarrow> raiseM e)))"

definition client_dispatch :: "env \<Rightarrow> CellClient \<Rightarrow> Packet \<Rightarrow> unit clientM" where
  "client_dispatch E cl pkt =
     (if p_type pkt = PStr T_MSG then client_handle_msg E cl pkt else returnM ())"

definition client_frame :: "env \<Rightarrow> CellClient \<Rightarrow> bytes \<Rightarrow> unit clientM" where
  "client_frame E cl raw =
     bindM (liftM (unpack E raw)) (\<lambda>pkt.
     bindM (getM cs_node_signing_pubkey) (\<lambda>key.
     bindM (liftM (verify_packet E pkt key)) (\<lambda>ok.
     if \<not> ok then returnM () else client_dispatch E cl pkt)))"

text \<open>\<^verbatim>\<open>_recv_loop\<close> on the frames that arrive before the socket closes: every exception is logged
  and ends the loop, here also one of the callback.\<close>

definition client_recv_loop :: "env \<Rightarrow> CellClient \<Rightarrow> bytes list \<Rightarrow> unit clientM" where
  "client_recv_loop E cl frames =
     finallyM (tryM (forM frames (client_frame E cl)) (\<lambda>e. returnM ()))
       (modifyM (\<lambda>s. s\<lparr>cs_ws := None, cs_recv_task := Finished\<rparr>))"

text \<open>The same loop one frame at a time, for a program that does other things between two frames:
  a frame for a task that waits for one, and the end of the socket.\<close>

definition client_loop_ends :: "unit clientM" where
  "client_loop_ends = modifyM (\<lambda>s. s\<lparr>cs_ws := None, cs_recv_task := Finished\<rparr>)"

definition client_recv_step :: "env \<Rightarrow> CellClient \<Rightarrow> bytes \<Rightarrow> unit clientM" where
  "client_recv_step E cl raw =
     bindM (getM cs_recv_task) (\<lambda>t.
     if t = Running then tryM (client_frame E cl raw) (\<lambda>e. client_loop_ends) else returnM ())"

definition client_closed :: "unit clientM" where
  "client_closed =
     bindM (getM cs_recv_task) (\<lambda>t. if t = Running then client_loop_ends else returnM ())"

section \<open>The path of a message\<close>

text \<open>A plaintext whose ciphertext and encoded payload stay within the limits of MessagePack.\<close>

definition fits :: "env \<Rightarrow> bytes \<Rightarrow> bool" where
  "fits E pt \<longleftrightarrow> (\<forall>k n. length (aead_encrypt E k n pt) < 2 ^ 32) \<and>
     (\<forall>c k n b. length (em_ephemeral_pubkey c) = 32 \<longrightarrow> length (em_nonce c) = 12 \<longrightarrow>
        em_ciphertext c = aead_encrypt E k n pt \<longrightarrow> e_packb E (encrypted_dict c) = Inr b \<longrightarrow> length b < 2 ^ 32)"

definition packages_ok :: "env \<Rightarrow> bool" where
  "packages_ok E \<longleftrightarrow> msgpack_ok E \<and> ed25519_ok E \<and> x25519_ok E \<and> chacha_ok E \<and> urandom_ok E \<and> clock_ok E"

lemma encrypt_ciphertext:
  "encrypt E pt pk s = (Inr c, s') \<Longrightarrow> \<exists>k n. em_ciphertext c = aead_encrypt E k n pt"
  by (auto simp: encrypt_def io_simps Let_def split: if_splits sum.splits) blast

lemma utf8_ok_join: "utf8_ok a \<Longrightarrow> utf8_ok b \<Longrightarrow> utf8_ok (a @ CHR ''@'' # b)"
  by (rule utf8_ok_append) (auto simp: Let_def)

lemma sealed_payload:
  assumes "packages_ok E" "encryption_valid E kp" "fits E pt"
  obtains c pl where "encrypt E pt (ek_public kp) s = (Inr c, s\<lparr>w_tick := Suc (Suc (w_tick s))\<rparr>)"
    "e_packb E (encrypted_dict c) = Inr pl" "e_unpackb E pl = Inr (encrypted_dict c)" "length pl < 2 ^ 32"
    "decrypt E (em_ciphertext c) (em_nonce c) (em_ephemeral_pubkey c) kp = Inr pt"
proof -
  have env: "msgpack_ok E" "x25519_ok E" "chacha_ok E" "urandom_ok E" using assms(1) by (simp_all add: packages_ok_def)
  obtain c where c: "encrypt E pt (ek_public kp) s = (Inr c, s\<lparr>w_tick := Suc (Suc (w_tick s))\<rparr>)"
    "decrypt E (em_ciphertext c) (em_nonce c) (em_ephemeral_pubkey c) kp = Inr pt"
    "length (em_nonce c) = 12" "length (em_ephemeral_pubkey c) = 32"
    using encrypt_decrypt [OF env(2-4) assms(2), of pt s] by blast
  obtain k n where ct: "em_ciphertext c = aead_encrypt E k n pt" using encrypt_ciphertext [OF c(1)] by blast
  have "packable (encrypted_dict c)"
    using c(3,4) ct assms(3) by (simp add: packable_def encrypted_dict_def fits_def Let_def)
  then obtain pl where pl: "e_packb E (encrypted_dict c) = Inr pl" "e_unpackb E pl = Inr (encrypted_dict c)"
    by (rule msgpack_okD [OF env(1)])
  moreover have "length pl < 2 ^ 32" using assms(3) c(3,4) ct pl(1) unfolding fits_def by blast
  ultimately show ?thesis using that c(1,2) by blast
qed

text \<open>A message packet whose payload decrypts to the plaintext with the recipient's key.\<close>

definition carries :: "env \<Rightarrow> bytes \<Rightarrow> EncryptionKeypair \<Rightarrow> bytes \<Rightarrow> bool" where
  "carries E pl kp pt \<longleftrightarrow> (\<exists>c. e_unpackb E pl = Inr (encrypted_dict c) \<and>
     decrypt E (em_ciphertext c) (em_nonce c) (em_ephemeral_pubkey c) kp = Inr pt)"

lemma carries_plaintext:
  assumes "carries E pl (ci_encryption (cc_identity cl)) pt" "p_payload p = PBytes pl"
  shows "message_plaintext E cl p = Inr pt"
  using assms by (auto simp: carries_def message_plaintext_def decode_payload_def encrypted_dict_def)

lemma client_sends:
  assumes ok: "packages_ok E" and key: "signing_valid E (ci_signing (cc_identity cl))"
    and kp: "encryption_valid E kp" and pt: "fits E pt"
    and w: "wire_str (cs_node_id s)" "wire_str c" "wire_str n" "length c + length n < 2 ^ 31" "length (cs_node_id s) < 2 ^ 31"
    and ws: "cs_ws s = Some ws" "\<And>k. e_open E k ws" "\<And>k b. e_send E k ws b = None"
  obtains i ts sg pl b s' where "client_send E cl c n (ek_public kp) pt s = (Inr (), s')"
    "w_sent s' = w_sent s @ [(ws, b)]" "cs_received s' = cs_received s" "carries E pl kp pt"
    "unpack E b = Inr (typed_packet i ''msg'' (my_cell cl @ CHR ''@'' # cs_node_id s) (c @ CHR ''@'' # n) pl sg ts 1)"
    "verify_packet E (typed_packet i ''msg'' (my_cell cl @ CHR ''@'' # cs_node_id s) (c @ CHR ''@'' # n) pl sg ts 1)
       (sk_public (ci_signing (cc_identity cl))) = Inr True"
    "packable (packet_dict (typed_packet i ''msg'' (my_cell cl @ CHR ''@'' # cs_node_id s) (c @ CHR ''@'' # n) pl sg ts 1))"
proof -
  have env: "msgpack_ok E" "ed25519_ok E" "clock_ok E" using ok by (simp_all add: packages_ok_def)
  let ?s1 = "s\<lparr>w_tick := Suc (w_tick s)\<rparr>" and ?s2 = "s\<lparr>w_tick := Suc (Suc (Suc (w_tick s)))\<rparr>"
  obtain e pl where e: "encrypt E pt (ek_public kp) ?s1 = (Inr e, ?s2)"
    "e_packb E (encrypted_dict e) = Inr pl" "e_unpackb E pl = Inr (encrypted_dict e)" "length pl < 2 ^ 32"
    "decrypt E (em_ciphertext e) (em_nonce e) (em_ephemeral_pubkey e) kp = Inr pt"
    by (rule sealed_payload [OF ok kp pt, of ?s1]) simp
  let ?p = "\<lambda>sg. typed_packet (e_uuid E (w_tick ?s2)) ''msg'' (my_cell cl @ CHR ''@'' # cs_node_id s)
    (c @ CHR ''@'' # n) pl sg (e_time E (Suc (w_tick ?s2))) 1"
  have cid: "length (my_cell cl) = 64" "utf8_ok (my_cell cl)"
    using length_public [OF env(2) key] by (simp_all add: cell_id_def)
  have "packable (packet_dict (?p []))"
    unfolding packable_typed
    using w e(4) cid clock_okD [OF env(3), of "w_tick ?s2"] clock_okD [OF env(3), of "Suc (w_tick ?s2)"]
    by (auto simp: utf8_ok_join Let_def)
  then obtain sg b where q: "sign_packet E (?p []) (ci_signing (cc_identity cl)) = Inr (?p sg)" "pack E (?p sg) = Inr b"
    "unpack E b = Inr (?p sg)" "verify_packet E (?p sg) (sk_public (ci_signing (cc_identity cl))) = Inr True"
    "packable (packet_dict (?p sg))"
    by (rule signed_frame [OF env(1,2) key])
  have new: "payload_packet E T_MSG (encrypted_dict e) (PStr (my_cell cl @ CHR ''@'' # cs_node_id s))
      (PStr (c @ CHR ''@'' # n)) ?s2 = (Inr (?p []), ?s2\<lparr>w_tick := Suc (Suc (w_tick ?s2))\<rparr>)"
    by (simp add: payload_packet_apply [OF e(2)] new_packet_apply typed_packet_def PROTO_VERSION_def)
  have run: "client_send E cl c n (ek_public kp) pt s = (Inr (), s\<lparr>w_tick := w_tick s + 6, w_sent := w_sent s @ [(ws, b)]\<rparr>)"
    using ws e(1) q(1,2) new
    by (simp add: client_send_def connected_def client_transmit_def bindM_apply getM_apply ws_is_open_apply
        liftM_apply ws_send_apply eval_nat_numeral)
  have car: "carries E pl kp pt" using e(3,5) by (auto simp: carries_def)
  show ?thesis by (rule that [OF run _ _ car q(3-5)]) simp_all
qed

lemma node_delivers:
  assumes "node_ok E nd" "home_here nd c s" "dict_get (ns_conns s) c = Some toB"
    "\<And>k b. e_send E k (pc_ws toB) b = None"
    and p: "packable (packet_dict (typed_packet i ''msg'' f (c @ CHR ''@'' # n) pl sg ts v))"
  obtains b sg' where
    "route E nd (typed_packet i ''msg'' f (c @ CHR ''@'' # n) pl sg ts v) s =
       (Inr (), s\<lparr>w_tick := Suc (w_tick s), w_sent := w_sent s @ [(pc_ws toB, b)]\<rparr>)"
    "unpack E b = Inr (typed_packet i ''msg'' f (c @ CHR ''@'' # n) pl sg' ts v)"
    "verify_packet E (typed_packet i ''msg'' f (c @ CHR ''@'' # n) pl sg' ts v)
       (sk_public (ni_signing (nd_identity nd))) = Inr True"
proof -
  let ?p = "\<lambda>sg. typed_packet i ''msg'' f (c @ CHR ''@'' # n) pl sg ts v"
  obtain sg' b where q: "transport_sign E nd (?p sg) = Inr (?p sg')" "pack E (?p sg') = Inr b"
    "unpack E b = Inr (?p sg')" "verify_packet E (?p sg') (sk_public (ni_signing (nd_identity nd))) = Inr True"
    using assms(1) by (elim transport_frame [rotated 3, OF p]) (auto simp: node_ok_def)
  have to: "p_to (?p sg) = PStr (c @ CHR ''@'' # n)" by (simp add: typed_packet_def)
  from assms(2) obtain pr where pr: "get_presence c (ns_db s) = Some pr" "visiting pr = None"
    "pe_home_node_id pr = my_id nd" and c: "ns_open s" "c \<noteq> []" "CHR ''@'' \<notin> set c"
    by (auto simp: home_here_def split: option.splits)
  have "route E nd (?p sg) s =
       (Inr (), s\<lparr>w_tick := Suc (w_tick s), w_sent := w_sent s @ [(pc_ws toB, b)]\<rparr>)"
    using assms(3,4) c
    by (simp add: route_home [OF to c(3,1) pr] deliver_local_def to parse_addr_cell bindM_apply liftM_apply
        send_to_cases [OF q(1,2)] returnM_apply del: parse_addr.simps)
  with q(3,4) that show ?thesis by blast
qed

lemma client_receives:
  assumes "unpack E b = Inr p" "verify_packet E p (cs_node_signing_pubkey s) = Inr True"
    "p_type p = PStr T_MSG" "p_payload p = PBytes pl" "carries E pl (ci_encryption (cc_identity cl)) pt"
    "cc_on_message cl = Some cb" "cb (p_from p) pt = None"
  shows "client_frame E cl b s = (Inr (), s\<lparr>cs_received := cs_received s @ [(p_from p, pt)]\<rparr>)"
  using assms carries_plaintext [OF assms(5,4)]
  by (simp add: client_frame_def client_dispatch_def client_handle_msg_def io_simps)

section \<open>Two example cells on the example node\<close>

definition kp2 :: SigningKeypair where
  "kp2 = \<lparr>sk_private = replicate 32 7, sk_public = replicate 32 7\<rparr>"

definition alice0 :: CellClient where
  "alice0 = \<lparr>cc_identity = \<lparr>ci_signing = kp1, ci_encryption = en0, ci_name = PStr ''a''\<rparr>, cc_on_message = None\<rparr>"

definition bob0 :: CellClient where
  "bob0 = \<lparr>cc_identity = \<lparr>ci_signing = kp2, ci_encryption = en0, ci_name = PStr ''b''\<rparr>,
     cc_on_message = Some (\<lambda>f p. None)\<rparr>"

definition client0 :: client_state where
  "client0 = (client_init world0)\<lparr>cs_ws := Some 3, cs_node_id := my_id nd0,
     cs_node_signing_pubkey := sk_public (ni_signing (nd_identity nd0)), cs_recv_task := Running\<rparr>"

definition with_bob :: node_state where
  "with_bob = state0\<lparr>ns_db := update_presence 1 (my_cell bob0) (my_id nd0) None empty_db,
     ns_conns := [(my_cell bob0, peer1)]\<rparr>"

lemma example_cells [simp]:
  "signing_valid env0 (ci_signing (cc_identity alice0))" "signing_valid env0 (ci_signing (cc_identity bob0))"
  "encryption_valid env0 (ci_encryption (cc_identity bob0))" "signing_valid env0 (ni_signing (nd_identity nd0))"
  "packages_ok env0"
  by (simp_all add: alice0_def bob0_def kp2_def signing_valid_def encryption_valid_def en0_def packages_ok_def
      clock_ok_def kp1_def kp0_def nd0_def Let_def)

lemma fits_env0: "fits env0 [1, 2]"
  by (auto simp: fits_def encrypted_dict_def ex_nat_def)

lemma with_bob_facts:
  "home_here nd0 (my_cell bob0) with_bob" "dict_get (ns_conns with_bob) (my_cell bob0) = Some peer1"
proof -
  have "length (my_cell bob0) = 64" by (simp add: cell_id_def bob0_def kp2_def)
  then have "my_cell bob0 \<noteq> []" by (metis list.size(3) zero_neq_numeral)
  then show "home_here nd0 (my_cell bob0) with_bob"
    by (simp add: home_here_def with_bob_def state0_def get_presence_update cell_id_def at_not_in_hex)
  show "dict_get (ns_conns with_bob) (my_cell bob0) = Some peer1"
    by (simp add: with_bob_def dict_get_def)
qed

text \<open>
  \<^verbatim>\<open>disconnect\<close> leaves the socket open.  While the receive task is waiting for frames,
  cancelling it clears \<^verbatim>\<open>self._ws\<close> before the close is attempted, so the socket is never
  closed: the client forgets it, and the node keeps the cell in its registry.  Only a task
  that has not started yet leaves the socket to be closed.
\<close>
theorem disconnect_leaves_socket_open:
  assumes "cs_ws s = Some ws"
  shows "(cs_recv_task s = Running \<longrightarrow>
      client_disconnect s = (Inr (), s\<lparr>cs_ws := None, cs_recv_task := NoTask\<rparr>)) \<and>
    (cs_recv_task s = Scheduled \<longrightarrow>
      client_disconnect s = (Inr (), s\<lparr>cs_recv_task := NoTask, w_closed := w_closed s @ [ws], cs_ws := None\<rparr>))"
  using assms by (simp add: client_disconnect_def io_simps)

theorem disconnect_leaves_socket_open_witness:
  "cs_ws client0 = Some 3 \<and> w_closed (snd (client_disconnect client0)) = [] \<and> cs_ws (snd (client_disconnect client0)) = None"
proof -
  have ws: "cs_ws client0 = Some 3" by (simp add: client0_def)
  have "client_disconnect client0 = (Inr (), client0\<lparr>cs_ws := None, cs_recv_task := NoTask\<rparr>)"
    using disconnect_leaves_socket_open [OF ws] by (simp add: client0_def)
  with ws show ?thesis by (simp add: client0_def client_init_def world0_def)
qed

section \<open>What a cell can trust\<close>

lemma keeps_for_in: "(\<And>x. x \<in> set xs \<Longrightarrow> keeps I (f x)) \<Longrightarrow> keeps I (forM xs f)"
  by (induction xs) (auto intro!: keeps_intros)

lemma client_frame_cases:
  "snd (client_frame E cl raw t) = t \<or>
   (\<exists>p pt. unpack E raw = Inr p \<and> verify_packet E p (cs_node_signing_pubkey t) = Inr True \<and>
      p_type p = PStr T_MSG \<and> message_plaintext E cl p = Inr pt \<and>
      snd (client_frame E cl raw t) = t\<lparr>cs_received := cs_received t @ [(p_from p, pt)]\<rparr>)"
  by (auto simp: client_frame_def client_dispatch_def client_handle_msg_def io_simps
      split: sum.splits option.splits if_splits)

text \<open>
  C20: a cell's callback only receives what its node vouched for and what decrypts.  Whatever
  frames arrive, the receive loop ends normally, and each message it hands to the callback
  comes from one of the frames: a packet of type \<^verbatim>\<open>msg\<close> signed with the key of the node the
  cell authenticated, whose payload decrypts with the cell's own key to that plaintext.
\<close>
theorem client_receives_only_vouched:
  assumes "client_recv_loop E cl frames s = (r, s')"
  shows "r = Inr () \<and> cs_ws s' = None \<and>
    (\<forall>(f, pt) \<in> set (cs_received s') - set (cs_received s). \<exists>raw \<in> set frames. \<exists>p.
       unpack E raw = Inr p \<and> verify_packet E p (cs_node_signing_pubkey s) = Inr True \<and>
       p_type p = PStr T_MSG \<and> p_from p = f \<and> message_plaintext E cl p = Inr pt)"
proof -
  define ok where "ok = (\<lambda>(f, pt). \<exists>raw \<in> set frames. \<exists>p.
       unpack E raw = Inr p \<and> verify_packet E p (cs_node_signing_pubkey s) = Inr True \<and>
       p_type p = PStr T_MSG \<and> p_from p = f \<and> message_plaintext E cl p = Inr pt)"
  let ?I = "\<lambda>t. cs_node_signing_pubkey t = cs_node_signing_pubkey s \<and>
    (\<forall>m \<in> set (cs_received t) - set (cs_received s). ok m)"
  have okI: "ok (p_from p, pt)" if "raw \<in> set frames" "unpack E raw = Inr p"
    "verify_packet E p (cs_node_signing_pubkey s) = Inr True" "p_type p = PStr T_MSG"
    "message_plaintext E cl p = Inr pt" for raw p pt
    unfolding ok_def prod.case by (intro bexI [OF _ that(1)] exI [of _ p] conjI that(2-) refl)
  have frame: "keeps ?I (client_frame E cl raw)" if "raw \<in> set frames" for raw
  proof (rule keepsI)
    fix t :: client_state assume t: "?I t"
    consider "snd (client_frame E cl raw t) = t" |
      p pt where "unpack E raw = Inr p" "verify_packet E p (cs_node_signing_pubkey t) = Inr True"
        "p_type p = PStr T_MSG" "message_plaintext E cl p = Inr pt"
        "snd (client_frame E cl raw t) = t\<lparr>cs_received := cs_received t @ [(p_from p, pt)]\<rparr>"
      using client_frame_cases [of E cl raw t] by blast
    then show "?I (snd (client_frame E cl raw t))"
    proof cases
      case 1
      with t show ?thesis by simp
    next
      case 2
      have "verify_packet E p (cs_node_signing_pubkey s) = Inr True" using 2(2) t by simp
      from okI [OF that 2(1) this 2(3,4)] have "ok (p_from p, pt)" .
      with 2(5) t show ?thesis by auto
    qed
  qed
  have "keeps ?I (client_recv_loop E cl frames)"
    unfolding client_recv_loop_def
    by (intro keeps_finally keeps_try keeps_for_in frame keeps_intros keeps_modify) simp_all
  from keepsD [OF this, of s] assms have "\<forall>m \<in> set (cs_received s') - set (cs_received s). ok m" by simp
  moreover have "r = Inr () \<and> cs_ws s' = None"
    using assms by (auto simp: client_recv_loop_def finallyM_def io_simps split: prod.splits sum.splits)
  ultimately show ?thesis by (simp add: ok_def)
qed

theorem client_receives_only_vouched_witness:
  "\<exists>s'. client_recv_loop env0 bob0 [[99]] client0 = (Inr (), s') \<and> cs_ws s' = None \<and>
     (\<forall>m. m \<in> set (cs_received s') - set (cs_received client0) \<longrightarrow> (\<exists>p. unpack env0 [99] = Inr p))"
proof -
  obtain r s' where run: "client_recv_loop env0 bob0 [[99]] client0 = (r, s')"
    by (cases "client_recv_loop env0 bob0 [[99]] client0")
  from client_receives_only_vouched [OF run] run show ?thesis by fastforce
qed

section \<open>The receive loop frame by frame\<close>

lemma client_frame_task: "cs_recv_task (snd (client_frame E cl raw s)) = cs_recv_task s"
  using client_frame_cases [of E cl raw s] by (elim disjE exE conjE) simp_all

lemma client_step_apply:
  "client_recv_step E cl raw s =
     (if cs_recv_task s \<noteq> Running then (Inr (), s)
      else (case client_frame E cl raw s of
              (Inl e, t) \<Rightarrow> (Inr (), t\<lparr>cs_ws := None, cs_recv_task := Finished\<rparr>) | (Inr _, t) \<Rightarrow> (Inr (), t)))"
  by (auto simp: client_recv_step_def client_loop_ends_def io_simps split: prod.splits sum.splits)

lemma client_closed_apply [io_simps]:
  "client_closed s =
     (if cs_recv_task s \<noteq> Running then (Inr (), s) else (Inr (), s\<lparr>cs_ws := None, cs_recv_task := Finished\<rparr>))"
  by (simp add: client_closed_def client_loop_ends_def io_simps)

lemma client_steps_finished:
  "cs_recv_task s \<noteq> Running \<Longrightarrow> forM frames (client_recv_step E cl) s = (Inr (), s)"
  by (induction frames) (simp_all add: returnM_apply bindM_apply client_step_apply)

text \<open>
  handling frames one at a time is the receive loop.  For a running receive task, the loop
  over all frames ends in the same state as a step per frame followed by the closing of the
  socket; a frame that raises ends the task, and the frames after it are ignored.
\<close>
theorem client_loop_is_steps:
  assumes "cs_recv_task s = Running"
  shows "client_recv_loop E cl frames s =
    bindM (forM frames (client_recv_step E cl)) (\<lambda>_. client_closed) s"
  using assms
proof (induction frames arbitrary: s)
  case Nil
  then show ?case
    by (simp add: client_recv_loop_def finallyM_def io_simps)
next
  case (Cons raw frames)
  obtain r t where f: "client_frame E cl raw s = (r, t)" by (cases "client_frame E cl raw s")
  show ?case
  proof (cases r)
    case (Inl e)
    let ?t = "t\<lparr>cs_ws := None, cs_recv_task := Finished\<rparr>"
    have "client_recv_step E cl raw s = (Inr (), ?t)" using Inl f Cons.prems by (simp add: client_step_apply)
    then have "forM (raw # frames) (client_recv_step E cl) s = (Inr (), ?t)"
      using client_steps_finished [of ?t frames] by (simp add: bindM_apply)
    with Inl f show ?thesis by (simp add: client_recv_loop_def finallyM_def io_simps)
  next
    case (Inr u)
    have "client_recv_step E cl raw s = (Inr (), t)" using Inr f Cons.prems by (simp add: client_step_apply)
    moreover have "client_recv_loop E cl (raw # frames) s = client_recv_loop E cl frames t"
      using Inr f by (simp add: client_recv_loop_def finallyM_def io_simps)
    moreover have "cs_recv_task t = Running" using client_frame_task [of E cl raw s] f Cons.prems by simp
    ultimately show ?thesis using Cons.IH by (simp add: bindM_apply)
  qed
qed

theorem client_loop_is_steps_witness:
  "cs_recv_task client0 = Running \<and>
   client_recv_loop env0 bob0 [[99], []] client0 =
     bindM (forM [[99], []] (client_recv_step env0 bob0)) (\<lambda>_. client_closed) client0"
proof -
  have r: "cs_recv_task client0 = Running" by (simp add: client0_def)
  with client_loop_is_steps [OF r] show ?thesis by blast
qed

end
