(* ===== verification/Nevod_Console.thy ===== *)
theory Nevod_Console
  imports Nevod_Client
begin

text \<open>
  The console of the command line (\<^verbatim>\<open>nevod.py\<close>) and the commands that only read and write
  identity files: \<^verbatim>\<open>init\<close>, \<^verbatim>\<open>info\<close>, \<^verbatim>\<open>cell init\<close>, \<^verbatim>\<open>cell info\<close>.

  The state of a process is what it shares with the machine: the identity files, the database
  files, what was printed, and the world.  Standard output and standard error are one list of
  entries, in order; the text of an exception is not modelled, an entry carries the exception
  itself.  A command returns its exit status; an exception it does not catch is the error of
  the computation.
\<close>

section \<open>Output\<close>

datatype printed =
    Out string
  | OutExn string exn
  | Err string
  | ErrExn string exn
  | Prompt
  | Shown pyval bytes

record console =
  co_files :: files
  co_dbs :: "string \<Rightarrow> db option"
  co_world :: world
  co_out :: "printed list"

type_synonym ('c, 'a) cli = "('c console_scheme, 'a) io"

definition echo :: "printed \<Rightarrow> ('c, unit) cli" where
  "echo x = modifyM (\<lambda>s. s\<lparr>co_out := co_out s @ [x]\<rparr>)"

definition on_world :: "(world, 'a) io \<Rightarrow> ('c, 'a) cli" where
  "on_world m = (\<lambda>s. case m (co_world s) of (r, w) \<Rightarrow> (r, s\<lparr>co_world := w\<rparr>))"

lemma echo_apply [io_simps]: "echo x s = (Inr (), s\<lparr>co_out := co_out s @ [x]\<rparr>)"
  by (simp add: echo_def io_simps)

lemma forM_echo: "forM xs echo s = (Inr (), s\<lparr>co_out := co_out s @ xs\<rparr>)"
  by (induction xs arbitrary: s) (simp_all add: io_simps)

text \<open>Computations that never raise.\<close>

definition calm :: "('s, 'a) io \<Rightarrow> bool" where
  "calm m \<longleftrightarrow> (\<forall>s. \<exists>x t. m s = (Inr x, t))"

named_theorems calm_intros "introduction rules for computations that never raise"

lemma calmD: "calm m \<Longrightarrow> \<exists>x t. m s = (Inr x, t)"
  by (simp add: calm_def)

lemma calm_basic [calm_intros]:
  "calm (returnM x)" "calm (getM f)" "calm (modifyM g)" "calm (echo y)"
  by (simp_all add: calm_def io_simps echo_def)

lemma calm_bind [calm_intros]: "calm m \<Longrightarrow> (\<And>x. calm (f x)) \<Longrightarrow> calm (bindM m f)"
  unfolding calm_def bindM_apply by (metis (no_types, lifting) case_prod_conv sum.simps(6))

lemma calm_try [calm_intros]: "(\<And>e. calm (h e)) \<Longrightarrow> calm (tryM m h)"
  unfolding calm_def tryM_apply by (auto split: prod.splits sum.splits)

lemma calm_for [calm_intros]: "(\<And>x. calm (f x)) \<Longrightarrow> calm (forM xs f)"
  by (induction xs) (auto intro: calm_intros)

lemma calm_if [calm_intros]: "calm m \<Longrightarrow> calm m' \<Longrightarrow> calm (if b then m else m')"
  by simp

lemma calm_option [calm_intros]:
  "calm m \<Longrightarrow> (\<And>y. calm (f y)) \<Longrightarrow> calm (case x of None \<Rightarrow> m | Some y \<Rightarrow> f y)"
  by (cases x) auto

lemma calm_sum [calm_intros]:
  "(\<And>e. calm (f e)) \<Longrightarrow> (\<And>y. calm (g y)) \<Longrightarrow> calm (case x of Inl e \<Rightarrow> f e | Inr y \<Rightarrow> g y)"
  by (cases x) auto

lemma calm_prod [calm_intros]: "(\<And>a b. calm (f a b)) \<Longrightarrow> calm (case x of (a, b) \<Rightarrow> f a b)"
  by (cases x) auto

text \<open>The UTF-8 bytes of the arrow and of the dash in the messages.\<close>

definition arrow :: string where
  "arrow = [CHR 0xE2, CHR 0x86, CHR 0x92]"

definition dash :: string where
  "dash = [CHR 0xE2, CHR 0x80, CHR 0x94]"

section \<open>Identity commands\<close>

definition node_type_choice :: "string list" where
  "node_type_choice = [''permanent'', ''temporary'']"

definition access_choice :: "string list" where
  "access_choice = [''open'', ''closed'']"

text \<open>\<^verbatim>\<open>init\<close>.  \<^verbatim>\<open>click\<close> runs it only with values of the two choices; other values end the process with
  status 2 before the body.\<close>

definition cmd_init :: "env \<Rightarrow> string \<Rightarrow> string \<Rightarrow> string \<Rightarrow> string \<Rightarrow> ('c, int) cli" where
  "cmd_init E address out node_type access =
     (if node_type \<notin> set node_type_choice \<or> access \<notin> set access_choice then returnM 2
      else
        bindM (on_world (node_generate E address node_type access)) (\<lambda>identity.
        bindM (modifyM (\<lambda>s. s\<lparr>co_files := node_save identity out (co_files s)\<rparr>)) (\<lambda>_.
        bindM (forM [Out (''node_id : '' @ node_id identity),
                     Out (''address : '' @ address),
                     Out (''type    : '' @ node_type @ '' / '' @ access),
                     Out (''saved   : '' @ out)] echo) (\<lambda>_.
        returnM 0))))"

definition cmd_info :: "env \<Rightarrow> string \<Rightarrow> ('c, int) cli" where
  "cmd_info E identity =
     bindM (getM co_files) (\<lambda>fs.
     case node_load identity fs of
       Inl FileNotFoundError \<Rightarrow> bindM (echo (Err (''not found: '' @ identity))) (\<lambda>_. returnM 1)
     | Inl e \<Rightarrow> raiseM e
     | Inr idt \<Rightarrow>
         bindM (forM [Out (''node_id : '' @ node_id idt),
                      Out (''address : '' @ py_str E (ni_address idt)),
                      Out (''type    : '' @ py_str E (ni_node_type idt) @ '' / '' @ py_str E (ni_access idt)),
                      Out (''enc_pub : '' @ hex (ek_public (ni_encryption idt)))] echo) (\<lambda>_.
         returnM 0))"

definition cell_out :: "string \<Rightarrow> string option \<Rightarrow> string" where
  "cell_out name out = (case out of None \<Rightarrow> name @ ''.cell.json'' | Some p \<Rightarrow> p)"

definition cmd_cell_init :: "env \<Rightarrow> string \<Rightarrow> string option \<Rightarrow> ('c, int) cli" where
  "cmd_cell_init E name out_opt =
     (let out = cell_out name out_opt in
      bindM (on_world (cell_generate E name)) (\<lambda>idt.
      bindM (modifyM (\<lambda>s. s\<lparr>co_files := cell_save idt out (co_files s)\<rparr>)) (\<lambda>_.
      bindM (forM [Out (''name    : '' @ name),
                   Out (''cell_id : '' @ cell_id idt),
                   Out (''enc_pub : '' @ hex (ek_public (ci_encryption idt))),
                   Out (''saved   : '' @ out)] echo) (\<lambda>_.
      returnM 0))))"

definition cmd_cell_info :: "env \<Rightarrow> string \<Rightarrow> ('c, int) cli" where
  "cmd_cell_info E identity =
     bindM (getM co_files) (\<lambda>fs.
     case cell_load identity fs of
       Inl FileNotFoundError \<Rightarrow> bindM (echo (Err (''not found: '' @ identity))) (\<lambda>_. returnM 1)
     | Inl e \<Rightarrow> raiseM e
     | Inr idt \<Rightarrow>
         bindM (forM [Out (''name    : '' @ py_str E (ci_name idt)),
                      Out (''cell_id : '' @ cell_id idt),
                      Out (''enc_pub : '' @ hex (ek_public (ci_encryption idt)))] echo) (\<lambda>_.
         returnM 0))"

section \<open>What they print\<close>

lemma on_world_apply [io_simps]:
  "on_world m s = (case m (co_world s) of (r, w) \<Rightarrow> (r, s\<lparr>co_world := w\<rparr>))"
  by (simp add: on_world_def)

lemma cell_generate_valid:
  assumes "urandom_ok E"
  obtains idt where "cell_generate E name w = (Inr idt, w\<lparr>w_tick := Suc (Suc (w_tick w))\<rparr>)"
    "cell_valid E idt" "ci_name idt = PStr name"
proof -
  define idt where "idt = (case fst (cell_generate E name w) of Inr c \<Rightarrow> c)"
  have "cell_generate E name w = (Inr idt, w\<lparr>w_tick := Suc (Suc (w_tick w))\<rparr>)" "cell_valid E idt"
    "ci_name idt = PStr name"
    using assms by (simp_all add: idt_def cell_generate_def gen_signing_def gen_encryption_def
        io_simps cell_valid_def signing_valid_def encryption_valid_def urandom_ok_def)
  then show thesis by (rule that)
qed

lemma node_generate_valid:
  assumes "urandom_ok E"
  obtains idt where "node_generate E a t x w = (Inr idt, w\<lparr>w_tick := Suc (Suc (w_tick w))\<rparr>)"
    "node_valid E idt" "ni_address idt = PStr a" "ni_node_type idt = PStr t" "ni_access idt = PStr x"
proof -
  define idt where "idt = (case fst (node_generate E a t x w) of Inr c \<Rightarrow> c)"
  have "node_generate E a t x w = (Inr idt, w\<lparr>w_tick := Suc (Suc (w_tick w))\<rparr>)" "node_valid E idt"
    "ni_address idt = PStr a" "ni_node_type idt = PStr t" "ni_access idt = PStr x"
    using assms by (simp_all add: idt_def node_generate_def gen_signing_def gen_encryption_def
        io_simps node_valid_def signing_valid_def encryption_valid_def urandom_ok_def)
  then show thesis by (rule that)
qed

text \<open>
  what \<^verbatim>\<open>init\<close> and \<^verbatim>\<open>cell init\<close> print is what \<^verbatim>\<open>info\<close> and \<^verbatim>\<open>cell info\<close> print later.  After making a node
  identity and then a cell identity in another file (by default named after the cell),
  reading either file succeeds, prints the same id, address, type and name lines as when it
  was made, and changes nothing: the second command has not disturbed the first one's file.
\<close>
theorem identity_commands_agree:
  assumes "urandom_ok E" and "t \<in> set node_type_choice" and "x \<in> set access_choice"
    and "cell_out name out \<noteq> path"
  shows "\<exists>id_line enc_line ls s1 s2.
    cmd_init E a path t x s = (Inr 0, s1) \<and>
    co_out s1 = co_out s @ [Out id_line, Out (''address : '' @ a), Out (''type    : '' @ t @ '' / '' @ x), Out (''saved   : '' @ path)] \<and>
    cmd_cell_init E name out s1 = (Inr 0, s2) \<and> length ls = 3 \<and>
    co_out s2 = co_out s1 @ ls @ [Out (''saved   : '' @ cell_out name out)] \<and>
    cmd_info E path s2 = (Inr 0, s2\<lparr>co_out := co_out s2 @
      [Out id_line, Out (''address : '' @ a), Out (''type    : '' @ t @ '' / '' @ x), Out enc_line]\<rparr>) \<and>
    cmd_cell_info E (cell_out name out) s2 = (Inr 0, s2\<lparr>co_out := co_out s2 @ ls\<rparr>)"
proof -
  obtain n w where n: "node_generate E a t x (co_world s) = (Inr n, w)"
    "node_valid E n" "ni_address n = PStr a" "ni_node_type n = PStr t" "ni_access n = PStr x"
    using node_generate_valid [OF assms(1)] by metis
  obtain c where c: "cell_generate E name w = (Inr c, w\<lparr>w_tick := Suc (Suc (w_tick w))\<rparr>)"
    "cell_valid E c" "ci_name c = PStr name"
    by (rule cell_generate_valid [OF assms(1)])
  have "node_load path (node_save n path fs) = Inr n" for fs
    using n(2) by (intro node_files.load_save) (auto simp: node_valid_def signing_valid_def encryption_valid_def)
  moreover have "node_load path (cell_save c q fs) = node_load path fs" if "q \<noteq> path" for q fs
    using that by (intro node_files.load_local cell_files.save_other) simp
  moreover have "cell_load q (cell_save c q fs) = Inr c" for q fs
    using c(2) by (intro cell_files.load_save) (auto simp: cell_valid_def signing_valid_def encryption_valid_def)
  ultimately show ?thesis
    using assms(2-4) n c
    by (intro exI [of _ "''node_id : '' @ node_id n"] exI [of _ "''enc_pub : '' @ hex (ek_public (ni_encryption n))"])
      (simp add: cmd_init_def cmd_info_def cmd_cell_init_def cmd_cell_info_def Let_def forM_echo bindM_apply
        on_world_apply getM_apply modifyM_apply returnM_apply del: forM.simps)
qed

theorem identity_commands_agree_witness:
  "\<exists>s1 s2 ls. cmd_init env0 ''h:1'' ''node.json'' ''permanent'' ''open''
       \<lparr>co_files = \<lambda>_. None, co_dbs = \<lambda>_. None, co_world = world0, co_out = []\<rparr> = (Inr 0, s1) \<and>
     cmd_cell_init env0 ''alice'' None s1 = (Inr 0, s2) \<and>
     cmd_cell_info env0 ''alice.cell.json'' s2 = (Inr 0, s2\<lparr>co_out := co_out s2 @ ls\<rparr>)"
  using identity_commands_agree [OF env0_ok(5), of "''permanent''" "''open''" "''alice''" None "''node.json''" "''h:1''"
      "\<lparr>co_files = \<lambda>_. None, co_dbs = \<lambda>_. None, co_world = world0, co_out = []\<rparr>"]
  by (auto simp: node_type_choice_def access_choice_def cell_out_def)

end
