(* ===== verification/Nevod_Session.thy ===== *)
theory Nevod_Session
  imports Nevod_Console
begin

text \<open>
  The interactive session of a cell (\<^verbatim>\<open>_cell_connect\<close> of \<^verbatim>\<open>nevod.py\<close>): connecting, the contact
  book, the dispatch of typed lines, sending, showing what arrives, disconnecting.

  The session waits for a line in a thread while the receive task of the client runs.  What
  happens to it is a list of \<open>event\<close>s, in order: a line that was typed (with its end of line),
  Ctrl+C, an exception of \<^verbatim>\<open>readline\<close>, a frame from the node, the end of the socket; the end of
  the list is the end of the input.  Handling one line is one turn: frames that arrive while
  a line is being handled are handled after it.
\<close>

section \<open>Addresses and keys as they are typed\<close>

definition split_addr :: "string \<Rightarrow> string \<Rightarrow> string \<times> string" where
  "split_addr addr_str default_node_id =
     (case split1 CHR ''@'' addr_str of
        Some (cid, nid) \<Rightarrow> (cid, nid)
      | None \<Rightarrow> (addr_str, default_node_id))"

definition enc_key :: "string \<Rightarrow> exn + bytes" where
  "enc_key enc_hex =
     bindR (fromhex enc_hex) (\<lambda>enc_pub. if length enc_pub \<noteq> 32 then Inl ValueError else Inr enc_pub)"

section \<open>State\<close>

type_synonym contact = "string \<times> string \<times> bytes"

record session = console +
  se_client :: client_state
  se_contacts :: "(string \<times> contact) list"

type_synonym 'a sessionM = "(session, 'a) io"

definition on_client :: "'a clientM \<Rightarrow> 'a sessionM" where
  "on_client m = (\<lambda>s. case m (se_client s) of (r, c) \<Rightarrow> (r, s\<lparr>se_client := c\<rparr>))"

fun py_slice :: "nat \<Rightarrow> pyval \<Rightarrow> exn + pyval" where
  "py_slice n (PStr s) = Inr (PStr (py_take n s))"
| "py_slice n (PBytes b) = Inr (PBytes (take n b))"
| "py_slice n (PList xs) = Inr (PList (take n xs))"
| "py_slice n _ = Inl TypeError"

text \<open>The callback \<^verbatim>\<open>on_message\<close>: what it raises, and the entries it prints.\<close>

definition cli_on_message :: "pyval \<Rightarrow> bytes \<Rightarrow> exn option" where
  "cli_on_message from_addr plaintext =
     (case py_slice 24 from_addr of Inl e \<Rightarrow> Some e | Inr _ \<Rightarrow> None)"

definition shown :: "pyval \<times> bytes \<Rightarrow> printed list" where
  "shown = (\<lambda>(from_addr, plaintext).
     case py_slice 24 from_addr of Inl e \<Rightarrow> [] | Inr v \<Rightarrow> [Shown v plaintext, Prompt])"

section \<open>Lines\<close>

definition quit_words :: "string list" where
  "quit_words = [''/quit'', ''/exit'', ''quit'', ''exit'']"

definition list_contacts :: "unit sessionM" where
  "list_contacts =
     bindM (getM se_contacts) (\<lambda>contacts.
     if contacts = [] then echo (Out ''  (no contacts)'')
     else forM (map (\<lambda>(alias, cid, nid, _).
                  Out (''  '' @ alias @ '': '' @ py_take 16 cid @ ''...@'' @ py_take 16 nid @ ''...'')) contacts) echo)"

definition add_contact :: "string \<Rightarrow> unit sessionM" where
  "add_contact rest =
     (case py_split rest of
        [alias, addr_str, enc_hex] \<Rightarrow>
          bindM (on_client (getM cs_node_id)) (\<lambda>nid.
          let (to_cell_id, to_node_id) = split_addr addr_str nid in
          case enc_key enc_hex of
            Inl e \<Rightarrow> echo (OutExn ''  bad enc_pub: '' e)
          | Inr enc_pub \<Rightarrow>
              bindM (modifyM (\<lambda>s. s\<lparr>se_contacts := dict_set alias (to_cell_id, to_node_id, enc_pub) (se_contacts s)\<rparr>)) (\<lambda>_.
              echo (Out (''  saved: '' @ alias))))
      | _ \<Rightarrow> echo (Out ''  usage: /add <alias> <cell_id>[@<node_id>] <enc_pub_hex>''))"

text \<open>Whom a message line is for: a contact, or an address and a key typed before the colon.  \<open>Inl\<close>
  is the line printed instead of sending.\<close>

definition recipient :: "(string \<times> contact) list \<Rightarrow> string \<Rightarrow> string \<Rightarrow> printed + contact" where
  "recipient contacts nid head =
     (case dict_get contacts head of
        Some c \<Rightarrow> Inr c
      | None \<Rightarrow>
          (case split1 CHR '' '' head of
             Some (addr_str, enc_hex) \<Rightarrow>
               (case enc_key (py_strip enc_hex) of
                  Inl e \<Rightarrow> Inl (OutExn ''  bad enc_pub: '' e)
                | Inr enc_pub \<Rightarrow>
                    (case split_addr addr_str nid of (c, n) \<Rightarrow> Inr (c, n, enc_pub)))
           | None \<Rightarrow> Inl (Out (''  unknown alias '' @ [CHR 0x27] @ head @ [CHR 0x27] @ '' '' @ dash @
                            '' use /add or provide enc_pub''))))"

definition send_line :: "env \<Rightarrow> CellClient \<Rightarrow> string \<Rightarrow> string \<Rightarrow> unit sessionM" where
  "send_line E cl head message =
     bindM (getM se_contacts) (\<lambda>contacts.
     bindM (on_client (getM cs_node_id)) (\<lambda>nid.
     case recipient contacts nid head of
       Inl line \<Rightarrow> echo line
     | Inr (to_cell_id, to_node_id, enc_pub) \<Rightarrow>
         tryM (bindM (on_client (client_send E cl to_cell_id to_node_id enc_pub (encode message))) (\<lambda>_.
               echo (Out ''  [sent]'')))
           (\<lambda>e. echo (OutExn ''  send error: '' e))))"

text \<open>One line; the result says whether the session goes on.\<close>

definition handle_line :: "env \<Rightarrow> CellClient \<Rightarrow> string \<Rightarrow> bool sessionM" where
  "handle_line E cl raw =
     (if raw = [] then returnM False
      else
        let line = py_strip raw in
        if line = [] then returnM True
        else if line \<in> set quit_words then returnM False
        else if line = ''/contacts'' then bindM list_contacts (\<lambda>_. returnM True)
        else if starts_with ''/add '' line then bindM (add_contact (drop 5 line)) (\<lambda>_. returnM True)
        else (case split_on '': '' line of
           Some (head, message) \<Rightarrow> bindM (send_line E cl (py_strip head) message) (\<lambda>_. returnM True)
         | None \<Rightarrow> bindM (echo (Out ''  ?  type /quit to exit or see usage above'')) (\<lambda>_. returnM True)))"

section \<open>The loop\<close>

datatype event =
    Typed string
  | Interrupted
  | ReadFails exn
  | Frame bytes
  | SocketCloses

definition frame_event :: "env \<Rightarrow> CellClient \<Rightarrow> bytes \<Rightarrow> unit sessionM" where
  "frame_event E cl raw =
     (\<lambda>s. let c = se_client s; c' = snd (client_recv_step E cl raw c) in
       (Inr (), s\<lparr>se_client := c', co_out := co_out s @
          concat (map shown (drop (length (cs_received c)) (cs_received c')))\<rparr>))"

text \<open>The head of \<^verbatim>\<open>while cell.connected\<close>: the prompt, then the wait, which lets the receive task
  start.\<close>

definition while_connected :: "env \<Rightarrow> unit sessionM \<Rightarrow> unit sessionM" where
  "while_connected E wait =
     bindM (on_client (connected E)) (\<lambda>ok.
     if \<not> ok then returnM ()
     else bindM (echo Prompt) (\<lambda>_. bindM (on_client task_starts) (\<lambda>_. wait)))"

fun session_wait :: "env \<Rightarrow> CellClient \<Rightarrow> event list \<Rightarrow> unit sessionM" where
  "session_wait E cl [] = returnM ()"
| "session_wait E cl (Interrupted # ev) = returnM ()"
| "session_wait E cl (ReadFails e # ev) = raiseM e"
| "session_wait E cl (Frame raw # ev) = bindM (frame_event E cl raw) (\<lambda>_. session_wait E cl ev)"
| "session_wait E cl (SocketCloses # ev) = bindM (on_client client_closed) (\<lambda>_. session_wait E cl ev)"
| "session_wait E cl (Typed raw # ev) =
     bindM (handle_line E cl raw) (\<lambda>go.
     if go then while_connected E (session_wait E cl ev) else returnM ())"

definition session_loop :: "env \<Rightarrow> CellClient \<Rightarrow> event list \<Rightarrow> unit sessionM" where
  "session_loop E cl ev =
     finallyM (while_connected E (session_wait E cl ev))
       (bindM (echo (Out (CHR 0x0A # ''disconnecting...''))) (\<lambda>_. on_client client_disconnect))"

definition banner :: "string \<Rightarrow> CellIdentity \<Rightarrow> printed list" where
  "banner node_addr idt =
     [Out (''connected : '' @ node_addr),
      Out (''cell_id   : '' @ cell_id idt),
      Out (''enc_pub   : '' @ hex (ek_public (ci_encryption idt))),
      Out [],
      Out ''  /add <alias> <cell_id>[@<node>] <enc_pub>'',
      Out ''  /contacts'',
      Out ''  <alias>: <msg>   OR   <cell_id>[@<node>] <enc_pub>: <msg>'',
      Out ''  /quit'',
      Out []]"

definition cli_cell :: "CellIdentity \<Rightarrow> CellClient" where
  "cli_cell idt = \<lparr>cc_identity = idt, cc_on_message = Some cli_on_message\<rparr>"

definition start_session :: "unit sessionM" where
  "start_session = modifyM (\<lambda>s. s\<lparr>se_client := client_init (co_world s), se_contacts := []\<rparr>)"

definition cell_connect :: "env \<Rightarrow> string \<Rightarrow> string \<Rightarrow> event list \<Rightarrow> int sessionM" where
  "cell_connect E identity_path node_addr ev =
     bindM (getM co_files) (\<lambda>fs.
     case cell_load identity_path fs of
       Inl FileNotFoundError \<Rightarrow> bindM (echo (Err (''not found: '' @ identity_path))) (\<lambda>_. returnM 1)
     | Inl e \<Rightarrow> raiseM e
     | Inr idt \<Rightarrow>
         bindM start_session (\<lambda>_.
         bindM (tryM (bindM (on_client (client_connect E (cli_cell idt) node_addr None)) (\<lambda>_. returnM True))
                  (\<lambda>e. bindM (echo (ErrExn ''connect failed: '' e)) (\<lambda>_. returnM False))) (\<lambda>ok.
         if \<not> ok then returnM 1
         else
           bindM (forM (banner node_addr idt) echo) (\<lambda>_.
           bindM (session_loop E (cli_cell idt) ev) (\<lambda>_. returnM 0)))))"

section \<open>What a session keeps\<close>

lemma on_client_apply [io_simps]:
  "on_client m s = (case m (se_client s) of (r, c) \<Rightarrow> (r, s\<lparr>se_client := c\<rparr>))"
  by (simp add: on_client_def)

text \<open>Sending changes nothing of the client but the call counter and the list of sent frames.\<close>

definition same_client :: "client_state \<Rightarrow> client_state \<Rightarrow> bool" where
  "same_client s t \<longleftrightarrow> w_closed t = w_closed s \<and> cs_ws t = cs_ws s \<and> cs_node_id t = cs_node_id s \<and>
     cs_node_signing_pubkey t = cs_node_signing_pubkey s \<and> cs_recv_task t = cs_recv_task s \<and>
     cs_received t = cs_received s"

lemma client_send_frame: "same_client s (snd (client_send E cl c n k pt s))"
proof -
  have tick: "keeps (same_client s) tickM"
    "keeps (same_client s) (modifyM (\<lambda>s. s\<lparr>w_sent := w_sent s @ [x]\<rparr>))" for x
    by (auto simp: keeps_def io_simps same_client_def)
  have send: "keeps (same_client s) (ws_send E w b)" "keeps (same_client s) (ws_is_open E w)" for w b
    unfolding ws_send_def ws_is_open_def by (intro keeps_intros tick)+
  have "keeps (same_client s) (client_send E cl c n k pt)"
    unfolding client_send_def connected_def encrypt_def payload_packet_def new_packet_def client_transmit_def
      urandom_def uuid4_def time_now_def Let_def
    by (intro keeps_intros tick send)
  from keepsD [OF this, of s] show ?thesis by (simp add: same_client_def)
qed

text \<open>The invariant of a session, between two events: aliases are unique, keys have 32 bytes; the
  receive task waits or has ended, and has ended only together with the socket; nothing was
  closed, and no file was written.\<close>

definition contacts_ok :: "(string \<times> contact) list \<Rightarrow> bool" where
  "contacts_ok cs \<longleftrightarrow> distinct (map fst cs) \<and> (\<forall>(alias, c, n, k) \<in> set cs. length k = 32)"

definition session_inv :: "session \<Rightarrow> session \<Rightarrow> bool" where
  "session_inv s t \<longleftrightarrow> contacts_ok (se_contacts t) \<and> co_files t = co_files s \<and> co_dbs t = co_dbs s \<and>
     w_closed (se_client t) = w_closed (se_client s) \<and>
     (cs_recv_task (se_client t) = Running \<or> cs_recv_task (se_client t) = Finished \<and> cs_ws (se_client t) = None)"

lemma contacts_ok_set:
  assumes "contacts_ok cs" "length k = 32"
  shows "contacts_ok (dict_set alias (c, n, k) cs)"
proof -
  have "set (dict_set alias (c, n, k) cs) \<subseteq> insert (alias, c, n, k) (set cs)"
    unfolding dict_set_def by (induction cs) (auto split: if_splits)
  with assms show ?thesis by (auto simp: contacts_ok_def dict_set_def distinct_update)
qed

lemma keeps_session_echo [keeps_intros]: "keeps (session_inv s) (echo x)"
  by (simp add: keeps_def io_simps session_inv_def)

lemma keeps_on_client:
  assumes "\<And>c. w_closed (snd (m c)) = w_closed c"
    and "\<And>c. cs_recv_task c = Running \<or> cs_recv_task c = Finished \<and> cs_ws c = None \<Longrightarrow>
      cs_recv_task (snd (m c)) = Running \<or> cs_recv_task (snd (m c)) = Finished \<and> cs_ws (snd (m c)) = None"
  shows "keeps (session_inv s) (on_client m)"
proof (rule keepsI)
  fix t assume "session_inv s t"
  with assms(1) [of "se_client t"] assms(2) [of "se_client t"] show "session_inv s (snd (on_client m t))"
    by (cases "m (se_client t)") (simp add: io_simps session_inv_def)
qed

lemma keeps_session_send [keeps_intros]: "keeps (session_inv s) (on_client (client_send E cl c n k pt))"
  by (rule keeps_on_client) (use client_send_frame in \<open>simp_all add: same_client_def\<close>)

lemma keeps_session_client [keeps_intros]:
  "keeps (session_inv s) (on_client (getM f))" "keeps (session_inv s) (on_client client_closed)"
  "keeps (session_inv s) (on_client task_starts)" "keeps (session_inv s) (on_client (connected E))"
  by (rule keeps_on_client; auto simp: io_simps task_starts_def connected_def split: option.splits)+

lemma enc_key_length: "enc_key h = Inr k \<Longrightarrow> length k = 32"
  by (auto simp: enc_key_def bindR_Inr_iff split: if_splits)

lemma keeps_session_add [keeps_intros]: "keeps (session_inv s) (add_contact rest)"
proof -
  have set: "keeps (session_inv s) (modifyM (\<lambda>s. s\<lparr>se_contacts := dict_set a (c, n, k) (se_contacts s)\<rparr>))"
    if "length k = 32" for a c n k
    using that by (intro keeps_modify) (simp add: session_inv_def contacts_ok_set)
  have "keeps (session_inv s) (bindM (on_client (getM cs_node_id)) (\<lambda>nid.
      let (c, n) = split_addr addr nid in
      case enc_key h of
        Inl e \<Rightarrow> echo (OutExn ''  bad enc_pub: '' e)
      | Inr k \<Rightarrow> bindM (modifyM (\<lambda>s. s\<lparr>se_contacts := dict_set a (c, n, k) (se_contacts s)\<rparr>)) (\<lambda>_. echo (Out (''  saved: '' @ a)))))"
    for addr h a
    unfolding Let_def by (intro keeps_intros set enc_key_length)
  then show ?thesis unfolding add_contact_def by (auto intro: keeps_intros split: list.splits)
qed

lemma keeps_session_line [keeps_intros]: "keeps (session_inv s) (handle_line E cl raw)"
  unfolding handle_line_def list_contacts_def send_line_def Let_def by (intro keeps_intros)

lemma keeps_session_frame [keeps_intros]: "keeps (session_inv s) (frame_event E cl raw)"
proof (rule keepsI)
  fix t assume t: "session_inv s t"
  let ?c = "se_client t"
  have "w_closed (snd (client_recv_step E cl raw ?c)) = w_closed ?c"
    "cs_recv_task ?c = Running \<or> cs_recv_task ?c = Finished \<and> cs_ws ?c = None \<Longrightarrow>
     cs_recv_task (snd (client_recv_step E cl raw ?c)) = Running \<or>
     cs_recv_task (snd (client_recv_step E cl raw ?c)) = Finished \<and> cs_ws (snd (client_recv_step E cl raw ?c)) = None"
    using client_frame_cases [of E cl raw ?c] client_frame_task [of E cl raw ?c]
    by (auto simp: client_step_apply split: prod.splits sum.splits)
  with t show "session_inv s (snd (frame_event E cl raw t))"
    by (auto simp: frame_event_def Let_def session_inv_def)
qed

lemma keeps_session_wait: "keeps (session_inv s) (session_wait E cl ev)"
proof (induction ev)
  case (Cons e ev)
  then show ?case
    by (cases e) (auto simp: while_connected_def intro!: keeps_intros)
qed (simp add: keeps_intros)

section \<open>Nothing that is typed or received ends a session with an exception\<close>

lemma calm_on_client: "calm m \<Longrightarrow> calm (on_client m)"
  by (auto simp: calm_def io_simps split: prod.splits) (metis Pair_inject)

lemma calm_client [calm_intros]:
  "calm (on_client (getM f))" "calm (on_client client_closed)" "calm (on_client task_starts)"
  "calm (on_client (connected E))" "calm (on_client client_disconnect)"
  by (rule calm_on_client; auto simp: calm_def io_simps task_starts_def connected_def client_disconnect_def
      split: option.splits)+

lemma calm_add [calm_intros]: "calm (add_contact rest)"
proof -
  have "calm (bindM (on_client (getM cs_node_id)) (\<lambda>nid.
      let (c, n) = split_addr addr nid in
      case enc_key h of
        Inl e \<Rightarrow> echo (OutExn ''  bad enc_pub: '' e)
      | Inr k \<Rightarrow> bindM (modifyM (\<lambda>s. s\<lparr>se_contacts := dict_set a (c, n, k) (se_contacts s)\<rparr>)) (\<lambda>_. echo (Out (''  saved: '' @ a)))))"
    for addr h a
    unfolding Let_def by (intro calm_intros)
  then show ?thesis unfolding add_contact_def by (auto intro: calm_intros split: list.splits)
qed

lemma calm_line: "calm (handle_line E cl raw)"
  unfolding handle_line_def list_contacts_def send_line_def Let_def by (intro calm_intros)

lemma calm_frame: "calm (frame_event E cl raw)"
  by (simp add: calm_def frame_event_def Let_def)

lemma wait_result:
  "session_wait E cl ev s = (r, t) \<Longrightarrow> r = Inr () \<or> (\<exists>e. ReadFails e \<in> set ev \<and> r = Inl e)"
proof (induction ev arbitrary: s)
  case (Cons e ev)
  have step: "(\<exists>s'. session_wait E cl ev s' = (r, t)) \<or> r = Inr ()"
    if "bindM m (\<lambda>_. session_wait E cl ev) s = (r, t)" "calm m" for m :: "unit sessionM"
    using that calmD [of m s] by (auto simp: bindM_apply)
  show ?case
  proof (cases e)
    case (Typed raw)
    obtain go u where "handle_line E cl raw s = (Inr go, u)" using calmD [OF calm_line] by blast
    moreover obtain ok v where "on_client (connected E) u = (Inr ok, v)" using calmD [OF calm_client(4)] by blast
    moreover obtain w where "on_client task_starts (v\<lparr>co_out := co_out v @ [Prompt]\<rparr>) = (Inr (), w)"
      using calmD [OF calm_client(3), of "v\<lparr>co_out := co_out v @ [Prompt]\<rparr>"] by auto
    ultimately have "(\<exists>s'. session_wait E cl ev s' = (r, t)) \<or> r = Inr ()"
      using Cons.prems Typed
      by (auto simp: while_connected_def bindM_apply echo_apply returnM_apply split: if_splits)
    with Cons.IH show ?thesis by fastforce
  next
    case (Frame raw)
    with Cons step [OF _ calm_frame] show ?thesis by fastforce
  next
    case SocketCloses
    with Cons step [OF _ calm_client(2)] show ?thesis by fastforce
  qed (use Cons.prems in \<open>auto simp: io_simps\<close>)
qed (auto simp: io_simps)

lemma disconnect_after_wait:
  "cs_recv_task c = Running \<or> cs_recv_task c = Finished \<and> cs_ws c = None \<Longrightarrow>
   client_disconnect c = (Inr (), c\<lparr>cs_ws := None, cs_recv_task := NoTask\<rparr>)"
  by (auto simp: client_disconnect_def io_simps)

lemma session_loop_ends:
  assumes "contacts_ok (se_contacts s)" and "cs_ws (se_client s) = Some ws"
    and "cs_recv_task (se_client s) = Scheduled" and "session_loop E cl ev s = (r, t)"
  shows "last (co_out t) = Out (CHR 0x0A # ''disconnecting...'') \<and>
    cs_ws (se_client t) = None \<and> cs_recv_task (se_client t) = NoTask \<and>
    contacts_ok (se_contacts t) \<and> co_files t = co_files s \<and> co_dbs t = co_dbs s \<and>
    (r = Inr () \<or> (\<exists>e. ReadFails e \<in> set ev \<and> r = Inl e)) \<and>
    w_closed (se_client t) = w_closed (se_client s) @ (if e_open E (w_tick (se_client s)) ws then [] else [ws])"
proof (cases "e_open E (w_tick (se_client s)) ws")
  case False
  with assms show ?thesis
    by (auto simp: session_loop_def finallyM_def while_connected_def connected_def client_disconnect_def io_simps)
next
  case True
  define u where "u = s\<lparr>co_out := co_out s @ [Prompt],
    se_client := (se_client s)\<lparr>w_tick := Suc (w_tick (se_client s)), cs_recv_task := Running\<rparr>\<rparr>"
  obtain r' v where w: "session_wait E cl ev u = (r', v)" by (cases "session_wait E cl ev u")
  have "while_connected E (session_wait E cl ev) s = session_wait E cl ev u"
    using True assms(2,3) by (simp add: while_connected_def connected_def task_starts_def io_simps u_def)
  then have run: "session_loop E cl ev s = finallyM (\<lambda>_. (r', v))
      (bindM (echo (Out (CHR 0x0A # ''disconnecting...''))) (\<lambda>_. on_client client_disconnect)) s"
    using w by (simp add: session_loop_def finallyM_def)
  have "session_inv s u" using assms(1) by (simp add: session_inv_def u_def)
  from keepsD [OF keeps_session_wait this] w have v: "session_inv s v" by (metis snd_conv)
  then have "client_disconnect (se_client v) = (Inr (), (se_client v)\<lparr>cs_ws := None, cs_recv_task := NoTask\<rparr>)"
    by (intro disconnect_after_wait) (simp add: session_inv_def)
  then show ?thesis
    using assms(4) v wait_result [OF w] True unfolding run
    by (auto simp: finallyM_def io_simps session_inv_def)
qed

section \<open>An example session\<close>

definition session0 :: session where
  "session0 = \<lparr>co_files = \<lambda>_. None, co_dbs = \<lambda>_. None, co_world = world0, co_out = [],
     se_client = client0, se_contacts = [(''bob'', ''c'', ''n'', replicate 32 1)]\<rparr>"

lemma session0_facts:
  "contacts_ok (se_contacts session0)" "cs_ws (se_client session0) = Some 3" "e_open env0 k w"
  "cs_recv_task (se_client session0) = Running" "word ''bob''" "word ''c@n''" "trimmed ''hi''"
  "dict_get (se_contacts session0) ''bob'' = Some (''c'', ''n'', replicate 32 1)"
  by (simp_all add: session0_def contacts_ok_def client0_def word_def trimmed_def ws_point_def dict_get_def Let_def)

text \<open>
  the session forgets its socket without closing it.  A session that starts on an open
  socket, whatever is typed and whatever arrives, ends with no socket and no receive task in
  the client, and never calls \<^verbatim>\<open>close\<close>: \<^verbatim>\<open>disconnect\<close> cancels the receive task first, which clears
  \<^verbatim>\<open>_ws\<close>.
\<close>
theorem session_leaves_socket_open:
  assumes "contacts_ok (se_contacts s)" and "cs_ws (se_client s) = Some ws"
    and "cs_recv_task (se_client s) = Scheduled" and "e_open E (w_tick (se_client s)) ws"
  shows "cs_ws (se_client (snd (session_loop E cl ev s))) = None \<and>
    cs_recv_task (se_client (snd (session_loop E cl ev s))) = NoTask \<and>
    w_closed (se_client (snd (session_loop E cl ev s))) = w_closed (se_client s)"
proof -
  obtain r t where run: "session_loop E cl ev s = (r, t)" by (cases "session_loop E cl ev s")
  from session_loop_ends [OF assms(1-3) run] assms(4) run show ?thesis by simp
qed

theorem session_leaves_socket_open_witness:
  "cs_ws (se_client (snd (session_loop env0 bob0 [Typed ''hello'', Frame [99], Typed ''/quit'']
     (session0\<lparr>se_client := client0\<lparr>cs_recv_task := Scheduled\<rparr>\<rparr>)))) = None \<and>
   w_closed (se_client (snd (session_loop env0 bob0 [Typed ''hello'', Frame [99], Typed ''/quit'']
     (session0\<lparr>se_client := client0\<lparr>cs_recv_task := Scheduled\<rparr>\<rparr>)))) = []"
proof -
  let ?s = "session0\<lparr>se_client := client0\<lparr>cs_recv_task := Scheduled\<rparr>\<rparr>"
  have "contacts_ok (se_contacts ?s)" "cs_ws (se_client ?s) = Some 3" "cs_recv_task (se_client ?s) = Scheduled"
    "w_closed (se_client ?s) = []"
    using session0_facts(1) by (simp_all add: client0_def client_init_def world0_def)
  then show ?thesis
    using session_leaves_socket_open [of ?s 3 env0 bob0 "[Typed ''hello'', Frame [99], Typed ''/quit'']"] session0_facts(3)
    by simp
qed

lemma connect_schedules:
  assumes "client_connect E cl a x c = (Inr u, d)"
  shows "(\<exists>ws. cs_ws d = Some ws) \<and> cs_recv_task d = Scheduled"
proof -
  have reg: "cs_ws d = cs_ws c" if "client_register E cl ws n c = (r, d)" for ws n c r d
  proof -
    have "keeps (\<lambda>d. cs_ws d = cs_ws c) (client_register E cl ws n)"
      unfolding client_register_def client_transmit_def
      by (intro keeps_intros) (simp_all add: world_free_def)
    from keepsD [OF this, of c] that show ?thesis by simp
  qed
  show ?thesis
    using assms
    by (auto simp: client_connect_def bindM_apply modifyM_apply split: prod.splits sum.splits dest: reg)
qed

text \<open>
  C21: what \<^verbatim>\<open>cell connect\<close> can end in, for any identity file, environment and events.  Status 1 with
  a line on standard error when the file is missing or the connection fails; status 0 after a
  session that disconnected; an exception only from an unreadable identity file or from
  standard input.  In no case is a file written.
\<close>
theorem cell_connect_outcomes:
  assumes "cell_connect E path addr ev s = (r, t)"
  shows "co_files t = co_files s \<and> co_dbs t = co_dbs s \<and>
    (r = Inr 1 \<and> (last (co_out t) = Err (''not found: '' @ path) \<or> (\<exists>e. last (co_out t) = ErrExn ''connect failed: '' e)) \<or>
     last (co_out t) = Out (CHR 0x0A # ''disconnecting...'') \<and> cs_ws (se_client t) = None \<and>
       cs_recv_task (se_client t) = NoTask \<and> contacts_ok (se_contacts t) \<and>
       (r = Inr 0 \<or> (\<exists>e. ReadFails e \<in> set ev \<and> r = Inl e)) \<or>
     (\<exists>e. cell_load path (co_files s) = Inl e \<and> e \<noteq> FileNotFoundError \<and> r = Inl e \<and> t = s))"
proof (cases "cell_load path (co_files s)")
  case (Inl e)
  with assms show ?thesis
    by (cases e) (auto simp: cell_connect_def io_simps)
next
  case (Inr idt)
  define s1 where "s1 = s\<lparr>se_client := client_init (co_world s), se_contacts := []\<rparr>"
  obtain rc c where c: "client_connect E (cli_cell idt) addr None (se_client s1) = (rc, c)"
    by (cases "client_connect E (cli_cell idt) addr None (se_client s1)")
  show ?thesis
  proof (cases rc)
    case e: (Inl e)
    then show ?thesis
      using assms Inr c by (auto simp: cell_connect_def start_session_def io_simps s1_def)
  next
    case u: (Inr u)
    define s2 where "s2 = s1\<lparr>se_client := c, co_out := co_out s1 @ banner addr idt\<rparr>"
    obtain r' where run: "session_loop E (cli_cell idt) ev s2 = (r', t)" "r = (case r' of Inl e \<Rightarrow> Inl e | Inr _ \<Rightarrow> Inr 0)"
      using assms Inr c u
      by (auto simp: cell_connect_def start_session_def bindM_apply getM_apply modifyM_apply on_client_apply tryM_apply
          returnM_apply forM_echo s1_def s2_def split: prod.splits sum.splits)
    obtain ws where "cs_ws (se_client s2) = Some ws" "cs_recv_task (se_client s2) = Scheduled"
      using connect_schedules [OF c [unfolded u]] by (auto simp: s2_def)
    from session_loop_ends [OF _ this run(1)] run(2) show ?thesis
      by (auto simp: s2_def s1_def contacts_ok_def)
  qed
qed

theorem cell_connect_outcomes_witness:
  "\<exists>t. cell_connect env0 ''a.cell.json'' ''h:1'' [] session0 = (Inr 1, t) \<and> co_files t = co_files session0 \<and>
     last (co_out t) = Err ''not found: a.cell.json''"
proof -
  have run: "cell_connect env0 ''a.cell.json'' ''h:1'' [] session0 =
      (Inr 1, session0\<lparr>co_out := [Err ''not found: a.cell.json'']\<rparr>)"
    by (simp add: cell_connect_def session0_def cell_load_def load_file_def io_simps)
  from cell_connect_outcomes [OF run] run show ?thesis by auto
qed

section \<open>The contact book at work\<close>

lemma add_line:
  assumes "word alias" "word (c @ CHR ''@'' # n)" "CHR ''@'' \<notin> set c" "length k = 32"
  shows "handle_line E cl (''/add '' @ alias @ '' '' @ c @ CHR ''@'' # n @ '' '' @ hex k @ [CHR 0x0A]) s =
    (Inr True, s\<lparr>se_contacts := dict_set alias (c, n, k) (se_contacts s), co_out := co_out s @ [Out (''  saved: '' @ alias)]\<rparr>)"
proof -
  let ?rest = "alias @ CHR '' '' # (c @ CHR ''@'' # n) @ CHR '' '' # hex k"
  have k: "word (hex k)" using assms(4) by (intro word_hex) auto
  have u: "utf8_ok ''add ''" "utf8_ok '' ''" "trimmed ''/''" by (simp_all add: Let_def trimmed_def ws_point_def)
  have "trimmed (''/'' @ (''add '' @ alias @ '' '' @ (c @ CHR ''@'' # n) @ '' '') @ hex k)"
    by (rule trimmed_append [OF u(3) _ word_trimmed [OF k]])
      (use assms(1,2) in \<open>intro utf8_ok_append [of "''add ''"] utf8_ok_append [of alias] utf8_ok_append [of "'' ''"]
         utf8_ok_append [of "c @ CHR ''@'' # n"] u, simp_all only: word_def\<close>)
  then have line: "py_strip (''/add '' @ alias @ '' '' @ c @ CHR ''@'' # n @ '' '' @ hex k @ [CHR 0x0A]) = ''/add '' @ ?rest"
    using strip_line by fastforce
  have "begins ((c @ CHR ''@'' # n) @ CHR '' '' # hex k)"
    by (rule begins_append) (use assms(2) in \<open>simp_all only: word_def utf8_begins\<close>, simp)
  then have "py_split ?rest = [alias, c @ CHR ''@'' # n, hex k]"
    using split_word [OF assms(1)] split_word [OF assms(2), of "hex k"] split_word_end [OF k] utf8_begins [of "hex k"]
    by simp
  then have "add_contact ?rest s = (Inr (), s\<lparr>se_contacts := dict_set alias (c, n, k) (se_contacts s),
      co_out := co_out s @ [Out (''  saved: '' @ alias)]\<rparr>)"
    using assms(3,4) by (simp add: add_contact_def io_simps split_addr_def split1_append enc_key_def Let_def)
  then show ?thesis
    unfolding handle_line_def line by (simp add: Let_def quit_words_def starts_with_def io_simps)
qed

lemma message_line:
  assumes "word alias" "trimmed text" "dict_get (se_contacts s) alias = Some (c, n, k)"
  shows "handle_line E cl (alias @ '': '' @ text @ [CHR 0x0A]) s =
    (case client_send E cl c n k (encode text) (se_client s) of
       (Inl e, d) \<Rightarrow> (Inr True, s\<lparr>se_client := d, co_out := co_out s @ [OutExn ''  send error: '' e]\<rparr>)
     | (Inr _, d) \<Rightarrow> (Inr True, s\<lparr>se_client := d, co_out := co_out s @ [Out ''  [sent]'']\<rparr>))"
proof -
  have "trimmed (alias @ '': '' @ text)"
    using trimmed_append [OF word_trimmed [OF assms(1)] _ assms(2), of "'': ''"] by (simp add: Let_def)
  then have line: "py_strip (alias @ '': '' @ text @ [CHR 0x0A]) = alias @ '': '' @ text"
    using strip_line by fastforce
  have sp: "CHR '' '' \<notin> set alias" by (rule word_space [OF assms(1)])
  have "\<forall>w \<in> set (''/contacts'' # quit_words). CHR '':'' \<notin> set w" by (simp add: quit_words_def)
  moreover have "CHR '':'' \<in> set (alias @ '': '' @ text)" by simp
  ultimately have "alias @ '': '' @ text \<notin> set (''/contacts'' # quit_words)" by blast
  then have "alias @ '': '' @ text \<notin> set quit_words" "alias @ '': '' @ text \<noteq> ''/contacts''" by simp_all
  moreover have "\<not> starts_with ''/add '' (alias @ '': '' @ text)"
  proof (cases "5 \<le> length alias")
    case True
    then have "starts_with ''/add '' (alias @ '': '' @ text) \<Longrightarrow> CHR '' '' \<in> set (take 5 alias)"
      by (simp add: starts_with_def eval_nat_numeral)
    with sp show ?thesis using in_set_takeD by metis
  next
    case False
    with sp show ?thesis
      by (auto simp: starts_with_def Cons_eq_append_conv append_eq_Cons_conv take_Cons' split: if_splits)
  qed
  ultimately show ?thesis
    unfolding handle_line_def line
    using assms(3) split_on_append [OF sp, of "text"] strip_trimmed [OF word_trimmed [OF assms(1)]]
    by (auto simp: Let_def send_line_def recipient_def io_simps split: prod.splits sum.splits)
qed

text \<open>
  C10: a message to a saved contact reaches that contact's key and address.  After
  \<^verbatim>\<open>/add <alias> <cell>@<node> <key>\<close> and then \<^verbatim>\<open><alias>: <text>\<close>, on a working connection, the
  session has printed that the contact is saved and the message sent, and one frame went out:
  a message packet from the cell, addressed to exactly that cell and node, whose payload the
  owner of the key decrypts to the bytes of the text.
\<close>
theorem saved_contact_gets_message:
  assumes "packages_ok E" and "signing_valid E (ci_signing (cc_identity cl))" and "encryption_valid E kp"
    and "word alias" and "word (c @ CHR ''@'' # n)" and "CHR ''@'' \<notin> set c"
    and "trimmed text" and "fits E (encode text)"
    and "wire_str (cs_node_id (se_client s))" "length (cs_node_id (se_client s)) < 2 ^ 31"
    and "wire_str c" "wire_str n" "length c + length n < 2 ^ 31"
    and "cs_ws (se_client s) = Some ws" "\<And>k. e_open E k ws" "\<And>k b. e_send E k ws b = None"
  shows "\<exists>t b i ts sg pl.
    bindM (handle_line E cl (''/add '' @ alias @ '' '' @ c @ CHR ''@'' # n @ '' '' @ hex (ek_public kp) @ [CHR 0x0A])) (\<lambda>_.
      handle_line E cl (alias @ '': '' @ text @ [CHR 0x0A])) s = (Inr True, t) \<and>
    co_out t = co_out s @ [Out (''  saved: '' @ alias), Out ''  [sent]''] \<and>
    w_sent (se_client t) = w_sent (se_client s) @ [(ws, b)] \<and>
    unpack E b = Inr (typed_packet i ''msg'' (my_cell cl @ CHR ''@'' # cs_node_id (se_client s)) (c @ CHR ''@'' # n) pl sg ts 1) \<and>
    carries E pl kp (encode text)"
proof -
  let ?s = "s\<lparr>se_contacts := dict_set alias (c, n, ek_public kp) (se_contacts s),
    co_out := co_out s @ [Out (''  saved: '' @ alias)]\<rparr>"
  have k: "length (ek_public kp) = 32"
    using assms(1,3) by (auto simp: packages_ok_def x25519_ok_def encryption_valid_def)
  obtain i ts sg pl b d where d: "client_send E cl c n (ek_public kp) (encode text) (se_client s) = (Inr (), d)"
    "w_sent d = w_sent (se_client s) @ [(ws, b)]" "carries E pl kp (encode text)"
    "unpack E b = Inr (typed_packet i ''msg'' (my_cell cl @ CHR ''@'' # cs_node_id (se_client s)) (c @ CHR ''@'' # n) pl sg ts 1)"
    by (rule client_sends [OF assms(1-3,8,9,11-13,10,14-16)]) auto
  have "handle_line E cl (alias @ '': '' @ text @ [CHR 0x0A]) ?s =
      (Inr True, ?s\<lparr>se_client := d, co_out := co_out ?s @ [Out ''  [sent]'']\<rparr>)"
    using message_line [OF assms(4,7), of ?s c n "ek_public kp"] d(1) by (simp add: dict_get_set)
  then show ?thesis
    unfolding bindM_apply add_line [OF assms(4-6) k] prod.case sum.case
    using d(2-4) by (simp, blast)
qed

theorem saved_contact_gets_message_witness:
  "\<exists>t b. bindM (handle_line env0 alice0 (''/add bob c@n '' @ hex (ek_public en0) @ [CHR 0x0A])) (\<lambda>_.
       handle_line env0 alice0 (''bob: hi'' @ [CHR 0x0A])) session0 = (Inr True, t) \<and>
     co_out t = [Out ''  saved: bob'', Out ''  [sent]''] \<and> w_sent (se_client t) = [(3, b)]"
proof -
  let ?kp = "ci_encryption (cc_identity bob0)"
  have fit: "fits env0 (encode ''hi'')"
    by (auto simp: fits_def encrypted_dict_def ex_nat_def)
  have st: "wire_str (cs_node_id (se_client session0))" "length (cs_node_id (se_client session0)) < 2 ^ 31"
    "w_sent (se_client session0) = []" "co_out session0 = []"
    by (simp_all add: session0_def client0_def client_init_def world0_def node_id_def nd0_def kp0_def)
  show ?thesis
    using saved_contact_gets_message [OF example_cells(5,1,3) session0_facts(5), of "''c''" "''n''" "''hi''" session0 3]
      session0_facts fit st
    by (auto simp: Let_def bob0_def)
qed

text \<open>
  a lost connection is noticed at the next line.  When the socket closes while the session
  waits, the next message typed to a contact is not sent: the session prints the send error,
  and ends without reading the lines after it.
\<close>
theorem lost_connection_ends_session:
  assumes "cs_recv_task (se_client s) = Running" and "word alias" and "trimmed text"
    and "dict_get (se_contacts s) alias = Some (c, n, k)"
  shows "\<exists>t. session_wait E cl (SocketCloses # Typed (alias @ '': '' @ text @ [CHR 0x0A]) # ev) s = (Inr (), t) \<and>
    co_out t = co_out s @ [OutExn ''  send error: '' RuntimeError] \<and>
    w_sent (se_client t) = w_sent (se_client s) \<and> cs_ws (se_client t) = None"
proof -
  let ?c = "(se_client s)\<lparr>cs_ws := None, cs_recv_task := Finished\<rparr>"
  have "client_send E cl c n k (encode text) ?c = (Inl RuntimeError, ?c)"
    by (simp add: client_send_def connected_def io_simps)
  then have "handle_line E cl (alias @ '': '' @ text @ [CHR 0x0A]) (s\<lparr>se_client := ?c\<rparr>) =
      (Inr True, s\<lparr>se_client := ?c, co_out := co_out s @ [OutExn ''  send error: '' RuntimeError]\<rparr>)"
    using message_line [OF assms(2,3), of "s\<lparr>se_client := ?c\<rparr>" c n k] assms(4) by simp
  then show ?thesis
    using assms(1) by (simp add: while_connected_def connected_def io_simps)
qed

theorem lost_connection_ends_session_witness:
  "\<exists>t. session_wait env0 alice0 [SocketCloses, Typed (''bob: hi'' @ [CHR 0x0A]), Typed ''more''] session0 = (Inr (), t) \<and>
     co_out t = [OutExn ''  send error: '' RuntimeError]"
  using lost_connection_ends_session [OF session0_facts(4,5,7,8), of env0 alice0 "[Typed ''more'']"]
  by (auto simp: session0_def)

end
