(* ===== verification/Nevod_Commands.thy ===== *)
theory Nevod_Commands
  imports Nevod_Console
begin

text \<open>
  The commands of \<^verbatim>\<open>nevod.py\<close> that run a node: \<^verbatim>\<open>genesis\<close>, \<^verbatim>\<open>start\<close>, \<^verbatim>\<open>join\<close> and
  \<^verbatim>\<open>_run_until_signal\<close>, and a node's life over several processes on the same identity and
  database files.

  A process begins with a node that has no storage and no connections.  While it waits for a
  signal, the other tasks of the event loop take turns; a \<open>turn\<close> is an incoming connection, a
  frame on a running receive loop, the end of such a loop, or a turn of the gossip loop, each
  run to its end.  Every write is committed, so the database file always holds the node's
  database once the storage was opened.
\<close>

section \<open>Turns of the event loop\<close>

datatype turn =
    Incoming ws
  | FrameOn PeerConnection bytes
  | LoopEnds PeerConnection
  | GossipTurn

definition loop_ends :: "PeerConnection \<Rightarrow> node_state \<Rightarrow> node_state" where
  "loop_ends conn s =
     snd (conn_remove (pc_peer_node_id conn) (s\<lparr>ns_loops := remove1 conn (ns_loops s)\<rparr>))"

fun node_turn :: "env \<Rightarrow> Node \<Rightarrow> turn \<Rightarrow> node_state \<Rightarrow> node_state" where
  "node_turn E nd (Incoming ws) s =
     (case do_auth E nd ws None s of
        (Inl e, s1) \<Rightarrow> snd (ws_close ws s1)
      | (Inr conn, s1) \<Rightarrow> snd (bindM (conn_add conn) (\<lambda>_. spawn_recv_loop conn) s1))"
| "node_turn E nd (FrameOn conn raw) s =
     (if conn \<notin> set (ns_loops s) then s
      else (case recv_frame E (dispatch E nd) conn raw s of
              (Inl e, s1) \<Rightarrow> loop_ends conn s1
            | (Inr _, s1) \<Rightarrow> s1))"
| "node_turn E nd (LoopEnds conn) s = (if conn \<notin> set (ns_loops s) then s else loop_ends conn s)"
| "node_turn E nd GossipTurn s = (if ns_gossip s then snd (gossip_turn E nd s) else s)"

section \<open>Processes\<close>

record process = console +
  pr_node :: node_state

type_synonym 'a processM = "(process, 'a) io"

definition blank_node :: "world \<Rightarrow> node_state" where
  "blank_node w = \<lparr>w_tick = w_tick w, w_sent = w_sent w, w_closed = w_closed w, ns_open = False,
     ns_db = empty_db, ns_conns = [], ns_loops = [], ns_delivered = [], ns_listening = None,
     ns_gossip = False\<rparr>"

definition begin_process :: "unit processM" where
  "begin_process = modifyM (\<lambda>s. s\<lparr>pr_node := blank_node (co_world s)\<rparr>)"

text \<open>A step of the node whose storage is the file \<open>p\<close>.\<close>

definition on_node :: "string \<Rightarrow> 'a nodeM \<Rightarrow> 'a processM" where
  "on_node p m = (\<lambda>s. case m (pr_node s) of (r, n) \<Rightarrow>
     (r, s\<lparr>pr_node := n,
            co_dbs := (if ns_open (pr_node s) \<or> ns_open n then (co_dbs s)(p \<mapsto> ns_db n) else co_dbs s)\<rparr>))"

definition run_until_signal :: "env \<Rightarrow> Node \<Rightarrow> string \<Rightarrow> turn list \<Rightarrow> unit processM" where
  "run_until_signal E nd p turns =
     finallyM (on_node p (\<lambda>n. (Inr (), fold (node_turn E nd) turns n)))
       (bindM (echo (Out (CHR 0x0A # ''stopping...''))) (\<lambda>_. on_node p (node_stop E)))"

definition stop_hint :: string where
  "stop_hint = ''running '' @ dash @ '' Ctrl+C to stop''"

definition cmd_genesis :: "env \<Rightarrow> string \<Rightarrow> string \<Rightarrow> string \<Rightarrow> string \<Rightarrow> turn list \<Rightarrow> int processM" where
  "cmd_genesis E address identity_path db_path access turns =
     (if access \<notin> set access_choice then returnM 2
      else
        bindM begin_process (\<lambda>_.
        bindM (getM co_files) (\<lambda>fs. bindM (getM co_dbs) (\<lambda>dbs.
        bindM (on_node db_path (create_genesis E address identity_path fs (dbs db_path) access None)) (\<lambda>(nd, fs').
        bindM (modifyM (\<lambda>s. s\<lparr>co_files := fs'\<rparr>)) (\<lambda>_.
        bindM (forM [Out (''genesis node: '' @ my_id nd),
                     Out (''address     : '' @ address),
                     Out (''identity    '' @ arrow @ '' '' @ identity_path),
                     Out (''database    '' @ arrow @ '' '' @ db_path)] echo) (\<lambda>_.
        bindM (on_node db_path (node_start E nd)) (\<lambda>_.
        bindM (echo (Out (''node '' @ stop_hint))) (\<lambda>_.
        bindM (run_until_signal E nd db_path turns) (\<lambda>_. returnM 0))))))))))"

text \<open>\<^verbatim>\<open>Node.create(identity_path, db_path)\<close> in a new process.\<close>

definition process_create :: "string \<Rightarrow> string \<Rightarrow> Node processM" where
  "process_create identity_path db_path =
     bindM begin_process (\<lambda>_.
     bindM (getM co_files) (\<lambda>fs. bindM (getM co_dbs) (\<lambda>dbs.
     on_node db_path (node_create identity_path fs (dbs db_path) None))))"

definition cmd_start :: "env \<Rightarrow> string \<Rightarrow> string \<Rightarrow> turn list \<Rightarrow> int processM" where
  "cmd_start E identity_path db_path turns =
     bindM (process_create identity_path db_path) (\<lambda>nd.
     bindM (on_node db_path (node_start E nd)) (\<lambda>_.
     bindM (forM [Out (''node : '' @ py_take 16 (my_id nd) @ ''...''), Out stop_hint] echo) (\<lambda>_.
     bindM (run_until_signal E nd db_path turns) (\<lambda>_. returnM 0))))"

definition cmd_join :: "env \<Rightarrow> string \<Rightarrow> string \<Rightarrow> string \<Rightarrow> turn list \<Rightarrow> int processM" where
  "cmd_join E bootstrap_addr identity_path db_path turns =
     bindM (process_create identity_path db_path) (\<lambda>nd.
     bindM (on_node db_path (node_start E nd)) (\<lambda>_.
     bindM (on_node db_path (node_join E nd bootstrap_addr)) (\<lambda>_.
     bindM (forM [Out (''node : '' @ py_take 16 (my_id nd) @ ''...''),
                  Out (''joined via '' @ bootstrap_addr), Out stop_hint] echo) (\<lambda>_.
     bindM (run_until_signal E nd db_path turns) (\<lambda>_. returnM 0)))))"

text \<open>A life of a node: one process after another on the same two files.\<close>

datatype run =
    Start "turn list"
  | Join string "turn list"

fun exec_run :: "env \<Rightarrow> string \<Rightarrow> string \<Rightarrow> run \<Rightarrow> process \<Rightarrow> process" where
  "exec_run E path p (Start turns) s = snd (cmd_start E path p turns s)"
| "exec_run E path p (Join addr turns) s = snd (cmd_join E addr path p turns s)"

section \<open>A turn is a sequence of steps of the node\<close>

lemma frame_raises_early:
  "recv_frame E h conn raw s = (Inl e, s1) \<Longrightarrow> s1 = s"
  by (auto simp: recv_frame_def io_simps split: sum.splits if_splits prod.splits)

lemma turn_reach: "node_reach E nd s \<Longrightarrow> node_reach E nd (node_turn E nd t s)"
proof (cases t)
  case (Incoming ws)
  assume r: "node_reach E nd s"
  obtain a s1 where a: "do_auth E nd ws None s = (a, s1)" by (cases "do_auth E nd ws None s")
  show ?thesis
    using reach_step [OF r accept] reach_step [OF r refuse] a Incoming by (cases a) auto
next
  case (FrameOn conn raw)
  assume r: "node_reach E nd s"
  obtain a s1 where a: "recv_frame E (dispatch E nd) conn raw s = (a, s1)"
    by (cases "recv_frame E (dispatch E nd) conn raw s")
  show ?thesis
  proof (cases a)
    case (Inl e)
    with a FrameOn r show ?thesis
      using frame_raises_early [of E "dispatch E nd" conn raw s e s1] reach_step [OF r loop_end]
      by (auto simp: loop_ends_def)
  next
    case (Inr u)
    with a FrameOn r show ?thesis
      using reach_step [OF r frame, of conn raw] by auto
  qed
next
  case (LoopEnds conn)
  assume r: "node_reach E nd s"
  with LoopEnds show ?thesis using reach_step [OF r loop_end] by (auto simp: loop_ends_def)
next
  case GossipTurn
  assume r: "node_reach E nd s"
  with GossipTurn show ?thesis using reach_step [OF r gossip] by auto
qed

interpretation turns: stepper "node_reach E nd" "node_turn E nd" for E nd
  by unfold_locales (rule turn_reach)

definition process0 :: process where
  "process0 = \<lparr>co_files = \<lambda>_. None, co_dbs = \<lambda>_. None, co_world = world0, co_out = [], pr_node = blank_node world0\<rparr>"

section \<open>The database file over the lives of a node\<close>

definition proc_inv :: "env \<Rightarrow> Node \<Rightarrow> string \<Rightarrow> process \<Rightarrow> process \<Rightarrow> bool" where
  "proc_inv E nd p s0 s \<longleftrightarrow> node_reach E nd (pr_node s) \<and> (\<exists>d. co_dbs s p = Some d \<and> db_inv nd d) \<and>
     co_files s = co_files s0 \<and> (\<forall>q. q \<noteq> p \<longrightarrow> co_dbs s q = co_dbs s0 q)"

lemma keeps_proc_echo [keeps_intros]: "keeps (proc_inv E nd p s0) (echo x)"
  by (simp add: keeps_def io_simps proc_inv_def)

lemma keeps_on_node:
  assumes "\<And>n. node_reach E nd n \<Longrightarrow> node_reach E nd (snd (m n))"
  shows "keeps (proc_inv E nd p s0) (on_node p m)"
proof (rule keepsI)
  fix s assume s: "proc_inv E nd p s0 s"
  obtain r n where m: "m (pr_node s) = (r, n)" by (cases "m (pr_node s)")
  have n: "node_reach E nd n" using assms [of "pr_node s"] s m by (simp add: proc_inv_def)
  then have "db_inv nd (ns_db n)" using reach_inv by (auto simp: on_db_def)
  with n s show "proc_inv E nd p s0 (snd (on_node p m s))"
    by (auto simp: on_node_def m proc_inv_def)
qed

lemma keeps_proc_node [keeps_intros]:
  "keeps (proc_inv E nd p s0) (on_node p (node_start E nd))"
  "keeps (proc_inv E nd p s0) (on_node p (node_stop E))"
  "keeps (proc_inv E nd p s0) (on_node p (node_join E nd a))"
  "keeps (proc_inv E nd p s0) (on_node p (\<lambda>n. (Inr (), fold (node_turn E nd) turns n)))"
  by (rule keeps_on_node; auto intro: turns.run_inv reach_step start stop join)+

lemma keeps_proc_run [keeps_intros]: "keeps (proc_inv E nd p s0) (run_until_signal E nd p turns)"
  unfolding run_until_signal_def by (intro keeps_intros)

lemma process_create_apply:
  assumes "node_load path (co_files s) = Inr (nd_identity nd)" "nd_on_message nd = None"
  shows "process_create path p s = (Inr nd, s\<lparr>pr_node := (blank_node (co_world s))\<lparr>ns_open := True, ns_db := storage_open (co_dbs s p)\<rparr>,
    co_dbs := (co_dbs s)(p \<mapsto> storage_open (co_dbs s p))\<rparr>)"
  using assms
  by (cases nd) (simp add: process_create_def begin_process_def on_node_def node_create_def open_storage_def io_simps)

lemma process_create_inv:
  assumes "node_load path (co_files s) = Inr (nd_identity nd)" "nd_on_message nd = None"
    "\<And>d. co_dbs s p = Some d \<Longrightarrow> db_inv nd d"
  obtains s1 where "process_create path p s = (Inr nd, s1)" "proc_inv E nd p s s1" "co_out s1 = co_out s"
proof -
  let ?s = "s\<lparr>pr_node := (blank_node (co_world s))\<lparr>ns_open := True, ns_db := storage_open (co_dbs s p)\<rparr>,
    co_dbs := (co_dbs s)(p \<mapsto> storage_open (co_dbs s p))\<rparr>"
  have d: "db_inv nd (storage_open (co_dbs s p))"
    using assms(3) db_inv_empty by (auto simp: storage_open_def split: option.splits)
  then have "node_reach E nd (pr_node ?s)"
    by (intro reach_init) (simp_all add: blank_node_def)
  with d have "proc_inv E nd p s ?s" by (simp add: proc_inv_def)
  with process_create_apply [OF assms(1,2)] that show thesis by simp
qed

lemma run_keeps_file:
  assumes "node_load path (co_files s) = Inr (nd_identity nd)" "nd_on_message nd = None"
    "\<And>d. co_dbs s p = Some d \<Longrightarrow> db_inv nd d"
  shows "proc_inv E nd p s (exec_run E path p r s)"
proof -
  obtain s1 where s1: "process_create path p s = (Inr nd, s1)" "proc_inv E nd p s s1"
    by (rule process_create_inv [OF assms])
  show ?thesis
  proof (cases r)
    case (Start turns)
    let ?m = "\<lambda>nd. bindM (on_node p (node_start E nd)) (\<lambda>_.
       bindM (forM [Out (''node : '' @ py_take 16 (my_id nd) @ ''...''), Out stop_hint] echo) (\<lambda>_.
       bindM (run_until_signal E nd p turns) (\<lambda>_. returnM (0 :: int))))"
    have "keeps (proc_inv E nd p s) (?m nd)" by (intro keeps_intros)
    from keepsD [OF this s1(2)] show ?thesis
      by (simp add: Start cmd_start_def bindM_apply [of "process_create path p"] s1(1) del: forM.simps)
  next
    case (Join a turns)
    let ?m = "\<lambda>nd. bindM (on_node p (node_start E nd)) (\<lambda>_. bindM (on_node p (node_join E nd a)) (\<lambda>_.
       bindM (forM [Out (''node : '' @ py_take 16 (my_id nd) @ ''...''), Out (''joined via '' @ a), Out stop_hint] echo) (\<lambda>_.
       bindM (run_until_signal E nd p turns) (\<lambda>_. returnM (0 :: int)))))"
    have "keeps (proc_inv E nd p s) (?m nd)" by (intro keeps_intros)
    from keepsD [OF this s1(2)] show ?thesis
      by (simp add: Join cmd_join_def bindM_apply [of "process_create path p"] s1(1) del: forM.simps)
  qed
qed

text \<open>What a process leaves behind for the next one.\<close>

definition life_inv :: "Node \<Rightarrow> string \<Rightarrow> string \<Rightarrow> process \<Rightarrow> process \<Rightarrow> bool" where
  "life_inv nd path p s0 s \<longleftrightarrow> node_load path (co_files s) = Inr (nd_identity nd) \<and> nd_on_message nd = None \<and>
     (\<exists>d. co_dbs s p = Some d \<and> db_inv nd d) \<and> co_files s = co_files s0 \<and>
     (\<forall>q. q \<noteq> p \<longrightarrow> co_dbs s q = co_dbs s0 q)"

interpretation lives: stepper "life_inv nd path p s0" "exec_run E path p" for E nd path p s0
proof
  fix s r assume "life_inv nd path p s0 s"
  then show "life_inv nd path p s0 (exec_run E path p r s)"
    using run_keeps_file [of path s nd p E r] by (auto simp: life_inv_def proc_inv_def)
qed

lemma bind_on_node:
  "m (pr_node s) = (Inr x, n) \<Longrightarrow> bindM (on_node p m) f s = f x (s\<lparr>pr_node := n,
     co_dbs := (if ns_open (pr_node s) \<or> ns_open n then (co_dbs s)(p \<mapsto> ns_db n) else co_dbs s)\<rparr>)"
  by (simp add: bindM_apply on_node_def)

lemma genesis_keeps_file:
  assumes "urandom_ok E" "access \<in> set access_choice" "co_dbs s p = None"
  obtains nd d t n where "snd (cmd_genesis E a path p access turns s) = t"
    "create_genesis E a path (co_files s) None access None (blank_node (co_world s)) = (Inr (nd, co_files t), n)"
    "node_load path (co_files t) = Inr (nd_identity nd)" "nd_on_message nd = None" "ni_address (nd_identity nd) = PStr a"
    "co_dbs t p = Some d" "db_inv nd d" "\<And>q. q \<noteq> p \<Longrightarrow> co_dbs t q = co_dbs s q"
    "\<And>f. f \<noteq> path \<Longrightarrow> co_files t f = co_files s f"
proof -
  let ?n0 = "blank_node (co_world s)"
  obtain idt j now seen added where g: "create_genesis E a path (co_files s) (co_dbs s p) access None ?n0 =
       (Inr (\<lparr>nd_identity = idt, nd_on_message = None\<rparr>, node_save idt path (co_files s)),
        ?n0\<lparr>ns_open := True, w_tick := j,
          ns_db := upsert_node now (discovered seen added (node_id idt) a ''permanent'' access) (storage_open (co_dbs s p))\<rparr>)"
    "node_load path (node_save idt path (co_files s)) = Inr idt" "ni_address idt = PStr a"
    by (rule genesis_apply [OF assms(1)])
  define nd where "nd = \<lparr>nd_identity = idt, nd_on_message = None\<rparr>"
  define d where "d = upsert_node now (discovered seen added (node_id idt) a ''permanent'' access) (storage_open (co_dbs s p))"
  define s1 where "s1 = s\<lparr>pr_node := ?n0\<lparr>ns_open := True, w_tick := j, ns_db := d\<rparr>, co_dbs := (co_dbs s)(p \<mapsto> d),
    co_files := node_save idt path (co_files s)\<rparr>"
  have inv: "db_inv nd d"
    unfolding d_def using assms(3) by (intro db_inv_nodes) (simp add: storage_open_def db_inv_empty)
  then have "node_reach E nd (pr_node s1)" by (intro reach_init) (simp_all add: s1_def blank_node_def)
  with inv have s1: "proc_inv E nd p s1 s1" by (simp add: proc_inv_def s1_def)
  let ?m = "bindM (forM [Out (''genesis node: '' @ my_id nd), Out (''address     : '' @ a),
      Out (''identity    '' @ arrow @ '' '' @ path), Out (''database    '' @ arrow @ '' '' @ p)] echo) (\<lambda>_.
    bindM (on_node p (node_start E nd)) (\<lambda>_. bindM (echo (Out (''node '' @ stop_hint))) (\<lambda>_.
    bindM (run_until_signal E nd p turns) (\<lambda>_. returnM (0 :: int)))))"
  have "keeps (proc_inv E nd p s1) ?m" by (intro keeps_intros)
  from keepsD [OF this s1] have t: "proc_inv E nd p s1 (snd (?m s1))" .
  have run: "cmd_genesis E a path p access turns s = ?m s1"
    using assms(2) g(1)
    by (simp add: cmd_genesis_def begin_process_def bindM_apply [of "modifyM f" for f] bindM_apply [of "getM f" for f]
        bind_on_node modifyM_apply getM_apply
        d_def [symmetric] nd_def [symmetric] s1_def del: forM.simps)
  have t: "proc_inv E nd p s1 (snd (cmd_genesis E a path p access turns s))" using t unfolding run .
  then obtain d' where d': "co_dbs (snd (cmd_genesis E a path p access turns s)) p = Some d'" "db_inv nd d'"
    by (auto simp: proc_inv_def)
  have l: "node_load path (co_files (snd (cmd_genesis E a path p access turns s))) = Inr (nd_identity nd)"
    using t g(2) by (simp add: proc_inv_def s1_def nd_def)
  show thesis
    by (rule that [OF refl _ l _ _ d'])
      (use t g(1,3) assms(3) in \<open>simp_all add: proc_inv_def s1_def nd_def\<close>, simp add: node_save_def)
qed

text \<open>
  C5: the files of a node survive its lives.  After \<^verbatim>\<open>genesis\<close> on a new database file and then any
  number of processes started with \<^verbatim>\<open>start\<close> or \<^verbatim>\<open>join\<close> on the same two files, each with any
  connections, frames, failures and gossip turns, and whether they end well or by an exception:
  the files are exactly those \<^verbatim>\<open>create_genesis\<close> returned when it made the node's identity (keys,
  address, type and access), and loading the identity file gives that identity; the database has unique keys,
  a node is offline exactly when it missed three pings, the id of every registered cell
  belongs to its key, every presence record names this node as home and nothing is buffered;
  no other file has changed.
\<close>
theorem files_survive_restarts:
  assumes "urandom_ok E" and "access \<in> set access_choice" and "co_dbs s p = None"
    and "t = fold (exec_run E path p) runs (snd (cmd_genesis E a path p access turns s))"
  shows "\<exists>nd d n. create_genesis E a path (co_files s) None access None (blank_node (co_world s)) = (Inr (nd, co_files t), n) \<and>
    node_load path (co_files t) = Inr (nd_identity nd) \<and> ni_address (nd_identity nd) = PStr a \<and> co_dbs t p = Some d \<and>
    distinct (map nr_node_id (node_table d)) \<and> distinct (map cr_cell_id (cells d)) \<and>
    (\<forall>r \<in> set (node_table d). nr_status r = (if nr_missed_pings r \<ge> 3 then ''offline'' else ''online'')) \<and>
    (\<forall>c \<in> set (cells d). cr_cell_id c = hex (cr_signing_pubkey c) \<and> length (cr_signing_pubkey c) = 32) \<and>
    (\<forall>r \<in> set (presence_table d). pe_home_node_id r = my_id nd \<and> pe_visiting_node_id r = None) \<and>
    message_buffer d = [] \<and>
    (\<forall>q. q \<noteq> p \<longrightarrow> co_dbs t q = co_dbs s q) \<and> (\<forall>f. f \<noteq> path \<longrightarrow> co_files t f = co_files s f)"
proof -
  obtain nd d u n where u: "snd (cmd_genesis E a path p access turns s) = u"
    "create_genesis E a path (co_files s) None access None (blank_node (co_world s)) = (Inr (nd, co_files u), n)"
    "node_load path (co_files u) = Inr (nd_identity nd)" "nd_on_message nd = None" "ni_address (nd_identity nd) = PStr a"
    "co_dbs u p = Some d" "db_inv nd d" "\<And>q. q \<noteq> p \<Longrightarrow> co_dbs u q = co_dbs s q"
    "\<And>f. f \<noteq> path \<Longrightarrow> co_files u f = co_files s f"
    by (rule genesis_keeps_file [OF assms(1-3), of a path turns]) blast
  obtain d' where d': "co_dbs t p = Some d'" "db_inv nd d'" "co_files t = co_files u" "\<And>q. q \<noteq> p \<Longrightarrow> co_dbs t q = co_dbs u q"
    using lives.run_inv [of nd path p u u E runs] assms(4) u by (auto simp: life_inv_def)
  show ?thesis
    by (rule exI [of _ nd], rule exI [of _ d'], rule exI [of _ n])
      (use d'(2) in \<open>simp add: d'(1,3,4) u(2,3,5,8,9) db_inv_def wf_db_def healthy_db_def healthy_def cell_ok_def
         at_home_only_def MISSED_PINGS_OFFLINE_def\<close>)
qed

theorem files_survive_restarts_witness:
  "\<exists>(nd :: Node) d. node_load ''node.json'' (co_files (fold (exec_run env0 ''node.json'' ''node.db'') [Start [GossipTurn], Join ''h:2'' []]
       (snd (cmd_genesis env0 ''h:1'' ''node.json'' ''node.db'' ''open'' [Incoming 4] process0)))) = Inr (nd_identity nd) \<and>
     ni_address (nd_identity nd) = PStr ''h:1'' \<and>
     co_dbs (fold (exec_run env0 ''node.json'' ''node.db'') [Start [GossipTurn], Join ''h:2'' []]
       (snd (cmd_genesis env0 ''h:1'' ''node.json'' ''node.db'' ''open'' [Incoming 4] process0))) ''node.db'' = Some d \<and>
     message_buffer d = []"
proof -
  have "''open'' \<in> set access_choice" "co_dbs process0 ''node.db'' = None"
    by (simp_all add: access_choice_def process0_def)
  note facts = this
  define t where "t = fold (exec_run env0 ''node.json'' ''node.db'') [Start [GossipTurn], Join ''h:2'' []]
       (snd (cmd_genesis env0 ''h:1'' ''node.json'' ''node.db'' ''open'' [Incoming 4] process0))"
  show ?thesis
    unfolding t_def [symmetric]
    using files_survive_restarts [OF env0_ok(5) facts t_def] by (elim exE conjE) (intro exI conjI)
qed

text \<open>Until the signal nothing touches the server socket.\<close>

definition listens :: "(string \<times> int) option \<Rightarrow> node_state \<Rightarrow> bool" where
  "listens x s \<longleftrightarrow> ns_listening s = x"

lemma listens_free: "world_free (listens x)"
  by (simp add: world_free_def listens_def)

lemma keeps_listens_calls:
  "keeps (listens x) (db_write f)" "keeps (listens x) (conn_add c)" "keeps (listens x) (conn_remove k)"
  "keeps (listens x) (conn_get k)" "keeps (listens x) (spawn_recv_loop c)" "keeps (listens x) (call_on_message cb p)"
  by (auto simp: keeps_def io_simps listens_def call_on_message_def split: option.splits)

lemma keeps_listens_storage:
  "keeps (listens x) (db_write_now E g)" "keeps (listens x) (upsertM E e)"
  unfolding db_write_now_def upsertM_def by (intro keeps_intros keeps_listens_calls listens_free)+

lemmas listens_intros = keeps_intros keeps_listens_calls keeps_listens_storage listens_free

lemma keeps_listens_router: "keeps (listens x) (route E nd p)" "keeps (listens x) (flush_buffer E nd c)"
proof -
  have t: "keeps (listens x) (send_to E nd k q)" "keeps (listens x) (connect_to_node E nd k a)" for k q a
    unfolding send_to_def connect_to_node_def open_and_auth_def by (intro listens_intros)+
  have d: "keeps (listens x) (deliver_local E nd q)" for q
    unfolding deliver_local_def by (intro listens_intros t)
  have n: "keeps (listens x) (send_to_node E nd k q)" for k q
    unfolding send_to_node_def connect_and_send_def by (intro listens_intros t d)
  show r: "keeps (listens x) (route E nd p)" for p
    unfolding route_def buffer_packet_def by (auto intro!: listens_intros n d split: pyval.splits)
  show "keeps (listens x) (flush_buffer E nd c)"
    unfolding flush_buffer_def flush_message_def by (intro listens_intros r)
qed

lemma keeps_listens_node:
  "keeps (listens x) (dispatch E nd p conn)" "keeps (listens x) (gossip_turn E nd)"
proof -
  have l: "keeps (listens x) (handle_node_leaving p)"
    unfolding handle_node_leaving_def remove_by_def log_slice_def
    by (intro listens_intros) (auto intro: listens_intros split: pyval.splits)
  show "keeps (listens x) (dispatch E nd p conn)"
    unfolding dispatch_def Let_def handle_ping_def handle_pong_def handle_gossip_def merge_node_def
      add_discovered_def handle_node_remove_def handle_presence_query_def handle_cell_register_def
      remove_by_def log_slice_def
    by (intro listens_intros keeps_listens_router l)
  show "keeps (listens x) (gossip_turn E nd)"
    unfolding gossip_turn_def gossip_round_def Let_def ping_node_def exchange_def connect_to_node_def open_and_auth_def
    by (intro listens_intros)
qed

lemma keeps_listening_turn: "ns_listening (node_turn E nd t s) = ns_listening s"
proof (cases t)
  case (Incoming ws)
  have "listens (ns_listening s) (snd (do_auth E nd ws None s))"
    by (rule keepsD) (intro listens_intros, simp add: listens_def)
  then show ?thesis
    by (cases "do_auth E nd ws None s"; cases "fst (do_auth E nd ws None s)") (auto simp: Incoming listens_def io_simps)
next
  case (FrameOn conn raw)
  have "listens (ns_listening s) (snd (recv_frame E (dispatch E nd) conn raw s))"
    by (rule keepsD [OF keeps_recv_frame]) (rule keeps_listens_node, simp add: listens_def)
  then show ?thesis
    by (cases "recv_frame E (dispatch E nd) conn raw s"; cases "fst (recv_frame E (dispatch E nd) conn raw s)")
      (auto simp: FrameOn listens_def loop_ends_def io_simps)
next
  case (LoopEnds conn)
  then show ?thesis by (simp add: loop_ends_def io_simps)
next
  case GossipTurn
  have "listens (ns_listening s) (snd (gossip_turn E nd s))"
    by (rule keepsD [OF keeps_listens_node(2)]) (simp add: listens_def)
  then show ?thesis by (simp add: GossipTurn listens_def)
qed

lemma turns_listening: "ns_listening s = x \<Longrightarrow> ns_listening (fold (node_turn E nd) ts s) = x"
  by (induction ts arbitrary: s) (simp_all add: keeps_listening_turn)

lemma node_stop_apply:
  "node_stop E n = (Inr (), (if ns_listening n = None then n\<lparr>w_closed := w_closed n @ map (pc_ws \<circ> snd) (ns_conns n)\<rparr>
     else (let served = filter (\<lambda>c. e_accepted E (pc_ws c)) (ns_loops n);
               left = fold (\<lambda>c. dict_pop (pc_peer_node_id c)) served (ns_conns n) in
       n\<lparr>ns_listening := None, ns_loops := filter (\<lambda>c. \<not> e_accepted E (pc_ws c)) (ns_loops n), ns_conns := left,
         w_closed := w_closed n @ map pc_ws served @ map (pc_ws \<circ> snd) left\<rparr>))\<lparr>ns_gossip := False, ns_open := False\<rparr>)"
proof -
  have close: "forM cs conn_close m = (Inr (), m\<lparr>w_closed := w_closed m @ map pc_ws cs\<rparr>)" for cs and m :: node_state
    by (induction cs arbitrary: m) (simp_all add: conn_close_def io_simps)
  show ?thesis
    by (simp add: node_stop_def transport_stop_def server_close_def close_storage_def bindM_apply modifyM_apply registry_apply
        gossip_task_apply close Let_def)
qed

text \<open>
  C31: \<^verbatim>\<open>start\<close> either cannot listen or comes back with everything shut down.  On an identity file with
  a valid address: if \<^verbatim>\<open>websockets.serve\<close> fails, the command ends with its exception, with no
  gossip task, nothing sent or printed and only the database file opened.  Otherwise, whatever
  the event loop does until the signal, the command returns status 0; it listened on that
  address with the gossip task running on the contents of the database file; at the end the
  gossip task and the server are stopped, the sockets the server accepted are closed and their
  peers off the registry, the sockets of all connections still registered are closed, the
  storage is closed, and the database file holds what the last turn left.
\<close>
theorem start_returns_stopped:
  assumes "node_load path (co_files s) = Inr idt" and "split_address (ni_address idt) = Inr (host, port)"
    and "n = fold (node_turn E \<lparr>nd_identity = idt, nd_on_message = None\<rparr>) turns
      ((blank_node (co_world s))\<lparr>ns_open := True, ns_db := storage_open (co_dbs s p), w_tick := Suc (w_tick (co_world s)),
         ns_listening := Some (host, port), ns_gossip := True\<rparr>)"
    and "served = filter (\<lambda>c. e_accepted E (pc_ws c)) (ns_loops n)"
    and "left = fold (\<lambda>c. dict_pop (pc_peer_node_id c)) served (ns_conns n)"
  shows "case e_serve E (w_tick (co_world s)) host port of
    Some e \<Rightarrow> (\<exists>t. cmd_start E path p turns s = (Inl e, t) \<and> \<not> ns_gossip (pr_node t) \<and> ns_listening (pr_node t) = None \<and>
      w_sent (pr_node t) = w_sent (co_world s) \<and> co_dbs t = (co_dbs s)(p \<mapsto> storage_open (co_dbs s p)) \<and>
      co_files t = co_files s \<and> co_out t = co_out s)
  | None \<Rightarrow> (\<exists>t. cmd_start E path p turns s = (Inr 0, t) \<and>
      pr_node t = n\<lparr>ns_listening := None, ns_loops := filter (\<lambda>c. \<not> e_accepted E (pc_ws c)) (ns_loops n),
        ns_conns := left, w_closed := w_closed n @ map pc_ws served @ map (pc_ws \<circ> snd) left,
        ns_gossip := False, ns_open := False\<rparr> \<and>
      co_dbs t = (co_dbs s)(p \<mapsto> ns_db n) \<and> co_files t = co_files s \<and>
      co_out t = co_out s @ [Out (''node : '' @ py_take 16 (node_id idt) @ ''...''), Out stop_hint, Out (CHR 0x0A # ''stopping...'')])"
proof -
  let ?nd = "\<lparr>nd_identity = idt, nd_on_message = None\<rparr>"
  let ?b = "(blank_node (co_world s))\<lparr>ns_open := True, ns_db := storage_open (co_dbs s p)\<rparr>"
  let ?s0 = "s\<lparr>pr_node := ?b, co_dbs := (co_dbs s)(p \<mapsto> storage_open (co_dbs s p))\<rparr>"
  have create: "process_create path p s = (Inr ?nd, ?s0)"
    by (rule process_create_apply) (simp_all add: assms(1))
  show ?thesis
  proof (cases "e_serve E (w_tick (co_world s)) host port")
    case (Some e)
    then have "node_start E ?nd ?b = (Inl e, ?b\<lparr>w_tick := Suc (w_tick (co_world s))\<rparr>)"
      using assms(2) by (simp add: node_start_def transport_start_def io_simps blank_node_def)
    with create Some show ?thesis
      by (simp add: cmd_start_def bindM_apply on_node_def blank_node_def)
  next
    case None
    let ?n1 = "?b\<lparr>w_tick := Suc (w_tick (co_world s)), ns_listening := Some (host, port), ns_gossip := True\<rparr>"
    have start: "node_start E ?nd ?b = (Inr (), ?n1)"
      using assms(2) None by (simp add: node_start_def transport_start_def io_simps blank_node_def)
    have lis: "ns_listening n = Some (host, port)"
      unfolding assms(3) by (rule turns_listening) simp
    obtain m where stop: "node_stop E n = (Inr (), m)" "ns_db m = ns_db n"
      by (simp add: node_stop_apply Let_def)
    have run: "run_until_signal E ?nd p turns u = (Inr (), u\<lparr>pr_node := m, co_dbs := (co_dbs u)(p \<mapsto> ns_db n),
          co_out := co_out u @ [Out (CHR 0x0A # ''stopping...'')]\<rparr>)" if "pr_node u = ?n1" for u
      unfolding run_until_signal_def finallyM_def
      by (simp add: on_node_def echo_apply bindM_apply stop that flip: assms(3))
    let ?s1 = "s\<lparr>pr_node := ?n1, co_dbs := (co_dbs s)(p \<mapsto> storage_open (co_dbs s p))\<rparr>"
    have "cmd_start E path p turns s = bindM (forM [Out (''node : '' @ py_take 16 (my_id ?nd) @ ''...''), Out stop_hint] echo) (\<lambda>_.
       bindM (run_until_signal E ?nd p turns) (\<lambda>_. returnM 0)) ?s1"
      using start by (simp add: cmd_start_def bindM_apply [of "process_create path p"] create bind_on_node del: forM.simps)
    also have "\<dots> = (Inr 0, ?s1\<lparr>pr_node := m, co_dbs := (co_dbs s)(p \<mapsto> ns_db n),
       co_out := co_out s @ [Out (''node : '' @ py_take 16 (node_id idt) @ ''...''), Out stop_hint, Out (CHR 0x0A # ''stopping...'')]\<rparr>)"
      by (simp add: bindM_apply forM_echo run returnM_apply del: forM.simps)
    finally show ?thesis
      using None lis stop(1) by (auto simp: node_stop_apply assms(4,5) Let_def)
  qed
qed

theorem start_returns_stopped_witness:
  "\<exists>t. cmd_start env0 ''node.json'' ''node.db'' []
     (process0\<lparr>co_files := node_save (nd_identity nd0) ''node.json'' (\<lambda>_. None)\<rparr>) = (Inr 0, t) \<and> \<not> ns_open (pr_node t)"
proof -
  let ?s = "process0\<lparr>co_files := node_save (nd_identity nd0) ''node.json'' (\<lambda>_. None)\<rparr>"
  have "node_load ''node.json'' (co_files ?s) = Inr (nd_identity nd0)"
    using node_save_load [of "nd_identity nd0"] by (simp add: nd0_def kp0_def en0_def)
  moreover have "\<exists>h q. split_address (ni_address (nd_identity nd0)) = Inr (h, q)"
    by (simp add: nd0_def rsplit1_def py_int_def py_strip_def ws_point_def unsigned_int_def)
  ultimately obtain h q where "node_load ''node.json'' (co_files ?s) = Inr (nd_identity nd0)"
    "split_address (ni_address (nd_identity nd0)) = Inr (h, q)" by blast
  from start_returns_stopped [OF this refl refl refl, of env0 "''node.db''" "[]"] show ?thesis
    by (auto simp: Let_def)
qed

end
