(* ===== verification/Nevod_Runs.thy ===== *)
theory Nevod_Runs
  imports Nevod_Commands "HOL-Library.Multiset"
begin

text \<open>
  Complete runs of the receive loop as turns of the event loop.  \<^verbatim>\<open>_handle_incoming\<close> is modelled
  twice: as one function of the frames its socket delivers (\<open>handle_incoming\<close>), and cut into
  turns between which other tasks run (\<open>node_turn\<close>).  The two agree: handlers only ever append
  to the list of running loops and never look at it (\<open>blind\<close>).
\<close>

section \<open>Handlers do not look at the running loops\<close>

definition sim :: "PeerConnection list \<Rightarrow> PeerConnection list \<Rightarrow> node_state \<Rightarrow> node_state \<Rightarrow> bool" where
  "sim A B s t \<longleftrightarrow> (\<exists>N. ns_loops s = A @ N \<and> t = s\<lparr>ns_loops := B @ N\<rparr>)"

definition blind :: "'a nodeM \<Rightarrow> bool" where
  "blind m \<longleftrightarrow> (\<forall>A B s t. sim A B s t \<longrightarrow> fst (m s) = fst (m t) \<and> sim A B (snd (m s)) (snd (m t)))"

named_theorems blind_intros "introduction rules for computations that do not look at the running loops"

lemma blindE:
  assumes "blind m" "sim A B s t"
  obtains r s' t' where "m s = (r, s')" "m t = (r, t')" "sim A B s' t'"
proof -
  have "fst (m s) = fst (m t) \<and> sim A B (snd (m s)) (snd (m t))" using assms unfolding blind_def by blast
  then show thesis using that by (metis prod.collapse)
qed

lemma blindI:
  "(\<And>A B s t. sim A B s t \<Longrightarrow> fst (m s) = fst (m t) \<and> sim A B (snd (m s)) (snd (m t))) \<Longrightarrow> blind m"
  by (simp add: blind_def)

lemma blind_basic [blind_intros]: "blind (returnM x)" "blind (raiseM e)" "blind (liftM r)"
  by (simp_all add: blind_def io_simps)

lemma blind_bind [blind_intros]:
  assumes "blind m" "\<And>x. blind (f x)"
  shows "blind (bindM m f)"
proof (rule blindI)
  fix A B s t assume "sim A B s t"
  then obtain r s' t' where m: "m s = (r, s')" "m t = (r, t')" "sim A B s' t'" by (rule blindE [OF assms(1)])
  show "fst (bindM m f s) = fst (bindM m f t) \<and> sim A B (snd (bindM m f s)) (snd (bindM m f t))"
    using m assms(2) by (cases r) (auto simp: bindM_apply blind_def)
qed

lemma blind_try [blind_intros]:
  assumes "blind m" "\<And>e. blind (h e)"
  shows "blind (tryM m h)"
proof (rule blindI)
  fix A B s t assume "sim A B s t"
  then obtain r s' t' where m: "m s = (r, s')" "m t = (r, t')" "sim A B s' t'" by (rule blindE [OF assms(1)])
  show "fst (tryM m h s) = fst (tryM m h t) \<and> sim A B (snd (tryM m h s)) (snd (tryM m h t))"
    using m assms(2) by (cases r) (auto simp: tryM_apply blind_def)
qed

lemma blind_for [blind_intros]: "(\<And>x. blind (f x)) \<Longrightarrow> blind (forM xs f)"
  by (induction xs) (auto intro: blind_intros)

lemma blind_if [blind_intros]: "blind m \<Longrightarrow> blind m' \<Longrightarrow> blind (if b then m else m')"
  by simp

lemma blind_option [blind_intros]:
  "blind m \<Longrightarrow> (\<And>y. blind (f y)) \<Longrightarrow> blind (case x of None \<Rightarrow> m | Some y \<Rightarrow> f y)"
  by (cases x) auto

lemma blind_sum [blind_intros]:
  "(\<And>e. blind (f e)) \<Longrightarrow> (\<And>y. blind (g y)) \<Longrightarrow> blind (case x of Inl e \<Rightarrow> f e | Inr y \<Rightarrow> g y)"
  by (cases x) auto

lemma blind_prod [blind_intros]: "(\<And>a b. blind (f a b)) \<Longrightarrow> blind (case x of (a, b) \<Rightarrow> f a b)"
  by (cases x) auto

lemma blind_get: "(\<And>s l. f (s\<lparr>ns_loops := l\<rparr>) = f s) \<Longrightarrow> blind (getM f)"
  by (auto simp: blind_def io_simps sim_def)

lemma blind_modify:
  "(\<And>s l. f (s\<lparr>ns_loops := l\<rparr>) = (f s)\<lparr>ns_loops := l\<rparr>) \<Longrightarrow> (\<And>s. ns_loops (f s) = ns_loops s) \<Longrightarrow> blind (modifyM f)"
  by (auto simp: blind_def io_simps sim_def)

lemma blind_world [blind_intros]:
  "blind tickM" "blind (modifyM (\<lambda>s. s\<lparr>w_sent := w_sent s @ [x]\<rparr>))" "blind (ws_close w)"
  by (auto simp: blind_def io_simps sim_def)

lemma blind_env [blind_intros]:
  "blind (time_now E)" "blind (urandom E n)" "blind (uuid4 E)" "blind (ws_connect E uri)"
  "blind (ws_send E w b)" "blind (ws_recv E w)"
  unfolding time_now_def urandom_def uuid4_def ws_connect_def ws_send_def ws_recv_def
  by (intro blind_intros)+

lemma blind_db [blind_intros]: "blind (db_read f)" "blind (db_write g)"
  by (auto simp: blind_def io_simps sim_def)

lemma blind_db_now [blind_intros]: "blind (db_write_now E h)" "blind (db_read_now E k)" "blind (upsertM E e)"
  unfolding db_write_now_def db_read_now_def upsertM_def by (intro blind_intros)+

lemma blind_registry [blind_intros]:
  "blind (conn_add c)" "blind (conn_remove k)" "blind (conn_get k)" "blind (spawn_recv_loop c)"
  by (auto simp: blind_def io_simps sim_def)

lemma blind_packets [blind_intros]:
  "blind (new_packet E ty pl f a)" "blind (payload_packet E ty d f a)"
  unfolding payload_packet_def new_packet_def by (intro blind_intros)+

lemma blind_auth [blind_intros]: "blind (do_auth E nd w x)"
proof -
  have "blind (make_response E n v u sg en)" for n v u sg en
    unfolding make_response_def make_auth_response_def by (cases u) (auto intro!: blind_intros)
  then show ?thesis
    unfolding do_auth_def auth_exchange_def make_challenge_def make_auth_challenge_def auth_answer_def auth_conclude_def
    by (intro blind_intros)
qed

lemma blind_transport [blind_intros]:
  "blind (send_via E nd c p)" "blind (send_to E nd k p)" "blind (connect_to_node E nd i a)"
  unfolding send_via_def send_to_def conn_send_def connect_to_node_def open_and_auth_def
  by (intro blind_intros)+

lemma blind_router [blind_intros]: "blind (route E nd p)" "blind (flush_buffer E nd c)"
proof -
  have msg: "blind (call_on_message cb q)" for cb q
    unfolding call_on_message_def by (intro blind_intros blind_modify) simp_all
  have local: "blind (deliver_local E nd q)" for q
    unfolding deliver_local_def by (intro blind_intros msg)
  have send: "blind (send_to_node E nd k q)" for k q
    unfolding send_to_node_def connect_and_send_def by (intro blind_intros local)
  show r: "blind (route E nd p)" for p
    unfolding route_def buffer_packet_def by (auto intro!: blind_intros send local split: pyval.splits)
  show "blind (flush_buffer E nd c)"
    unfolding flush_buffer_def flush_message_def by (intro blind_intros r)
qed

lemma blind_dispatch: "blind (dispatch E nd p conn)"
  unfolding dispatch_def Let_def handle_ping_def make_pong_def handle_pong_def handle_gossip_def merge_node_def
    add_discovered_def handle_node_remove_def handle_node_leaving_def handle_presence_query_def handle_cell_register_def
    remove_by_def log_slice_def
  by (auto intro!: blind_intros split: pyval.splits)

lemma blind_frame: "blind (recv_frame E (dispatch E nd) conn raw)"
  unfolding recv_frame_def by (intro blind_intros blind_dispatch)

section \<open>The receive loop turn by turn\<close>

lemma recv_loop_Nil: "recv_loop E h conn [] s = conn_remove (pc_peer_node_id conn) s"
  by (simp add: recv_loop_def finallyM_def io_simps)

lemma recv_loop_raise:
  "recv_frame E h conn raw s = (Inl e, s1) \<Longrightarrow>
   snd (recv_loop E h conn (raw # frames) s) = snd (conn_remove (pc_peer_node_id conn) s1)"
  by (simp add: recv_loop_def finallyM_def io_simps)

lemma recv_loop_next:
  "recv_frame E h conn raw s = (Inr u, s1) \<Longrightarrow> recv_loop E h conn (raw # frames) s = recv_loop E h conn frames s1"
  by (simp add: recv_loop_def finallyM_def io_simps)

text \<open>After the loop the two states differ only in the loops: the turns have removed theirs.\<close>

definition ended :: "PeerConnection \<Rightarrow> PeerConnection list \<Rightarrow> PeerConnection list \<Rightarrow> node_state \<Rightarrow> node_state \<Rightarrow> bool" where
  "ended conn A B s t \<longleftrightarrow> (\<exists>N. ns_loops s = A @ N \<and> t = s\<lparr>ns_loops := remove1 conn (B @ N)\<rparr>)"

lemma loop_ends_ended:
  "sim A B s t \<Longrightarrow> ended conn A B (snd (conn_remove (pc_peer_node_id conn) s)) (loop_ends conn t)"
  by (auto simp: sim_def ended_def loop_ends_def io_simps)

lemma loop_as_turns:
  assumes "sim A B s t" "conn \<in> set B"
  shows "\<exists>used rest tail. frames = used @ rest \<and> set tail \<subseteq> {LoopEnds conn} \<and>
    ended conn A B (snd (recv_loop E (dispatch E nd) conn frames s))
      (fold (node_turn E nd) (map (FrameOn conn) used @ tail) t)"
  using assms(1)
proof (induction frames arbitrary: s t)
  case Nil
  have "conn \<in> set (ns_loops t)" using Nil assms(2) by (auto simp: sim_def)
  then show ?case
    using loop_ends_ended [OF Nil, of conn]
    by (intro exI [of _ "[]"] exI [of _ "[LoopEnds conn]"]) (simp add: recv_loop_Nil)
next
  case (Cons raw frames)
  have live: "conn \<in> set (ns_loops t)" using Cons.prems assms(2) by (auto simp: sim_def)
  obtain r s1 t1 where f: "recv_frame E (dispatch E nd) conn raw s = (r, s1)"
    "recv_frame E (dispatch E nd) conn raw t = (r, t1)" "sim A B s1 t1"
    by (rule blindE [OF blind_frame Cons.prems])
  show ?case
  proof (cases r)
    case (Inl e)
    then show ?thesis
      using f live loop_ends_ended [OF f(3), of conn]
      by (intro exI [of _ "[raw]"] exI [of _ frames] exI [of _ "[]"]) (simp add: recv_loop_raise)
  next
    case (Inr u)
    obtain used rest tail where i: "frames = used @ rest" "set tail \<subseteq> {LoopEnds conn}"
      "ended conn A B (snd (recv_loop E (dispatch E nd) conn frames s1))
        (fold (node_turn E nd) (map (FrameOn conn) used @ tail) t1)"
      using Cons.IH [OF f(3)] by blast
    then show ?thesis
      using f Inr live
      by (intro exI [of _ "raw # used"] exI [of _ rest] exI [of _ tail]) (simp add: recv_loop_next)
  qed
qed

text \<open>
  an incoming connection, run to its end, is a sequence of turns of the event loop.  For any
  state, peer and frames there are turns, the connection, then a first part of the frames, in
  order, on that connection, then possibly the end of its loop, that lead to the same state:
  the same database, registry, frames sent, sockets closed, messages delivered and counters,
  and the same running receive loops up to their order.  What holds along turns holds for
  complete runs.
\<close>
theorem incoming_run_is_turns:
  "\<exists>conn used rest tail t. frames = used @ rest \<and> set tail \<subseteq> {LoopEnds conn} \<and>
    t = fold (node_turn E nd) (Incoming ws # map (FrameOn conn) used @ tail) s \<and>
    snd (handle_incoming E nd (dispatch E nd) ws frames s) =
      t\<lparr>ns_loops := ns_loops (snd (handle_incoming E nd (dispatch E nd) ws frames s))\<rparr> \<and>
    mset (ns_loops t) = mset (ns_loops (snd (handle_incoming E nd (dispatch E nd) ws frames s)))"
proof -
  obtain a s1 where a: "do_auth E nd ws None s = (a, s1)" by (cases "do_auth E nd ws None s")
  show ?thesis
  proof (cases a)
    case (Inl e)
    with a show ?thesis
      by (intro exI [of _ undefined] exI [of _ "[]"] exI [of _ frames] exI [of _ "[]"] exI)
        (auto simp: handle_incoming_def io_simps)
  next
    case (Inr conn)
    let ?s2 = "s1\<lparr>ns_conns := dict_set (pc_peer_node_id conn) conn (ns_conns s1)\<rparr>"
    let ?t2 = "?s2\<lparr>ns_loops := ns_loops s1 @ [conn]\<rparr>"
    have start: "sim (ns_loops s1) (ns_loops s1 @ [conn]) ?s2 ?t2" by (simp add: sim_def)
    obtain used rest tail where u: "frames = used @ rest" "set tail \<subseteq> {LoopEnds conn}"
      "ended conn (ns_loops s1) (ns_loops s1 @ [conn]) (snd (recv_loop E (dispatch E nd) conn frames ?s2))
        (fold (node_turn E nd) (map (FrameOn conn) used @ tail) ?t2)"
      using loop_as_turns [OF start, of conn frames E nd] by (simp del: fold_append) blast
    have t2: "node_turn E nd (Incoming ws) s = ?t2" using a Inr by (simp add: io_simps)
    have pop: "dict_pop k (dict_pop k d) = dict_pop k d" for k and d :: "(string \<times> PeerConnection) list"
      by (simp add: dict_pop_def delete_idem)
    have conns: "dict_pop (pc_peer_node_id conn) (ns_conns (snd (recv_loop E (dispatch E nd) conn frames s'))) =
        ns_conns (snd (recv_loop E (dispatch E nd) conn frames s'))" for s'
      by (simp add: recv_loop_def finallyM_def io_simps pop split: prod.splits sum.splits)
    have run: "snd (handle_incoming E nd (dispatch E nd) ws frames s) = snd (recv_loop E (dispatch E nd) conn frames ?s2)"
      using a Inr conns [of ?s2]
      by (cases "recv_loop E (dispatch E nd) conn frames ?s2")
        (auto simp: handle_incoming_def finallyM_def bindM_apply registry_apply split: sum.splits)
    from u(3) obtain N where N: "ns_loops (snd (handle_incoming E nd (dispatch E nd) ws frames s)) = ns_loops s1 @ N"
      "fold (node_turn E nd) (map (FrameOn conn) used @ tail) ?t2 =
        (snd (handle_incoming E nd (dispatch E nd) ws frames s))\<lparr>ns_loops := remove1 conn ((ns_loops s1 @ [conn]) @ N)\<rparr>"
      by (auto simp: ended_def run)
    let ?h = "snd (handle_incoming E nd (dispatch E nd) ws frames s)"
    let ?l = "remove1 conn ((ns_loops s1 @ [conn]) @ N)"
    have t: "fold (node_turn E nd) (Incoming ws # map (FrameOn conn) used @ tail) s = ?h\<lparr>ns_loops := ?l\<rparr>"
      by (simp only: fold_Cons comp_apply t2 N(2))
    have "?h = (?h\<lparr>ns_loops := ?l\<rparr>)\<lparr>ns_loops := ns_loops ?h\<rparr>" "mset (ns_loops (?h\<lparr>ns_loops := ?l\<rparr>)) = mset (ns_loops ?h)"
      by (simp_all add: N(1))
    with u(1,2) show ?thesis unfolding t [symmetric] by blast
  qed
qed

end
