(* ===== verification/Nevod_Network.thy ===== *)
theory Nevod_Network
  imports Nevod_Client
begin

text \<open>
  Several nodes together: a message between cells at home on two connected nodes, and where a
  message for a cell can go at all.  Each node has its own state; a frame one of them sent is
  given to the receive loop of the other, under the connection that authenticated the sender.
\<close>

section \<open>Forwarding to the next node\<close>

text \<open>Where \<^verbatim>\<open>route\<close> tries to send first.\<close>

definition next_hop :: "PresenceEntry \<Rightarrow> string" where
  "next_hop pr = (case visiting pr of Some v \<Rightarrow> v | None \<Rightarrow> pe_home_node_id pr)"

lemma node_forwards:
  assumes "node_ok E nd" "ns_open s" "CHR ''@'' \<notin> set c"
    "get_presence c (ns_db s) = Some pr" "next_hop pr = w" "w \<noteq> my_id nd"
    "dict_get (ns_conns s) w = Some conn" "\<And>k b. e_send E k (pc_ws conn) b = None"
    and p: "packable (packet_dict (typed_packet i ''msg'' f (c @ CHR ''@'' # n) pl sg ts v))"
  obtains b sg' where
    "route E nd (typed_packet i ''msg'' f (c @ CHR ''@'' # n) pl sg ts v) s =
       (Inr (), s\<lparr>w_tick := Suc (w_tick s), w_sent := w_sent s @ [(pc_ws conn, b)]\<rparr>)"
    "unpack E b = Inr (typed_packet i ''msg'' f (c @ CHR ''@'' # n) pl sg' ts v)"
    "verify_packet E (typed_packet i ''msg'' f (c @ CHR ''@'' # n) pl sg' ts v)
       (sk_public (ni_signing (nd_identity nd))) = Inr True"
    "packable (packet_dict (typed_packet i ''msg'' f (c @ CHR ''@'' # n) pl sg' ts v))"
proof -
  let ?p = "\<lambda>sg. typed_packet i ''msg'' f (c @ CHR ''@'' # n) pl sg ts v"
  obtain sg' b where q: "sign_packet E (?p sg) (ni_signing (nd_identity nd)) = Inr (?p sg')" "pack E (?p sg') = Inr b"
    "unpack E b = Inr (?p sg')" "verify_packet E (?p sg') (sk_public (ni_signing (nd_identity nd))) = Inr True"
    "packable (packet_dict (?p sg'))"
    using assms(1) by (elim signed_frame [rotated 3, OF p]) (auto simp: node_ok_def)
  have to: "p_to (?p sg) = PStr (c @ CHR ''@'' # n)" by (simp add: typed_packet_def)
  have "send_to_node E nd w (?p sg) s = (Inr (True, ?p sg'),
      s\<lparr>w_tick := Suc (w_tick s), w_sent := w_sent s @ [(pc_ws conn, b)]\<rparr>)"
    using assms(6-8) q(1)
    by (simp add: send_to_node_def bindM_apply send_to_cases [OF _ q(2)] transport_sign_def returnM_apply)
  then have "route E nd (?p sg) s = (Inr (), s\<lparr>w_tick := Suc (w_tick s), w_sent := w_sent s @ [(pc_ws conn, b)]\<rparr>)"
    using assms(5)
    unfolding route_present [OF to assms(3,2,4)] next_hop_def
    by (cases "visiting pr") (simp_all only: option.case, simp_all add: bindM_apply returnM_apply)
  with q(3-5) that show thesis by blast
qed

lemma message_dispatched:
  assumes "unpack E b = Inr p" "verify_packet E p (pc_peer_signing_pubkey conn) = Inr True" "p_type p = PStr T_MSG"
    "route E nd p s = (Inr (), t)"
  shows "recv_frame E (dispatch E nd) conn b s = (Inr (), t)"
  using assms by (simp add: frame_accepted [OF assms(1,2)] tryM_apply dispatch_def)

text \<open>
  C3: a message travels over two nodes.  The sender is connected to one node, the recipient is
  at home and connected on another, the first node knows that from its presence table and is
  connected to the second, and the sockets work: then the sender hands one frame to its
  socket, the first node forwards it as one frame to the second, which accepts it from the
  first and sends one frame to the recipient, whose callback receives the sender's address
  and exactly the plaintext.
\<close>
theorem message_over_two_nodes:
  assumes "packages_ok E" and "fits E pt"
    and "signing_valid E (ni_signing (nd_identity ndA))" and "signing_valid E (ni_signing (nd_identity ndB))"
    and "signing_valid E (ci_signing (cc_identity alice))" and "encryption_valid E (ci_encryption (cc_identity bob))"
    and "signing_valid E (ci_signing (cc_identity bob))" and "my_id ndB \<noteq> my_id ndA"
    and "cs_node_id cA = my_id ndA" and "cs_ws cA = Some ws" "\<And>k. e_open E k ws" "\<And>k b. e_send E k ws b = None"
    and "pc_peer_signing_pubkey fromAlice = sk_public (ci_signing (cc_identity alice))"
    and "ns_open sA" and "get_presence (my_cell bob) (ns_db sA) = Some pr" and "next_hop pr = my_id ndB"
    and "dict_get (ns_conns sA) (my_id ndB) = Some toB" "\<And>k b. e_send E k (pc_ws toB) b = None"
    and "pc_peer_signing_pubkey fromA = sk_public (ni_signing (nd_identity ndA))"
    and "home_here ndB (my_cell bob) sB" and "dict_get (ns_conns sB) (my_cell bob) = Some toBob"
    and "\<And>k b. e_send E k (pc_ws toBob) b = None"
    and "cs_node_signing_pubkey cB = sk_public (ni_signing (nd_identity ndB))"
    and "cc_on_message bob = Some cb" "cb (PStr (my_cell alice @ CHR ''@'' # my_id ndA)) pt = None"
  shows "\<exists>b1 b2 b3 cA'.
    client_send E alice (my_cell bob) (my_id ndB) (ek_public (ci_encryption (cc_identity bob))) pt cA = (Inr (), cA') \<and>
    w_sent cA' = w_sent cA @ [(ws, b1)] \<and>
    recv_frame E (dispatch E ndA) fromAlice b1 sA =
      (Inr (), sA\<lparr>w_tick := Suc (w_tick sA), w_sent := w_sent sA @ [(pc_ws toB, b2)]\<rparr>) \<and>
    recv_frame E (dispatch E ndB) fromA b2 sB =
      (Inr (), sB\<lparr>w_tick := Suc (w_tick sB), w_sent := w_sent sB @ [(pc_ws toBob, b3)]\<rparr>) \<and>
    client_frame E bob b3 cB = (Inr (), cB\<lparr>cs_received := cs_received cB @
      [(PStr (my_cell alice @ CHR ''@'' # my_id ndA), pt)]\<rparr>)"
proof -
  let ?p = "\<lambda>i pl sg ts. typed_packet i ''msg'' (my_cell alice @ CHR ''@'' # my_id ndA) (my_cell bob @ CHR ''@'' # my_id ndB) pl sg ts 1"
  have ed: "ed25519_ok E" using assms(1) by (simp add: packages_ok_def)
  have nok: "node_ok E ndA" "node_ok E ndB" using assms(1,3,4) by (simp_all add: node_ok_def packages_ok_def)
  have ids: "length (my_cell bob) = 64" "length (my_id ndA) = 64" "length (my_id ndB) = 64"
    "utf8_ok (my_cell bob)" "utf8_ok (my_id ndA)" "utf8_ok (my_id ndB)" "CHR ''@'' \<notin> set (my_cell bob)"
    using length_public [OF ed] assms(3,4,7) by (simp_all add: cell_id_def node_id_def at_not_in_hex)
  obtain i ts sg pl b1 cA' where a: "client_send E alice (my_cell bob) (my_id ndB) (ek_public (ci_encryption (cc_identity bob))) pt cA = (Inr (), cA')"
    "w_sent cA' = w_sent cA @ [(ws, b1)]" "carries E pl (ci_encryption (cc_identity bob)) pt"
    "unpack E b1 = Inr (?p i pl sg ts)"
    "verify_packet E (?p i pl sg ts) (sk_public (ci_signing (cc_identity alice))) = Inr True"
    "packable (packet_dict (?p i pl sg ts))"
    by (rule client_sends [OF assms(1,5,6,2), where s = cA and c = "my_cell bob" and n = "my_id ndB" and ws = ws])
      (use assms(9-12) ids in auto)
  obtain b2 sg2 where f: "route E ndA (?p i pl sg ts) sA = (Inr (), sA\<lparr>w_tick := Suc (w_tick sA), w_sent := w_sent sA @ [(pc_ws toB, b2)]\<rparr>)"
    "unpack E b2 = Inr (?p i pl sg2 ts)"
    "verify_packet E (?p i pl sg2 ts) (sk_public (ni_signing (nd_identity ndA))) = Inr True"
    "packable (packet_dict (?p i pl sg2 ts))"
    by (rule node_forwards [OF nok(1) assms(14) ids(7) assms(15,16,8,17,18) a(6)])
  obtain b3 sg3 where d: "route E ndB (?p i pl sg2 ts) sB = (Inr (), sB\<lparr>w_tick := Suc (w_tick sB), w_sent := w_sent sB @ [(pc_ws toBob, b3)]\<rparr>)"
    "unpack E b3 = Inr (?p i pl sg3 ts)"
    "verify_packet E (?p i pl sg3 ts) (sk_public (ni_signing (nd_identity ndB))) = Inr True"
    by (rule node_delivers [OF nok(2) assms(20,21,22) f(4)])
  have "client_frame E bob b3 cB = (Inr (), cB\<lparr>cs_received := cs_received cB @
      [(PStr (my_cell alice @ CHR ''@'' # my_id ndA), pt)]\<rparr>)"
    using client_receives [OF d(2) d(3) [folded assms(23)] _ _ a(3) assms(24)] assms(25)
    by (simp add: typed_packet_def)
  moreover have "recv_frame E (dispatch E ndA) fromAlice b1 sA =
      (Inr (), sA\<lparr>w_tick := Suc (w_tick sA), w_sent := w_sent sA @ [(pc_ws toB, b2)]\<rparr>)"
    by (rule message_dispatched [OF a(4) a(5) [folded assms(13)] _ f(1)]) (simp add: typed_packet_def)
  moreover have "recv_frame E (dispatch E ndB) fromA b2 sB =
      (Inr (), sB\<lparr>w_tick := Suc (w_tick sB), w_sent := w_sent sB @ [(pc_ws toBob, b3)]\<rparr>)"
    by (rule message_dispatched [OF f(2) f(3) [folded assms(19)] _ d(1)]) (simp add: typed_packet_def)
  ultimately show ?thesis using a(1,2) by blast
qed

text \<open>Two example nodes: the sender's, which knows from its presence table that the recipient is at
  home on the other.\<close>

definition nd1 :: Node where
  "nd1 = nd0\<lparr>nd_identity := (nd_identity nd0)\<lparr>ni_signing := \<lparr>sk_private = replicate 32 8, sk_public = replicate 32 8\<rparr>\<rparr>\<rparr>"

definition knows_bob :: node_state where
  "knows_bob = state0\<lparr>ns_db := update_presence 1 (my_cell bob0) (my_id nd1) None empty_db,
     ns_conns := [(my_id nd1, peer1)]\<rparr>"

definition has_bob :: node_state where
  "has_bob = state0\<lparr>ns_db := update_presence 1 (my_cell bob0) (my_id nd1) None empty_db,
     ns_conns := [(my_cell bob0, peer1)]\<rparr>"

definition from_nd0 :: PeerConnection where
  "from_nd0 = peer1\<lparr>pc_peer_signing_pubkey := sk_public (ni_signing (nd_identity nd0))\<rparr>"

definition bob_on_nd1 :: client_state where
  "bob_on_nd1 = client0\<lparr>cs_node_signing_pubkey := sk_public (ni_signing (nd_identity nd1))\<rparr>"

lemma two_nodes_facts:
  "signing_valid env0 (ni_signing (nd_identity nd1))" "my_id nd1 \<noteq> my_id nd0"
  "home_here nd1 (my_cell bob0) has_bob" "dict_get (ns_conns has_bob) (my_cell bob0) = Some peer1"
  "ns_open knows_bob" "dict_get (ns_conns knows_bob) (my_id nd1) = Some peer1" "w_sent knows_bob = []"
proof -
  show "signing_valid env0 (ni_signing (nd_identity nd1))" by (simp add: nd1_def signing_valid_def)
  show "my_id nd1 \<noteq> my_id nd0" by (simp add: nd1_def node_id_def nd0_def kp0_def)
  have "length (my_cell bob0) = 64" by (simp add: cell_id_def bob0_def kp2_def)
  then have "my_cell bob0 \<noteq> []" by (metis list.size(3) zero_neq_numeral)
  then show "home_here nd1 (my_cell bob0) has_bob"
    by (simp add: home_here_def has_bob_def state0_def get_presence_update cell_id_def at_not_in_hex)
qed (simp_all add: has_bob_def knows_bob_def state0_def dict_get_def)

theorem message_over_two_nodes_witness:
  "\<exists>b1 b2 b3. w_sent (snd (recv_frame env0 (dispatch env0 nd0) peer1 b1 knows_bob)) = [(9, b2)] \<and>
     recv_frame env0 (dispatch env0 nd1) from_nd0 b2 has_bob =
       (Inr (), has_bob\<lparr>w_tick := Suc (w_tick has_bob), w_sent := w_sent has_bob @ [(9, b3)]\<rparr>) \<and>
     cs_received (snd (client_frame env0 bob0 b3 bob_on_nd1)) = [(PStr (my_cell alice0 @ CHR ''@'' # my_id nd0), [1, 2])]"
proof -
  have st: "cs_node_id client0 = my_id nd0" "cs_ws client0 = Some 3"
    "cs_node_signing_pubkey bob_on_nd1 = sk_public (ni_signing (nd_identity nd1))" "cs_received bob_on_nd1 = []"
    "pc_peer_signing_pubkey peer1 = sk_public (ci_signing (cc_identity alice0))" "pc_ws peer1 = 9"
    "pc_peer_signing_pubkey from_nd0 = sk_public (ni_signing (nd_identity nd0))" "cc_on_message bob0 = Some (\<lambda>f p. None)"
    by (simp_all add: client0_def client_init_def peer1_def alice0_def bob0_def bob_on_nd1_def from_nd0_def)
  obtain pr where pr: "get_presence (my_cell bob0) (ns_db knows_bob) = Some pr" "next_hop pr = my_id nd1"
    by (simp add: knows_bob_def get_presence_update next_hop_def)
  obtain b1 b2 b3 where "recv_frame env0 (dispatch env0 nd0) peer1 b1 knows_bob =
      (Inr (), knows_bob\<lparr>w_tick := Suc (w_tick knows_bob), w_sent := w_sent knows_bob @ [(pc_ws peer1, b2)]\<rparr>)"
    "recv_frame env0 (dispatch env0 nd1) from_nd0 b2 has_bob =
      (Inr (), has_bob\<lparr>w_tick := Suc (w_tick has_bob), w_sent := w_sent has_bob @ [(pc_ws peer1, b3)]\<rparr>)"
    "client_frame env0 bob0 b3 bob_on_nd1 = (Inr (), bob_on_nd1\<lparr>cs_received := cs_received bob_on_nd1 @
      [(PStr (my_cell alice0 @ CHR ''@'' # my_id nd0), [1, 2])]\<rparr>)"
    using message_over_two_nodes [OF example_cells(5) fits_env0 example_cells(4) two_nodes_facts(1) example_cells(1,3,2)
        two_nodes_facts(2) st(1,2) _ _ st(5) two_nodes_facts(5) pr two_nodes_facts(6) _ st(7)
        two_nodes_facts(3,4) _ st(3,8)]
    by auto
  then show ?thesis
    by (intro exI [of _ b1] exI [of _ b2] exI [of _ b3]) (simp add: st(4,6) two_nodes_facts(7))
qed

section \<open>Where a message for a cell can go\<close>

lemma send_to_sent:
  "w_sent (snd (send_to E nd k p s)) = w_sent s \<or>
   (\<exists>conn b. dict_get (ns_conns s) k = Some conn \<and> w_sent (snd (send_to E nd k p s)) = w_sent s @ [(pc_ws conn, b)])"
  by (auto simp: send_to_def send_via_def conn_send_def io_simps split: option.splits sum.splits if_splits)

lemma deliver_local_sent:
  assumes "p_to p = PStr (c @ CHR ''@'' # n)" "CHR ''@'' \<notin> set c"
  shows "w_sent (snd (deliver_local E nd p s)) = w_sent s \<or>
    (\<exists>conn b. dict_get (ns_conns s) c = Some conn \<and> w_sent (snd (deliver_local E nd p s)) = w_sent s @ [(pc_ws conn, b)])"
proof -
  have "w_sent (snd (deliver_local E nd p s)) = w_sent s \<or> w_sent (snd (deliver_local E nd p s)) = w_sent (snd (send_to E nd c p s))"
    by (auto simp: deliver_local_def assms(1) parse_addr_cell [OF assms(2)] call_on_message_def io_simps
        simp del: parse_addr.simps split: option.splits sum.splits prod.splits if_splits)
  with send_to_sent [of E nd c p s] show ?thesis by metis
qed

text \<open>
  C13: a message for a cell never leaves for another node.  In every state a node reaches by its
  own operations, routing a packet addressed to a cell, whatever node the address names, sends
  nothing, or one frame over the connection registered under that cell's id, whose peer
  proved to own the cell's key; the database is not changed.  The node part of an address
  has no effect, connections to other nodes are not used, and nothing is kept for later.
\<close>
theorem cell_message_stays_here:
  assumes "node_reach E nd s" and "p_to p = PStr (c @ CHR ''@'' # n)" and "CHR ''@'' \<notin> set c"
  shows "ns_db (snd (route E nd p s)) = ns_db s \<and>
    (w_sent (snd (route E nd p s)) = w_sent s \<or>
     (\<exists>conn b. dict_get (ns_conns s) c = Some conn \<and> c = hex (pc_peer_signing_pubkey conn) \<and>
        w_sent (snd (route E nd p s)) = w_sent s @ [(pc_ws conn, b)]))"
proof -
  from reach_inv [OF assms(1)] have d: "db_inv nd (ns_db s)" and k: "conns_ok (ns_conns s)"
    by (auto simp: on_db_def on_conns_def net_ok_def)
  have peer: "c = hex (pc_peer_signing_pubkey conn)" if "dict_get (ns_conns s) c = Some conn" for conn
    using that k by (auto simp: conns_ok_def conn_ok_def dict_get_def dest!: map_of_SomeD)
  have "keeps (on_db (\<lambda>d. d = ns_db s)) (route E nd p)"
    by (rule keeps_db_route_local) (use d in \<open>simp add: db_inv_home\<close>)
  from keepsD [OF this, of s] have db: "ns_db (snd (route E nd p s)) = ns_db s" by (simp add: on_db_def)
  have "w_sent (snd (route E nd p s)) = w_sent s \<or> w_sent (snd (route E nd p s)) = w_sent (snd (deliver_local E nd p s))"
  proof (cases "get_presence c (ns_db s)")
    case None
    then show ?thesis
      by (auto simp: route_def assms(2) parse_addr_cell [OF assms(3)] io_simps simp del: parse_addr.simps
          split: option.splits sum.splits prod.splits)
  next
    case (Some pr)
    have "pe_home_node_id pr = my_id nd" "visiting pr = None"
      using Some d by (auto simp: get_presence_def db_inv_def at_home_only_def dest!: tbl_get_SomeD)
    then have "w_sent (snd (route E nd p s)) = w_sent s" if "\<not> ns_open s"
      using that by (simp add: route_def assms(2) parse_addr_cell [OF assms(3)] io_simps del: parse_addr.simps)
    moreover have "w_sent (snd (route E nd p s)) = w_sent (snd (deliver_local E nd p s))" if "ns_open s"
      using route_home [OF assms(2,3) that Some \<open>visiting pr = None\<close> \<open>pe_home_node_id pr = my_id nd\<close>]
      by (simp add: io_simps split: prod.splits sum.splits)
    ultimately show ?thesis by blast
  qed
  with deliver_local_sent [OF assms(2,3), of E nd s] db peer show ?thesis by metis
qed

theorem cell_message_stays_here_witness:
  "node_reach env0 nd0 (state0\<lparr>ns_db := upsert_node 0 (discovered 1 1 ''nn'' ''h:2'' ''permanent'' ''open'') empty_db\<rparr>) \<and>
   w_sent (snd (route env0 nd0 msg0 (state0\<lparr>ns_db := upsert_node 0 (discovered 1 1 ''nn'' ''h:2'' ''permanent'' ''open'') empty_db\<rparr>))) = []"
proof -
  let ?s = "state0\<lparr>ns_db := upsert_node 0 (discovered 1 1 ''nn'' ''h:2'' ''permanent'' ''open'') empty_db\<rparr>"
  have r: "node_reach env0 nd0 ?s"
    by (rule reach_init) (simp_all add: state0_def db_inv_nodes db_inv_empty)
  have st: "ns_conns ?s = []" "w_sent ?s = []" by (simp_all add: state0_def)
  from cell_message_stays_here [OF r msg0_to] st have "w_sent (snd (route env0 nd0 msg0 ?s)) = []"
    by (simp add: dict_get_def)
  with r show ?thesis by blast
qed

end
