(* ===== verification/Nevod_Async.thy ===== *)
theory Nevod_Async
  imports Nevod_Prelude
begin

text \<open>
  Coroutines and their interleaving.  The event loop of asyncio runs one coroutine at a time
  and may switch to another one only where the running coroutine awaits.  A coroutine is a
  tree of its awaits (\<open>co\<close>): it has finished, or it awaits an operation that acts on the
  shared state and decides, from the state it finds when it is resumed, how to go on.

  \<^item> \<open>atom\<close> makes one await of a computation of the monad \<open>io\<close>, the awaited operation; \<open>syncC\<close> puts
    synchronous code in front of the next await, from which nothing separates it; \<open>pause\<close> is
    an await that leaves the state alone (the next frame of a socket, a sleep).  \<open>bindC\<close>,
    \<open>tryC\<close>, \<open>finallyC\<close> and \<open>forC\<close> follow the combinators of \<open>io\<close>.
  \<^item> \<open>alone\<close> runs a coroutine with nothing in between, which gives back a computation in \<open>io\<close>;
    the equations are collected in \<open>alone_simps\<close>.
  \<^item> \<open>guar I G Q\<close>: each await is a step in \<open>G\<close> and the result satisfies \<open>Q\<close>, when the other
    coroutines keep \<open>I\<close>; \<open>steady I\<close> when each await keeps \<open>I\<close> itself.  The rules are
    collected in \<open>safe_intros\<close>.
  \<^item> A pool is a shared state and the coroutines that run on it; \<open>resume\<close> resumes one of them,
    a schedule is a list of positions.  The locale \<open>pool_of\<close> has the pools whose coroutines
    are all safe.
  \<^item> \<open>within\<close> bounds the awaits of a coroutine whatever happens between them, and \<open>later\<close> is the
    well-founded order behind the termination of schedules.
  \<^item> \<open>steps\<close> is the history of one coroutine in a schedule, and \<open>traced\<close> is \<open>guar\<close> with guarantees and
    results that speak of that history.
\<close>

named_theorems alone_simps "running a coroutine without interference"
named_theorems safe_intros "introduction rules for coroutines that keep a predicate at each await"
named_theorems within_intros "introduction rules for bounds on the number of awaits"

datatype ('s, 'a) co =
    Done "exn + 'a"
  | Await "'s \<Rightarrow> 's" "'s \<Rightarrow> ('s, 'a) co"

section \<open>Building coroutines\<close>

definition atom :: "('s, 'a) io \<Rightarrow> ('s, 'a) co" where
  "atom m = Await (\<lambda>s. snd (m s)) (\<lambda>s. Done (fst (m s)))"

abbreviation returnC :: "'a \<Rightarrow> ('s, 'a) co" where
  "returnC x \<equiv> Done (Inr x)"

abbreviation raiseC :: "exn \<Rightarrow> ('s, 'a) co" where
  "raiseC e \<equiv> Done (Inl e)"

primrec thenC :: "('s, 'a) co \<Rightarrow> (exn + 'a \<Rightarrow> ('s, 'b) co) \<Rightarrow> ('s, 'b) co" where
  "thenC (Done r) g = g r"
| "thenC (Await f k) g = Await f (\<lambda>s. thenC (k s) g)"

definition bindC :: "('s, 'a) co \<Rightarrow> ('a \<Rightarrow> ('s, 'b) co) \<Rightarrow> ('s, 'b) co" where
  "bindC c f = thenC c (\<lambda>r. case r of Inl e \<Rightarrow> raiseC e | Inr x \<Rightarrow> f x)"

definition tryC :: "('s, 'a) co \<Rightarrow> (exn \<Rightarrow> ('s, 'a) co) \<Rightarrow> ('s, 'a) co" where
  "tryC c h = thenC c (\<lambda>r. case r of Inl e \<Rightarrow> h e | Inr x \<Rightarrow> returnC x)"

definition finallyC :: "('s, 'a) co \<Rightarrow> ('s, unit) co \<Rightarrow> ('s, 'a) co" where
  "finallyC c f = thenC c (\<lambda>r. thenC f (\<lambda>q. case q of Inl e \<Rightarrow> raiseC e | Inr _ \<Rightarrow> Done r))"

definition syncC :: "('s, 'a) io \<Rightarrow> ('a \<Rightarrow> ('s, 'b) co) \<Rightarrow> ('s, 'b) co" where
  "syncC m g = Await
     (\<lambda>s. case m s of
        (Inl e, s') \<Rightarrow> s'
      | (Inr x, s') \<Rightarrow> (case g x of Done r \<Rightarrow> s' | Await f k \<Rightarrow> f s'))
     (\<lambda>s. case m s of
        (Inl e, s') \<Rightarrow> raiseC e
      | (Inr x, s') \<Rightarrow> (case g x of Done r \<Rightarrow> Done r | Await f k \<Rightarrow> k s'))"

definition pause :: "('s, unit) co" where
  "pause = atom (returnM ())"

primrec forC :: "'a list \<Rightarrow> ('a \<Rightarrow> ('s, unit) co) \<Rightarrow> ('s, unit) co" where
  "forC [] f = returnC ()"
| "forC (x # xs) f = bindC (f x) (\<lambda>_. forC xs f)"

lemma bindC_return [simp]: "bindC (returnC x) f = f x" "bindC (raiseC e) f = raiseC e"
  by (simp_all add: bindC_def)

section \<open>Running a coroutine alone\<close>

primrec alone :: "('s, 'a) co \<Rightarrow> ('s, 'a) io" where
  "alone (Done r) = (\<lambda>s. (r, s))"
| "alone (Await f k) = (\<lambda>s. alone (k s) (f s))"

lemma alone_then: "alone (thenC c g) s = (case alone c s of (r, s') \<Rightarrow> alone (g r) s')"
  by (induction c arbitrary: s) auto

lemma alone_lift [alone_simps]:
  "alone (Done r) = liftM r" "liftM (Inr x) = returnM x" "liftM (Inl e) = raiseM e"
  by (simp_all add: fun_eq_iff io_simps)

lemma alone_atom [alone_simps]: "alone (atom m) = m"
  by (simp add: atom_def)

lemma alone_bind [alone_simps]: "alone (bindC c f) = bindM (alone c) (\<lambda>x. alone (f x))"
  by (auto simp: fun_eq_iff bindC_def alone_then io_simps split: prod.splits sum.splits)

lemma alone_try [alone_simps]: "alone (tryC c h) = tryM (alone c) (\<lambda>e. alone (h e))"
  by (auto simp: fun_eq_iff tryC_def alone_then io_simps split: prod.splits sum.splits)

lemma alone_finally [alone_simps]: "alone (finallyC c f) = finallyM (alone c) (alone f)"
  by (auto simp: fun_eq_iff finallyC_def alone_then finallyM_def split: prod.splits sum.splits)

lemma alone_sync [alone_simps]: "alone (syncC m g) = bindM m (\<lambda>x. alone (g x))"
  by (auto simp: fun_eq_iff syncC_def io_simps split: prod.splits sum.splits co.splits)

lemma alone_pause [alone_simps]: "alone pause = returnM ()"
  by (simp add: pause_def alone_atom)

lemma alone_for [alone_simps]: "alone (forC xs f) = forM xs (\<lambda>x. alone (f x))"
  by (induction xs) (simp_all add: alone_simps del: alone.simps)

lemma alone_if [alone_simps]: "alone (if b then c else d) = (if b then alone c else alone d)"
  by simp

lemma alone_option [alone_simps]:
  "alone (case x of None \<Rightarrow> c | Some y \<Rightarrow> f y) = (case x of None \<Rightarrow> alone c | Some y \<Rightarrow> alone (f y))"
  by (cases x) auto

lemma alone_sum [alone_simps]:
  "alone (case x of Inl e \<Rightarrow> f e | Inr y \<Rightarrow> g y) = (case x of Inl e \<Rightarrow> alone (f e) | Inr y \<Rightarrow> alone (g y))"
  by (cases x) auto

lemma alone_prod [alone_simps]: "alone (case x of (a, b) \<Rightarrow> f a b) = (case x of (a, b) \<Rightarrow> alone (f a b))"
  by (cases x) auto

section \<open>Coroutines that keep a predicate while others run\<close>

text \<open>\<open>guar I G Q c\<close>: when the other coroutines keep \<open>I\<close> between the awaits of \<open>c\<close>, each await of \<open>c\<close> is
  a step in \<open>G\<close> and the result satisfies \<open>Q\<close>.\<close>

primrec guar :: "('s \<Rightarrow> bool) \<Rightarrow> ('s \<Rightarrow> 's \<Rightarrow> bool) \<Rightarrow> (exn + 'a \<Rightarrow> bool) \<Rightarrow> ('s, 'a) co \<Rightarrow> bool" where
  "guar I G Q (Done r) = Q r"
| "guar I G Q (Await f k) = (\<forall>s. I s \<longrightarrow> G s (f s) \<and> guar I G Q (k s))"

abbreviation acts :: "('s \<Rightarrow> bool) \<Rightarrow> ('s \<Rightarrow> 's \<Rightarrow> bool) \<Rightarrow> ('s, 'a) co \<Rightarrow> bool" where
  "acts I G c \<equiv> guar I G (\<lambda>_. True) c"

abbreviation safe :: "('s \<Rightarrow> bool) \<Rightarrow> (exn + 'a \<Rightarrow> bool) \<Rightarrow> ('s, 'a) co \<Rightarrow> bool" where
  "safe I Q c \<equiv> guar I (\<lambda>_. I) Q c"

abbreviation steady :: "('s \<Rightarrow> bool) \<Rightarrow> ('s, 'a) co \<Rightarrow> bool" where
  "steady I c \<equiv> safe I (\<lambda>_. True) c"

text \<open>\<open>on_value P\<close>: the coroutine raises, or it returns a value that satisfies \<open>P\<close>.\<close>

definition on_value :: "('a \<Rightarrow> bool) \<Rightarrow> exn + 'a \<Rightarrow> bool" where
  "on_value P r \<longleftrightarrow> (case r of Inl e \<Rightarrow> True | Inr x \<Rightarrow> P x)"

lemma on_value_simps [simp]: "on_value P (Inl e)" "on_value P (Inr x) = P x"
  by (simp_all add: on_value_def)

lemma on_value_True [simp]: "on_value (\<lambda>_. True) = (\<lambda>_. True)"
  by (auto simp: on_value_def fun_eq_iff split: sum.splits)

lemma guar_then: "guar I G (\<lambda>r. guar I G Q (g r)) c \<Longrightarrow> guar I G Q (thenC c g)"
  by (induction c) auto

lemma guar_mono: "guar I G Q c \<Longrightarrow> (\<And>r. Q r \<Longrightarrow> R r) \<Longrightarrow> guar I G R c"
  by (induction c) auto

lemma guar_done [safe_intros]: "Q r \<Longrightarrow> guar I G Q (Done r)"
  by simp

lemma acts_atom: "(\<And>s. I s \<Longrightarrow> G s (snd (m s))) \<Longrightarrow> acts I G (atom m)"
  by (simp add: atom_def)

lemma steady_atom [safe_intros]: "keeps I m \<Longrightarrow> steady I (atom m)"
  by (simp add: acts_atom keeps_def)

lemma guar_atom_value:
  assumes "\<And>s. I s \<Longrightarrow> G s (snd (m s))" "\<And>s x s'. I s \<Longrightarrow> m s = (Inr x, s') \<Longrightarrow> P x"
  shows "guar I G (on_value P) (atom m)"
proof -
  have "on_value P (fst (m s))" if "I s" for s
    using that assms(2) by (cases "fst (m s)") (auto simp: prod_eq_iff)
  then show ?thesis using assms(1) by (simp add: atom_def)
qed

lemma safe_atom_value:
  "keeps I m \<Longrightarrow> (\<And>s x s'. I s \<Longrightarrow> m s = (Inr x, s') \<Longrightarrow> P x) \<Longrightarrow> safe I (on_value P) (atom m)"
  by (rule guar_atom_value) (auto simp: keeps_def)

lemma guar_bind_value:
  assumes "guar I G (on_value P) c" "\<And>x. P x \<Longrightarrow> guar I G (on_value Q) (f x)"
  shows "guar I G (on_value Q) (bindC c f)"
  unfolding bindC_def
  by (rule guar_then, rule guar_mono [OF assms(1)]) (use assms(2) in \<open>auto simp: on_value_def split: sum.splits\<close>)

lemma guar_bind_on:
  "acts I G c \<Longrightarrow> (\<And>x. guar I G (on_value Q) (f x)) \<Longrightarrow> guar I G (on_value Q) (bindC c f)"
  using guar_bind_value [of I G "\<lambda>_. True" c Q f] by simp

lemma guar_bind_done:
  "(\<And>x. r = Inr x \<Longrightarrow> guar I G (on_value Q) (f x)) \<Longrightarrow> guar I G (on_value Q) (bindC (Done r) f)"
  by (cases r) (simp_all add: bindC_def)

lemma acts_bind_done:
  "(\<And>x. r = Inr x \<Longrightarrow> acts I G (f x)) \<Longrightarrow> acts I G (bindC (Done r) f)"
  by (cases r) (simp_all add: bindC_def)

lemma acts_bind_value:
  "guar I G (on_value P) c \<Longrightarrow> (\<And>x. P x \<Longrightarrow> acts I G (f x)) \<Longrightarrow> acts I G (bindC c f)"
  using guar_bind_value [of I G P c "\<lambda>_. True" f] by simp

lemma acts_bind [safe_intros]:
  "acts I G c \<Longrightarrow> (\<And>x. acts I G (f x)) \<Longrightarrow> acts I G (bindC c f)"
  using acts_bind_value [of I G "\<lambda>_. True" c f] by simp

lemma safe_sync:
  assumes "keeps I m" "\<And>x. safe I Q (g x)" "\<And>e. Q (Inl e)"
  shows "safe I Q (syncC m g)"
proof -
  have "I (case m s of (Inl e, s') \<Rightarrow> s' | (Inr x, s') \<Rightarrow> (case g x of Done r \<Rightarrow> s' | Await f k \<Rightarrow> f s')) \<and>
      safe I Q (case m s of (Inl e, s') \<Rightarrow> raiseC e
        | (Inr x, s') \<Rightarrow> (case g x of Done r \<Rightarrow> Done r | Await f k \<Rightarrow> k s'))" if "I s" for s
  proof (cases "m s")
    case (Pair r s')
    then have s': "I s'" using keepsD [OF assms(1) that] by simp
    show ?thesis
    proof (cases r)
      case (Inl e)
      then show ?thesis using Pair s' assms(3) by simp
    next
      case (Inr x)
      then show ?thesis using Pair s' assms(2) [of x] by (cases "g x") auto
    qed
  qed
  then show ?thesis by (simp add: syncC_def)
qed

lemma steady_sync [safe_intros]: "keeps I m \<Longrightarrow> (\<And>x. steady I (g x)) \<Longrightarrow> steady I (syncC m g)"
  by (rule safe_sync) auto

lemma steady_pause [safe_intros]: "steady I pause"
  unfolding pause_def by (intro safe_intros keeps_intros)

lemma acts_try [safe_intros]:
  "acts I G c \<Longrightarrow> (\<And>e. acts I G (h e)) \<Longrightarrow> acts I G (tryC c h)"
  unfolding tryC_def by (rule guar_then, erule guar_mono) (auto split: sum.splits)

lemma acts_finally [safe_intros]:
  assumes "acts I G c" "acts I G f"
  shows "acts I G (finallyC c f)"
proof -
  have "acts I G (thenC f (\<lambda>q. case q of Inl e \<Rightarrow> raiseC e | Inr _ \<Rightarrow> Done r))" for r
    by (rule guar_then, rule guar_mono [OF assms(2)]) (auto split: sum.splits)
  then show ?thesis
    unfolding finallyC_def by (rule guar_then [OF guar_mono [OF assms(1)]])
qed

lemma acts_for [safe_intros]: "(\<And>x. acts I G (f x)) \<Longrightarrow> acts I G (forC xs f)"
  by (induction xs) (auto intro!: safe_intros)

lemma guar_if [safe_intros]:
  "(b \<Longrightarrow> guar I G Q c) \<Longrightarrow> (\<not> b \<Longrightarrow> guar I G Q d) \<Longrightarrow> guar I G Q (if b then c else d)"
  by simp

lemma guar_option [safe_intros]:
  "(x = None \<Longrightarrow> guar I G Q c) \<Longrightarrow> (\<And>y. x = Some y \<Longrightarrow> guar I G Q (f y)) \<Longrightarrow>
   guar I G Q (case x of None \<Rightarrow> c | Some y \<Rightarrow> f y)"
  by (cases x) auto

lemma guar_sum [safe_intros]:
  "(\<And>e. x = Inl e \<Longrightarrow> guar I G Q (f e)) \<Longrightarrow> (\<And>y. x = Inr y \<Longrightarrow> guar I G Q (g y)) \<Longrightarrow>
   guar I G Q (case x of Inl e \<Rightarrow> f e | Inr y \<Rightarrow> g y)"
  by (cases x) auto

lemma guar_prod [safe_intros]:
  "(\<And>a b. x = (a, b) \<Longrightarrow> guar I G Q (f a b)) \<Longrightarrow> guar I G Q (case x of (a, b) \<Rightarrow> f a b)"
  by (cases x) auto

lemma steady_alone: "steady I c \<Longrightarrow> keeps I (alone c)"
proof (rule keepsI)
  fix s assume "steady I c" "I s"
  then show "I (snd (alone c s))" by (induction c arbitrary: s) auto
qed

section \<open>Pools and schedules\<close>

type_synonym 's pool = "'s \<times> ('s, unit) co list"

fun resume :: "nat \<Rightarrow> 's pool \<Rightarrow> 's pool" where
  "resume i (s, cs) =
     (if i < length cs then
        (case cs ! i of Done r \<Rightarrow> (s, cs) | Await f k \<Rightarrow> (f s, cs[i := k s]))
      else (s, cs))"

definition schedule :: "nat list \<Rightarrow> 's pool \<Rightarrow> 's pool" where
  "schedule is p = fold resume is p"

fun finished :: "('s, 'a) co \<Rightarrow> bool" where
  "finished (Done r) = True"
| "finished (Await f k) = False"

fun pool_inv :: "('s \<Rightarrow> bool) \<Rightarrow> 's pool \<Rightarrow> bool" where
  "pool_inv I (s, cs) \<longleftrightarrow> I s \<and> (\<forall>c \<in> set cs. steady I c)"

lemma resume_inv:
  assumes "pool_inv I p"
  shows "pool_inv I (resume i p)"
proof -
  obtain s cs where p: "p = (s, cs)" by (cases p)
  show ?thesis
  proof (cases "i < length cs")
    case True
    then have c: "steady I (cs ! i)" and s: "I s" using assms by (auto simp: p)
    with True assms show ?thesis
      using set_update_subset_insert [of cs i] by (cases "cs ! i") (auto simp: p)
  qed (use assms p in auto)
qed

lemma schedule_append: "schedule (is @ js) p = schedule js (schedule is p)"
  by (simp add: schedule_def)

lemma schedule_simps [simp]:
  "schedule [] p = p" "schedule (i # is) p = schedule is (resume i p)"
  by (simp_all add: schedule_def)

lemma length_resume [simp]: "length (snd (resume i p)) = length (snd p)"
  by (cases p) (auto split: co.splits)

lemma length_schedule [simp]: "length (snd (schedule is p)) = length (snd p)"
  by (induction "is" arbitrary: p) auto

locale pool_of =
  fixes I :: "'s \<Rightarrow> bool" and ok :: "'t \<Rightarrow> bool" and prog :: "'t \<Rightarrow> ('s, unit) co"
  assumes prog_steady: "ok t \<Longrightarrow> steady I (prog t)"
begin

lemma pool_keeps: "I s \<Longrightarrow> \<forall>t \<in> set ts. ok t \<Longrightarrow> I (fst (schedule is (s, map prog ts)))"
proof -
  assume "I s" "\<forall>t \<in> set ts. ok t"
  then have p: "pool_inv I (s, map prog ts)" by (auto intro: prog_steady)
  have "pool_inv I p \<Longrightarrow> pool_inv I (schedule is p)" for p
    by (induction "is" arbitrary: p) (simp_all add: resume_inv del: pool_inv.simps resume.simps)
  from this [OF p] show ?thesis by (cases "schedule is (s, map prog ts)") auto
qed

lemma alone_keeps: "ok t \<Longrightarrow> I s \<Longrightarrow> I (snd (alone (prog t) s))"
  by (rule keepsD [OF steady_alone [OF prog_steady]])

end

section \<open>Termination and bounds\<close>

definition later :: "(('s, 'a) co \<times> ('s, 'a) co) set" where
  "later = {(c, d). \<exists>f k s. d = Await f k \<and> c = k s}"

lemma wf_later: "wf (later :: (('s, 'a) co \<times> ('s, 'a) co) set)"
proof (rule wfUNIVI)
  fix P :: "('s, 'a) co \<Rightarrow> bool" and c :: "('s, 'a) co"
  assume step: "\<forall>d. (\<forall>c. (c, d) \<in> later \<longrightarrow> P c) \<longrightarrow> P d"
  show "P c"
  proof (induction c)
    case (Done r)
    show ?case using step by (auto simp: later_def)
  next
    case (Await f k)
    then have "P c" if "(c, Await f k) \<in> later" for c using that by (auto simp: later_def)
    with step show ?case by blast
  qed
qed

lemma resume_later:
  assumes "resume i (s, cs) = (s', cs')" "i < length cs" "\<not> finished (cs ! i)"
  shows "(cs', cs) \<in> listrel1 later"
proof -
  from assms(3) obtain f k where c: "cs ! i = Await f k" by (cases "cs ! i") auto
  then have "cs' = cs[i := k s]" using assms(1,2) by simp
  moreover have "(k s, cs ! i) \<in> later" using c by (auto simp: later_def)
  ultimately show ?thesis
    using id_take_nth_drop [OF assms(2)] upd_conv_take_nth_drop [OF assms(2)] by (metis listrel1I)
qed

text \<open>An endless schedule that resumes an unfinished coroutine each time does not exist.\<close>

lemma no_endless_schedule:
  fixes p :: "nat \<Rightarrow> 's pool"
  assumes "\<And>n. i n < length (snd (p n)) \<and> \<not> finished (snd (p n) ! i n) \<and> p (Suc n) = resume (i n) (p n)"
  shows False
proof -
  have down: "(snd (p (Suc n)), snd (p n)) \<in> listrel1 later" for n
    using assms [of n] by (intro resume_later [of "i n" "fst (p n)" "snd (p n)" "fst (p (Suc n))"]) simp_all
  have "wf (listrel1 (later :: (('s, unit) co \<times> ('s, unit) co) set))"
    using wf_later by (simp add: wf_listrel1_iff)
  then have "\<not> (\<exists>f. \<forall>n. (f (Suc n), f n) \<in> listrel1 (later :: (('s, unit) co \<times> ('s, unit) co) set))"
    unfolding wf_iff_no_infinite_down_chain .
  then show False using down by (elim notE) (intro exI [of _ "\<lambda>n. snd (p n)"] allI)
qed

text \<open>\<open>cost I G Q c n\<close>: when the other coroutines keep \<open>I\<close>, at most \<open>n\<close> awaits of \<open>c\<close> are steps in \<open>G\<close>, and
  the result satisfies \<open>Q\<close>; \<open>within c n\<close> counts all awaits, whatever happens between them.\<close>

primrec cost :: "('s \<Rightarrow> bool) \<Rightarrow> ('s \<Rightarrow> 's \<Rightarrow> bool) \<Rightarrow> (exn + 'a \<Rightarrow> bool) \<Rightarrow> ('s, 'a) co \<Rightarrow> nat \<Rightarrow> bool" where
  "cost I G Q (Done r) = (\<lambda>n. Q r)"
| "cost I G Q (Await f k) = (\<lambda>n. \<forall>s. I s \<longrightarrow>
     (if G s (f s) then 0 < n \<and> cost I G Q (k s) (n - Suc 0) else cost I G Q (k s) n))"

abbreviation within :: "('s, 'a) co \<Rightarrow> nat \<Rightarrow> bool" where
  "within c n \<equiv> cost (\<lambda>_. True) (\<lambda>_ _. True) (\<lambda>_. True) c n"

lemma cost_mono: "cost I G Q c m \<Longrightarrow> m \<le> n \<Longrightarrow> cost I G Q c n"
proof (induction c arbitrary: m n)
  case (Await f k)
  have "cost I G Q (k s) n'" if "cost I G Q (k s) m'" "m' \<le> n'" for s m' n'
    using Await.IH [of "k s"] that by auto
  then show ?case using Await.prems by (fastforce simp: diff_le_mono split: if_splits)
qed simp

lemma cost_post: "cost I G Q c n \<Longrightarrow> (\<And>r. Q r \<Longrightarrow> R r) \<Longrightarrow> cost I G R c n"
  by (induction c arbitrary: n) auto

lemma cost_then: "cost I G (\<lambda>r. cost I G Q (g r) n) c m \<Longrightarrow> cost I G Q (thenC c g) (m + n)"
proof (induction c arbitrary: m)
  case (Done r)
  then show ?case using cost_mono [of I G Q "g r" n "m + n"] by simp
next
  case (Await f k)
  have "cost I G Q (thenC (k s) g) (m' + n)" if "cost I G (\<lambda>r. cost I G Q (g r) n) (k s) m'" for s m'
    using Await.IH [of "k s"] that by auto
  moreover have "m - Suc 0 + n = m + n - Suc 0" if "0 < m" using that by simp
  ultimately show ?case using Await.prems by (fastforce split: if_splits)
qed

lemma cost_done [within_intros]: "Q r \<Longrightarrow> cost I G Q (Done r) 0"
  by simp

lemma cost_atom [within_intros]: "cost I G (\<lambda>_. True) (atom m) (Suc 0)"
  by (simp add: atom_def)

lemma cost_atom_free:
  "(\<And>s. I s \<Longrightarrow> \<not> G s (snd (m s))) \<Longrightarrow> (\<And>s. I s \<Longrightarrow> Q (fst (m s))) \<Longrightarrow> cost I G Q (atom m) 0"
  by (simp add: atom_def)

lemma cost_bind_value:
  assumes "cost I G (on_value P) c m" "\<And>x. P x \<Longrightarrow> cost I G (\<lambda>_. True) (f x) n"
  shows "cost I G (\<lambda>_. True) (bindC c f) (m + n)"
  unfolding bindC_def
  by (rule cost_then, rule cost_post [OF assms(1)]) (use assms(2) in \<open>auto simp: on_value_def split: sum.splits\<close>)

lemma cost_bind [within_intros]:
  "cost I G (\<lambda>_. True) c m \<Longrightarrow> (\<And>x. cost I G (\<lambda>_. True) (f x) n) \<Longrightarrow> cost I G (\<lambda>_. True) (bindC c f) (m + n)"
  using cost_bind_value [of I G "\<lambda>_. True" c m f n] by simp

lemma cost_try [within_intros]:
  "cost I G (\<lambda>_. True) c m \<Longrightarrow> (\<And>e. cost I G (\<lambda>_. True) (h e) n) \<Longrightarrow> cost I G (\<lambda>_. True) (tryC c h) (m + n)"
  unfolding tryC_def by (rule cost_then, erule cost_post) (auto split: sum.splits)

lemma within_sync [within_intros]:
  assumes "\<And>x. within (g x) n"
  shows "within (syncC m g) (max (Suc 0) n)"
proof -
  have "within (case m s of (Inl e, s') \<Rightarrow> raiseC e
        | (Inr x, s') \<Rightarrow> (case g x of Done r \<Rightarrow> Done r | Await f k \<Rightarrow> k s')) (n - 1)" for s
  proof (cases "m s")
    case (Pair r s')
    show ?thesis
    proof (cases r)
      case (Inr x)
      then show ?thesis using Pair assms [of x] by (cases "g x") auto
    qed (simp add: Pair)
  qed
  moreover have "max (Suc 0) n - 1 = n - 1" by simp
  ultimately show ?thesis by (simp add: syncC_def)
qed

lemma cost_for:
  "(\<And>x. cost I G (\<lambda>_. True) (f x) n) \<Longrightarrow> cost I G (\<lambda>_. True) (forC xs f) (length xs * n)"
proof (induction xs)
  case (Cons x xs)
  then show ?case using cost_bind [of I G "f x" n "\<lambda>_. forC xs f" "length xs * n"] by simp
qed simp

lemma cost_if [within_intros]:
  "cost I G Q c m \<Longrightarrow> cost I G Q d n \<Longrightarrow> cost I G Q (if b then c else d) (max m n)"
  using cost_mono [of I G Q c m "max m n"] cost_mono [of I G Q d n "max m n"] by simp

lemma cost_option [within_intros]:
  "cost I G Q c m \<Longrightarrow> (\<And>y. cost I G Q (f y) n) \<Longrightarrow>
   cost I G Q (case x of None \<Rightarrow> c | Some y \<Rightarrow> f y) (max m n)"
  using cost_mono [of I G Q c m "max m n"] cost_mono [of I G Q _ n "max m n"] by (cases x) auto

lemma cost_prod [within_intros]:
  "(\<And>a b. cost I G Q (f a b) n) \<Longrightarrow> cost I G Q (case x of (a, b) \<Rightarrow> f a b) n"
  by (cases x) auto

text \<open>How often a schedule lets the coroutine at position \<open>j\<close> take a step in \<open>G\<close>.\<close>

fun events :: "('s \<Rightarrow> 's \<Rightarrow> bool) \<Rightarrow> nat \<Rightarrow> nat list \<Rightarrow> 's pool \<Rightarrow> nat" where
  "events G j [] p = 0"
| "events G j (i # is) p =
     (if i = j \<and> G (fst p) (fst (resume i p)) then 1 else 0) + events G j is (resume i p)"

text \<open>A coroutine with at most \<open>n\<close> awaits has finished once it was resumed \<open>n\<close> times, whatever else
  the schedule resumes in between.\<close>

lemma resume_nth:
  "i < length cs \<Longrightarrow> cs ! i = Await f k \<Longrightarrow> resume i (s, cs) = (f s, cs[i := k s])"
  by simp

lemma resume_other: "i \<noteq> j \<Longrightarrow> snd (resume i p) ! j = snd p ! j"
  by (cases p) (auto split: co.splits)

lemma resume_finished: "finished (snd p ! i) \<Longrightarrow> resume i p = p"
  by (cases p; cases "snd p ! i") (auto split: co.splits)

lemma finished_stays: "finished (snd p ! j) \<Longrightarrow> finished (snd (schedule is p) ! j)"
proof (induction "is" arbitrary: p)
  case (Cons i "is")
  then have "finished (snd (resume i p) ! j)"
    by (cases "i = j") (simp_all add: resume_finished resume_other)
  then show ?case using Cons.IH by simp
qed simp

lemma resumed_enough:
  assumes "j < length (snd p)" "within (snd p ! j) n" "n \<le> count_list is j"
  shows "finished (snd (schedule is p) ! j)"
  using assms
proof (induction "is" arbitrary: p n)
  case Nil
  then show ?case by (cases "snd p ! j") auto
next
  case (Cons i "is")
  show ?case
  proof (cases "i = j \<and> \<not> finished (snd p ! j)")
    case True
    then obtain f k where c: "snd p ! j = Await f k" by (cases "snd p ! j") auto
    have "snd (resume i p) ! j = k (fst p)"
      using True c Cons.prems(1) resume_nth [of j "snd p" f k "fst p"] by simp
    moreover have "within (k (fst p)) (n - 1)" using Cons.prems(2) c by simp
    ultimately show ?thesis
      using Cons.IH [of "resume i p" "n - 1"] Cons.prems(1,3) True by simp
  next
    case False
    then consider "finished (snd p ! j)" | "i \<noteq> j" by blast
    then show ?thesis
    proof cases
      case 1
      then show ?thesis by (rule finished_stays)
    next
      case 2
      then show ?thesis
        using Cons.IH [of "resume i p" n] Cons.prems by (simp add: resume_other)
    qed
  qed
qed

lemma cost_events:
  assumes "pool_inv I p" "j < length (snd p)" "cost I G (\<lambda>_. True) (snd p ! j) n" "\<And>s. \<not> G s s"
  shows "events G j is p \<le> n"
  using assms(1-3)
proof (induction "is" arbitrary: p n)
  case (Cons i "is")
  have inv: "pool_inv I (resume i p)" "j < length (snd (resume i p))"
    using Cons.prems(1,2) by (simp_all add: resume_inv del: pool_inv.simps resume.simps)
  have s: "I (fst p)" using Cons.prems(1) by (cases p) simp
  show ?case
  proof (cases "i = j")
    case True
    show ?thesis
    proof (cases "snd p ! j")
      case (Done r)
      then have "resume i p = p" using True by (intro resume_finished) simp
      with Cons.IH [OF Cons.prems] assms(4) show ?thesis by simp
    next
      case (Await f k)
      then have r: "resume i p = (f (fst p), (snd p)[j := k (fst p)])"
        using True Cons.prems(2) resume_nth [of j "snd p" f k "fst p"] by simp
      have c: "if G (fst p) (f (fst p)) then 0 < n \<and> cost I G (\<lambda>_. True) (k (fst p)) (n - Suc 0)
          else cost I G (\<lambda>_. True) (k (fst p)) n"
        using Cons.prems(3) s Await by simp
      have "events G j is (resume i p) \<le> (if G (fst p) (f (fst p)) then n - 1 else n)"
        by (rule Cons.IH [OF inv]) (use c Cons.prems(2) in \<open>simp add: r split: if_splits\<close>)
      moreover have "fst (resume i p) = f (fst p)" by (simp add: r)
      ultimately show ?thesis using c True by (auto split: if_splits)
    qed
  next
    case False
    then have "events G j is (resume i p) \<le> n"
      using Cons.prems(3) by (intro Cons.IH [OF inv]) (simp add: resume_other)
    with False show ?thesis by simp
  qed
qed simp

section \<open>Histories\<close>

text \<open>The steps a schedule lets the coroutine at position \<open>j\<close> take: the shared state it found and the
  one it left, each time.\<close>

fun steps :: "nat \<Rightarrow> nat list \<Rightarrow> 's pool \<Rightarrow> ('s \<times> 's) list" where
  "steps j [] p = []"
| "steps j (i # is) p =
     (if i = j \<and> j < length (snd p) \<and> \<not> finished (snd p ! j) then [(fst p, fst (resume i p))] else []) @
     steps j is (resume i p)"

text \<open>\<open>traced I G Q c h\<close>: after the steps \<open>h\<close>, when the other coroutines keep \<open>I\<close>, each further step of \<open>c\<close>
  is in \<open>G\<close> and the result satisfies \<open>Q\<close>, both of which may speak of all steps so far.\<close>

primrec traced :: "('s \<Rightarrow> bool) \<Rightarrow> (('s \<times> 's) list \<Rightarrow> 's \<Rightarrow> 's \<Rightarrow> bool) \<Rightarrow>
    (('s \<times> 's) list \<Rightarrow> exn + 'a \<Rightarrow> bool) \<Rightarrow> ('s, 'a) co \<Rightarrow> ('s \<times> 's) list \<Rightarrow> bool" where
  "traced I G Q (Done r) = (\<lambda>h. Q h r)"
| "traced I G Q (Await f k) = (\<lambda>h. \<forall>s. I s \<longrightarrow> G h s (f s) \<and> traced I G Q (k s) (h @ [(s, f s)]))"

lemma traced_then: "traced I G Q (thenC c g) h = traced I G (\<lambda>h r. traced I G Q (g r) h) c h"
  by (induction c arbitrary: h) auto

lemma traced_atom:
  "traced I G Q (atom m) h \<longleftrightarrow> (\<forall>s. I s \<longrightarrow> G h s (snd (m s)) \<and> Q (h @ [(s, snd (m s))]) (fst (m s)))"
  by (simp add: atom_def)

lemma traced_bind:
  "traced I G Q (bindC c f) h =
   traced I G (\<lambda>h r. case r of Inl e \<Rightarrow> Q h (Inl e) | Inr x \<Rightarrow> traced I G Q (f x) h) c h"
proof -
  have "(\<lambda>h r. traced I G Q (case r of Inl e \<Rightarrow> raiseC e | Inr x \<Rightarrow> f x) h) =
      (\<lambda>h r. case r of Inl e \<Rightarrow> Q h (Inl e) | Inr x \<Rightarrow> traced I G Q (f x) h)"
    by (auto simp: fun_eq_iff split: sum.splits)
  then show ?thesis by (simp add: bindC_def traced_then)
qed

lemma traced_try:
  "traced I G Q (tryC c g) h =
   traced I G (\<lambda>h r. case r of Inl e \<Rightarrow> traced I G Q (g e) h | Inr x \<Rightarrow> Q h (Inr x)) c h"
proof -
  have "(\<lambda>h r. traced I G Q (case r of Inl e \<Rightarrow> g e | Inr x \<Rightarrow> returnC x) h) =
      (\<lambda>h r. case r of Inl e \<Rightarrow> traced I G Q (g e) h | Inr x \<Rightarrow> Q h (Inr x))"
    by (auto simp: fun_eq_iff split: sum.splits)
  then show ?thesis by (simp add: tryC_def traced_then)
qed

lemmas traced_simps = traced_bind traced_try traced_atom

lemma traced_mono:
  assumes "traced I G Q c h" "\<And>h' r. set h \<subseteq> set h' \<Longrightarrow> Q h' r \<Longrightarrow> R h' r"
  shows "traced I G R c h"
  using assms
proof (induction c arbitrary: h)
  case (Await f k)
  have "traced I G R (k s) (h @ [(s, f s)])" if "traced I G Q (k s) (h @ [(s, f s)])" for s
    by (rule Await.IH [OF _ that]) (auto intro: Await.prems(2))
  then show ?case using Await.prems(1) by simp
qed simp

lemma traced_schedule:
  assumes "pool_inv I p" "j < length (snd p)" "traced I G Q (snd p ! j) h"
  shows "traced I G Q (snd (schedule is p) ! j) (h @ steps j is p)"
  using assms
proof (induction "is" arbitrary: p h)
  case (Cons i "is")
  let ?new = "if i = j \<and> j < length (snd p) \<and> \<not> finished (snd p ! j) then [(fst p, fst (resume i p))] else []"
  have "traced I G Q (snd (resume i p) ! j) (h @ ?new)"
  proof (cases "i = j")
    case True
    then show ?thesis using Cons.prems by (cases p; cases "snd p ! j") auto
  next
    case False
    then show ?thesis using Cons.prems by (simp add: resume_other)
  qed
  from Cons.IH [OF resume_inv [OF Cons.prems(1)] _ this] Cons.prems(2) show ?case by simp
qed simp

lemma traced_resume:
  assumes "pool_inv I p" "j < length (snd p)" "traced I G Q (snd p ! j) h"
  shows "resume j p = p \<or> G h (fst p) (fst (resume j p))"
  using assms by (cases p; cases "snd p ! j") auto

lemma traced_finished:
  "traced I G Q c h \<Longrightarrow> finished c \<Longrightarrow> \<exists>r. c = Done r \<and> Q h r"
  by (cases c) auto

text \<open>The states in a history are states of the run.\<close>

lemma steps_states:
  "(t, t') \<in> set (steps j is p) \<Longrightarrow>
   \<exists>k < length is. t = fst (schedule (take k is) p) \<and> t' = fst (schedule (take (Suc k) is) p)"
proof (induction "is" arbitrary: p)
  case (Cons i "is")
  from Cons.prems consider "t = fst p" "t' = fst (resume i p)" | "(t, t') \<in> set (steps j is (resume i p))"
    by (auto split: if_splits)
  then show ?case
  proof cases
    case 1
    then show ?thesis by (intro exI [of _ 0]) simp
  next
    case 2
    from Cons.IH [OF this] obtain k where "k < length is" "t = fst (schedule (take k is) (resume i p))"
      "t' = fst (schedule (take (Suc k) is) (resume i p))" by blast
    then show ?thesis by (intro exI [of _ "Suc k"]) simp
  qed
qed simp

end
