(* ===== verification/Nevod_Tasks.thy ===== *)
theory Nevod_Tasks
  imports Nevod_Node Nevod_Async
begin

text \<open>
  The coroutines of a node with their awaits (\<^verbatim>\<open>transport.py\<close>, \<^verbatim>\<open>router.py\<close>, \<^verbatim>\<open>gossip.py\<close>,
  \<^verbatim>\<open>node.py\<close>).  The theories before this one run a handler to its end; here each handler is a
  tree of its awaits, and the event loop switches between handlers at any of them.

  An await is one the source has: of a socket, of the registry, of the program's callback, or of
  the storage.  A method of the storage that reads awaits the execution of its statement, the
  fetch of the rows and the end of the cursor (\<open>query\<close>); one that writes awaits the execution and
  the commit (\<open>executed\<close>).  aiosqlite runs the statements of one storage in the order in which
  they were awaited, so a statement acts when it is executed, together with the clock it
  reads; rows are those the statement found then.  The lock of the connection registry is never
  held over an await, so each registry operation is one step.

  Each definition is followed by its counterpart in the sequential model: run alone, with
  nothing between its awaits, the coroutine is the computation of that name without \<open>_co\<close>.
\<close>

type_synonym 'a task = "(node_state, 'a) co"

section \<open>Awaits of the storage\<close>

text \<open>An await on a storage that was closed meanwhile raises.\<close>

definition still_open :: "exn \<Rightarrow> unit nodeM" where
  "still_open e = (\<lambda>s. (if ns_open s then Inr () else Inl e, s))"

definition query :: "'a nodeM \<Rightarrow> 'a task" where
  "query m =
     bindC (atom m) (\<lambda>x.
     bindC (atom (still_open ValueError)) (\<lambda>_.
     bindC (atom (still_open ValueError)) (\<lambda>_.
     returnC x)))"

definition executed :: "unit nodeM \<Rightarrow> unit task" where
  "executed m = bindC (atom m) (\<lambda>_. atom (still_open AttributeError))"

section \<open>Transport\<close>

definition do_auth_co :: "env \<Rightarrow> Node \<Rightarrow> ws \<Rightarrow> string option \<Rightarrow> PeerConnection task" where
  "do_auth_co E nd ws expected_node_id =
     syncC (make_challenge E (my_id nd) (case expected_node_id of None \<Rightarrow> [] | Some e \<Rightarrow> e))
       (\<lambda>(our_challenge, our_nonce).
     bindC (Done (pack E our_challenge)) (\<lambda>b1.
     bindC (atom (ws_send E ws b1)) (\<lambda>_.
     bindC (atom (ws_recv E ws)) (\<lambda>r1.
     bindC (Done (unpack E r1)) (\<lambda>their_challenge.
     if p_type their_challenge \<noteq> PStr T_AUTH_CHALLENGE then raiseC ValueError
     else
     bindC (Done (bindR (decode_payload E (p_payload their_challenge)) (\<lambda>d. py_index d ''nonce''))) (\<lambda>their_nonce.
     bindC (syncC (make_response E (my_id nd) (p_from their_challenge) their_nonce
              (ni_signing (nd_identity nd)) (ni_encryption (nd_identity nd))) (\<lambda>response.
            bindC (Done (pack E response)) (\<lambda>b2. atom (ws_send E ws b2)))) (\<lambda>_.
     bindC (atom (ws_recv E ws)) (\<lambda>r2.
     bindC (Done (unpack E r2)) (\<lambda>their_response.
     if p_type their_response \<noteq> PStr T_AUTH_RESPONSE then raiseC ValueError
     else
     bindC (Done (verify_response E their_response our_nonce expected_node_id)) (\<lambda>result.
     case result of
       None \<Rightarrow> raiseC ValueError
     | Some r \<Rightarrow>
         returnC \<lparr>pc_ws = ws, pc_peer_node_id = ar_node_id r,
                  pc_peer_signing_pubkey = ar_signing_pubkey r,
                  pc_peer_enc_pubkey = ar_enc_pubkey r, pc_local_node_id = my_id nd\<rparr>))))))))))"

text \<open>\<^verbatim>\<open>create_task\<close> follows the registration without an await, so it is part of that step.\<close>

definition open_and_auth_co :: "env \<Rightarrow> Node \<Rightarrow> string \<Rightarrow> string option \<Rightarrow> PeerConnection task" where
  "open_and_auth_co E nd address expected_node_id =
     bindC (atom (ws_connect E (''ws://'' @ address))) (\<lambda>ws.
     bindC (do_auth_co E nd ws expected_node_id) (\<lambda>conn.
     bindC (atom (bindM (conn_add conn) (\<lambda>_. spawn_recv_loop conn))) (\<lambda>_.
     returnC conn)))"

definition transport_connect_co :: "env \<Rightarrow> Node \<Rightarrow> string \<Rightarrow> PeerConnection task" where
  "transport_connect_co E nd address =
     (if CHR '':'' \<notin> set address then raiseC ValueError
      else open_and_auth_co E nd address None)"

definition connect_to_node_co :: "env \<Rightarrow> Node \<Rightarrow> string \<Rightarrow> string \<Rightarrow> PeerConnection task" where
  "connect_to_node_co E nd nid address = open_and_auth_co E nd address (Some nid)"

definition send_to_co :: "env \<Rightarrow> Node \<Rightarrow> string \<Rightarrow> Packet \<Rightarrow> (bool \<times> Packet) task" where
  "send_to_co E nd nid packet =
     bindC (atom (conn_get nid)) (\<lambda>c.
     case c of
       None \<Rightarrow> returnC (False, packet)
     | Some conn \<Rightarrow>
         tryC (bindC (atom (send_via E nd conn packet)) (\<lambda>_. returnC (True, signed E nd packet)))
           (\<lambda>e. if e = ConnectionClosed
                then bindC (atom (conn_remove nid)) (\<lambda>_. returnC (False, signed E nd packet))
                else raiseC e))"

text \<open>Waiting for the next frame is an await; the list is what arrives before the socket closes.\<close>

definition recv_frame_co ::
  "env \<Rightarrow> (Packet \<Rightarrow> PeerConnection \<Rightarrow> unit task) \<Rightarrow> PeerConnection \<Rightarrow> bytes \<Rightarrow> unit task" where
  "recv_frame_co E on_packet conn raw =
     bindC pause (\<lambda>_.
     bindC (Done (unpack E raw)) (\<lambda>pkt.
     bindC (Done (verify_packet E pkt (pc_peer_signing_pubkey conn))) (\<lambda>ok.
     if \<not> ok then returnC ()
     else tryC (on_packet pkt conn) (\<lambda>e. returnC ()))))"

definition recv_loop_co ::
  "env \<Rightarrow> (Packet \<Rightarrow> PeerConnection \<Rightarrow> unit task) \<Rightarrow> PeerConnection \<Rightarrow> bytes list \<Rightarrow> unit task" where
  "recv_loop_co E on_packet conn frames =
     finallyC
       (tryC (bindC (forC frames (recv_frame_co E on_packet conn)) (\<lambda>_. pause))
          (\<lambda>e. if e = ConnectionClosed then returnC () else raiseC e))
       (atom (conn_remove (pc_peer_node_id conn)))"

text \<open>What \<^verbatim>\<open>_handle_incoming\<close> does once the peer has authenticated.\<close>

definition serve_conn_co ::
  "env \<Rightarrow> (Packet \<Rightarrow> PeerConnection \<Rightarrow> unit task) \<Rightarrow> PeerConnection \<Rightarrow> bytes list \<Rightarrow> unit task" where
  "serve_conn_co E on_packet conn frames =
     bindC (atom (conn_add conn)) (\<lambda>_.
     finallyC (recv_loop_co E on_packet conn frames)
       (atom (conn_remove (pc_peer_node_id conn))))"

definition handle_incoming_co ::
  "env \<Rightarrow> Node \<Rightarrow> (Packet \<Rightarrow> PeerConnection \<Rightarrow> unit task) \<Rightarrow> ws \<Rightarrow> bytes list \<Rightarrow> unit task" where
  "handle_incoming_co E nd on_packet ws frames =
     thenC (do_auth_co E nd ws None) (\<lambda>r.
     case r of
       Inl e \<Rightarrow> atom (ws_close ws)
     | Inr conn \<Rightarrow> serve_conn_co E on_packet conn frames)"

definition transport_stop_co :: "env \<Rightarrow> unit task" where
  "transport_stop_co E =
     bindC (atom (server_close E)) (\<lambda>_.
     bindC (atom conn_all) (\<lambda>conns. forC conns (\<lambda>conn. atom (conn_close conn))))"

section \<open>Router\<close>

definition deliver_local_co :: "env \<Rightarrow> Node \<Rightarrow> Packet \<Rightarrow> Packet task" where
  "deliver_local_co E nd pkt =
     bindC (Done (parse_addr (p_to pkt))) (\<lambda>(cell, _).
     bindC (case cell of
              None \<Rightarrow> returnC (False, pkt)
            | Some c \<Rightarrow> if c = [] then returnC (False, pkt) else send_to_co E nd c pkt)
       (\<lambda>(sent, pkt).
     if sent then returnC pkt
     else case nd_on_message nd of
            None \<Rightarrow> returnC pkt
          | Some cb \<Rightarrow> bindC (atom (call_on_message cb pkt)) (\<lambda>_. returnC pkt)))"

definition connect_and_send_co ::
  "env \<Rightarrow> Node \<Rightarrow> string \<Rightarrow> string \<Rightarrow> Packet \<Rightarrow> (bool \<times> Packet) task" where
  "connect_and_send_co E nd nid address pkt =
     tryC (bindC (connect_to_node_co E nd nid address) (\<lambda>conn.
             tryC (bindC (atom (send_via E nd conn pkt)) (\<lambda>_. returnC (True, signed E nd pkt)))
               (\<lambda>e. returnC (False, signed E nd pkt))))
       (\<lambda>e. returnC (False, pkt))"

definition send_to_node_co :: "env \<Rightarrow> Node \<Rightarrow> string \<Rightarrow> Packet \<Rightarrow> (bool \<times> Packet) task" where
  "send_to_node_co E nd nid pkt =
     (if nid = my_id nd
      then bindC (deliver_local_co E nd pkt) (\<lambda>pkt. returnC (True, pkt))
      else
        bindC (send_to_co E nd nid pkt) (\<lambda>(sent, pkt).
        if sent then returnC (True, pkt)
        else
          bindC (query (db_read (get_node nid))) (\<lambda>entry.
          case entry of
            None \<Rightarrow> returnC (False, pkt)
          | Some e \<Rightarrow>
              if ne_status e \<noteq> ''online'' then returnC (False, pkt)
              else connect_and_send_co E nd nid (ne_address e) pkt)))"

definition route_co :: "env \<Rightarrow> Node \<Rightarrow> Packet \<Rightarrow> unit task" where
  "route_co E nd pkt =
     bindC (Done (parse_addr (p_to pkt))) (\<lambda>(to_cell, to_node_id).
     case to_cell of
       None \<Rightarrow>
         (case to_node_id of
            PStr n \<Rightarrow> bindC (send_to_node_co E nd n pkt) (\<lambda>_. returnC ())
          | _ \<Rightarrow> raiseC TypeError)
     | Some cid \<Rightarrow>
         bindC (query (db_read (get_presence cid))) (\<lambda>presence.
         case presence of
           None \<Rightarrow>
             bindC (query (db_read (get_cell cid))) (\<lambda>cell.
             case cell of
               Some _ \<Rightarrow> bindC (deliver_local_co E nd pkt) (\<lambda>_. returnC ())
             | None \<Rightarrow> returnC ())
         | Some pr \<Rightarrow>
             bindC (case pe_visiting_node_id pr of
                      None \<Rightarrow> returnC (False, pkt)
                    | Some v \<Rightarrow> if v = [] then returnC (False, pkt) else send_to_node_co E nd v pkt)
               (\<lambda>(sent, pkt).
             if sent then returnC ()
             else
               bindC (send_to_node_co E nd (pe_home_node_id pr) pkt) (\<lambda>(sent, pkt).
               if sent then returnC ()
               else executed (buffer_packet E cid (pe_home_node_id pr) pkt)))))"

definition flush_message_co :: "env \<Rightarrow> Node \<Rightarrow> BufferedMessage \<Rightarrow> unit task" where
  "flush_message_co E nd msg =
     (case deserialize_packet E (bm_payload msg) of
        None \<Rightarrow> returnC ()
      | Some pkt \<Rightarrow>
          bindC (route_co E nd pkt) (\<lambda>_. executed (db_write (delete_buffered (bm_message_id msg)))))"

definition flush_buffer_co :: "env \<Rightarrow> Node \<Rightarrow> string \<Rightarrow> unit task" where
  "flush_buffer_co E nd cid =
     bindC (query (db_read_now E (\<lambda>now. get_buffered now cid))) (\<lambda>messages.
     forC messages (flush_message_co E nd))"

section \<open>Gossip\<close>

definition ping_node_co :: "env \<Rightarrow> Node \<Rightarrow> NodeEntry \<Rightarrow> unit task" where
  "ping_node_co E nd entry =
     bindC (atom (conn_get (ne_node_id entry))) (\<lambda>found.
     bindC (case found of
              Some conn \<Rightarrow> returnC (Some conn)
            | None \<Rightarrow>
                tryC (bindC (connect_to_node_co E nd (ne_node_id entry) (ne_address entry))
                        (\<lambda>conn. returnC (Some conn)))
                  (\<lambda>e. bindC (executed (db_write_now E (\<lambda>now. update_node_ping now (ne_node_id entry) False)))
                         (\<lambda>_. returnC None)))
       (\<lambda>found.
     case found of
       None \<Rightarrow> returnC ()
     | Some conn \<Rightarrow>
         syncC (make_ping E (my_id nd) (ne_node_id entry)) (\<lambda>pkt.
         tryC (bindC (atom (send_via E nd conn pkt))
                 (\<lambda>_. executed (db_write_now E (\<lambda>now. update_node_ping now (ne_node_id entry) True))))
           (\<lambda>e. executed (db_write_now E (\<lambda>now. update_node_ping now (ne_node_id entry) False))))))"

definition exchange_co :: "env \<Rightarrow> Node \<Rightarrow> NodeEntry \<Rightarrow> unit task" where
  "exchange_co E nd peer =
     bindC (atom (conn_get (ne_node_id peer))) (\<lambda>found.
     case found of
       None \<Rightarrow> returnC ()
     | Some conn \<Rightarrow>
         bindC (query (db_read get_all_nodes)) (\<lambda>all_nodes.
         syncC (make_gossip E (my_id nd) (map to_dict all_nodes)) (\<lambda>pkt.
         tryC (atom (send_via E nd conn pkt)) (\<lambda>e. returnC ()))))"

definition gossip_round_co :: "env \<Rightarrow> Node \<Rightarrow> unit task" where
  "gossip_round_co E nd =
     bindC (query (db_read get_all_nodes)) (\<lambda>nodes.
     bindC (forC nodes (\<lambda>entry.
              if ne_node_id entry = my_id nd then returnC () else ping_node_co E nd entry)) (\<lambda>_.
     bindC (executed (db_write_now E cleanup_expired_nodes)) (\<lambda>_.
     bindC (executed (db_write_now E cleanup_expired_messages)) (\<lambda>_.
     let online = filter (\<lambda>n. ne_status n = ''online'' \<and> ne_node_id n \<noteq> my_id nd) nodes in
     syncC (random_sample E online (min GOSSIP_FANOUT (length online))) (\<lambda>peers.
     forC peers (exchange_co E nd))))))"

text \<open>\<^verbatim>\<open>_loop\<close> for a number of turns, each followed by its sleep.  A cancelled gossip task is one
  that is not resumed any more.\<close>

definition gossip_turn_co :: "env \<Rightarrow> Node \<Rightarrow> unit task" where
  "gossip_turn_co E nd = tryC (gossip_round_co E nd) (\<lambda>e. returnC ())"

definition gossip_loop_co :: "env \<Rightarrow> Node \<Rightarrow> nat \<Rightarrow> unit task" where
  "gossip_loop_co E nd n =
     forC (replicate n ()) (\<lambda>_. bindC (gossip_turn_co E nd) (\<lambda>_. pause))"

text \<open>The insertion and the commit; the log line after them raises if the id cannot be sliced.\<close>

definition insert_discovered :: "env \<Rightarrow> pyval \<Rightarrow> pyval \<Rightarrow> pyval \<Rightarrow> unit nodeM" where
  "insert_discovered E n nid address =
     bindM (liftM (py_get n ''type'' (PStr ''permanent''))) (\<lambda>type.
     bindM (liftM (py_get n ''access'' (PStr ''closed''))) (\<lambda>access.
     bindM (time_now E) (\<lambda>seen.
     bindM (time_now E) (\<lambda>added.
     bindM (liftM (insert_text nid)) (\<lambda>nid_t.
     bindM (liftM (insert_text address)) (\<lambda>address_t.
     bindM (liftM (insert_text type)) (\<lambda>type_t.
     bindM (liftM (insert_text access)) (\<lambda>access_t.
     upsertM E (discovered seen added nid_t address_t type_t access_t)))))))))"

definition add_discovered_co :: "env \<Rightarrow> pyval \<Rightarrow> pyval \<Rightarrow> pyval \<Rightarrow> unit task" where
  "add_discovered_co E n nid address =
     bindC (executed (insert_discovered E n nid address)) (\<lambda>_.
     if sliceable nid then returnC () else raiseC TypeError)"

definition merge_node_co :: "env \<Rightarrow> pyval \<Rightarrow> unit task" where
  "merge_node_co E n =
     bindC (Done (py_get n ''node_id'' (PStr []))) (\<lambda>nid.
     bindC (Done (py_get n ''address'' (PStr []))) (\<lambda>address.
     if \<not> truthy nid \<or> \<not> truthy address then returnC ()
     else
       bindC (query (bindM (liftM (where_text nid)) (\<lambda>key.
                db_read (\<lambda>d. case key of None \<Rightarrow> None | Some k \<Rightarrow> get_node k d)))) (\<lambda>existing.
       case existing of
         Some _ \<Rightarrow> returnC ()
       | None \<Rightarrow> add_discovered_co E n nid address)))"

definition handle_gossip_co :: "env \<Rightarrow> Packet \<Rightarrow> unit task" where
  "handle_gossip_co E pkt =
     (case bindR (decode_payload E (p_payload pkt)) (\<lambda>data. py_get data ''nodes'' (PList [])) of
        Inl e \<Rightarrow> returnC ()
      | Inr remote_nodes \<Rightarrow>
          bindC (Done (py_iter remote_nodes)) (\<lambda>ns. forC ns (merge_node_co E)))"

section \<open>Node\<close>

definition node_join_co :: "env \<Rightarrow> Node \<Rightarrow> string \<Rightarrow> unit task" where
  "node_join_co E nd bootstrap_address =
     bindC (transport_connect_co E nd bootstrap_address) (\<lambda>conn.
     executed (upsert_seen_now E (pc_peer_node_id conn) bootstrap_address ''permanent'' ''open''))"

definition node_stop_co :: "env \<Rightarrow> unit task" where
  "node_stop_co E =
     syncC gossip_stop (\<lambda>_.
     bindC (transport_stop_co E) (\<lambda>_. atom close_storage))"

definition send_message_co :: "env \<Rightarrow> Node \<Rightarrow> string \<Rightarrow> bytes \<Rightarrow> string option \<Rightarrow> unit task" where
  "send_message_co E nd to_cell_at_node plaintext from_cell =
     (case split1 CHR ''@'' to_cell_at_node of
        None \<Rightarrow> raiseC ValueError
      | Some (cid, _) \<Rightarrow>
          bindC (query (db_read (get_cell cid))) (\<lambda>cell.
          case cell of
            None \<Rightarrow> raiseC ValueError
          | Some c \<Rightarrow>
              let from_addr = (case from_cell of
                    Some f \<Rightarrow> if f \<noteq> [] then f @ CHR ''@'' # my_id nd else my_id nd
                  | None \<Rightarrow> my_id nd) in
              syncC (bindM (encrypt E plaintext (ce_enc_pubkey c)) (\<lambda>enc.
                 payload_packet E T_MSG (encrypted_dict enc) (PStr from_addr) (PStr to_cell_at_node)))
                (route_co E nd)))"

definition log_slice_co :: "pyval \<Rightarrow> unit task" where
  "log_slice_co v = (if sliceable v then returnC () else raiseC TypeError)"

definition handle_node_remove_co :: "env \<Rightarrow> Packet \<Rightarrow> unit task" where
  "handle_node_remove_co E pkt =
     (case bindR (decode_payload E (p_payload pkt)) (\<lambda>data. py_index data ''node_id'') of
        Inl e \<Rightarrow> returnC ()
      | Inr nid \<Rightarrow> bindC (executed (remove_by nid)) (\<lambda>_. log_slice_co nid))"

definition handle_node_leaving_co :: "Packet \<Rightarrow> unit task" where
  "handle_node_leaving_co pkt =
     bindC (executed (remove_by (p_from pkt))) (\<lambda>_.
     bindC (case p_from pkt of PStr k \<Rightarrow> atom (conn_remove k) | _ \<Rightarrow> returnC ()) (\<lambda>_.
     log_slice_co (p_from pkt)))"

definition handle_presence_query_co :: "env \<Rightarrow> Node \<Rightarrow> Packet \<Rightarrow> PeerConnection \<Rightarrow> unit task" where
  "handle_presence_query_co E nd pkt conn =
     (case bindR (decode_payload E (p_payload pkt)) (\<lambda>data. py_index data ''cell_id'') of
        Inl e \<Rightarrow> returnC ()
      | Inr cid \<Rightarrow>
          bindC (query (bindM (liftM (where_text cid)) (\<lambda>key.
                   db_read (\<lambda>d. case key of None \<Rightarrow> None | Some k \<Rightarrow> get_presence k d)))) (\<lambda>presence.
          syncC (payload_packet E T_PRESENCE_RESPONSE (presence_dict cid presence)
                   (PStr (my_id nd)) (p_from pkt)) (\<lambda>response.
          atom (send_via E nd conn response))))"

definition handle_cell_register_co :: "env \<Rightarrow> Node \<Rightarrow> Packet \<Rightarrow> PeerConnection \<Rightarrow> unit task" where
  "handle_cell_register_co E nd pkt conn =
     (case register_fields E pkt of
        Inl e \<Rightarrow> returnC ()
      | Inr (cid, signing_pub, enc_pub, is_home) \<Rightarrow>
          if signing_pub \<noteq> pc_peer_signing_pubkey conn then returnC ()
          else if cid \<noteq> PStr (pc_peer_node_id conn) then returnC ()
          else
            let c = pc_peer_node_id conn in
            bindC (executed (db_write_now E (\<lambda>now. register_cell now c signing_pub enc_pub is_home))) (\<lambda>_.
            bindC (executed (db_write_now E (\<lambda>now. update_presence now c (my_id nd) None))) (\<lambda>_.
            flush_buffer_co E nd c)))"

definition register_cell_locally_co :: "env \<Rightarrow> Node \<Rightarrow> string \<Rightarrow> bytes \<Rightarrow> bytes \<Rightarrow> unit task" where
  "register_cell_locally_co E nd cid signing_pubkey enc_pubkey =
     bindC (executed (db_write_now E (\<lambda>now. register_cell now cid signing_pubkey enc_pubkey True))) (\<lambda>_.
     executed (db_write_now E (\<lambda>now. update_presence now cid (my_id nd) None)))"

definition dispatch_co :: "env \<Rightarrow> Node \<Rightarrow> Packet \<Rightarrow> PeerConnection \<Rightarrow> unit task" where
  "dispatch_co E nd pkt conn =
     (let t = p_type pkt in
      if t = PStr T_PING then atom (handle_ping E nd pkt conn)
      else if t = PStr T_PONG then executed (handle_pong E pkt)
      else if t = PStr T_GOSSIP then handle_gossip_co E pkt
      else if t = PStr T_MSG then route_co E nd pkt
      else if t = PStr T_NODE_REMOVE then handle_node_remove_co E pkt
      else if t = PStr T_NODE_LEAVING then handle_node_leaving_co pkt
      else if t = PStr T_PRESENCE_QUERY then handle_presence_query_co E nd pkt conn
      else if t = PStr T_PRESENCE_RESPONSE then returnC ()
      else if t = PStr T_CELL_REGISTER then handle_cell_register_co E nd pkt conn
      else log_slice_co (p_from pkt))"

section \<open>Alone, a coroutine is the sequential computation\<close>

lemma alone_pyval [alone_simps]:
  "alone (case v of PStr a \<Rightarrow> f a | _ \<Rightarrow> c) = (case v of PStr a \<Rightarrow> alone (f a) | _ \<Rightarrow> alone c)"
  by (cases v) auto

lemma bindM_prod: "bindM (case x of (a, b) \<Rightarrow> f a b) g = (case x of (a, b) \<Rightarrow> bindM (f a b) g)"
  by (cases x) auto

lemma bindM_if: "bindM (if b then m else m') g = (if b then bindM m g else bindM m' g)"
  by simp

lemma bindM_raise [simp]: "bindM (raiseM e) f = raiseM e"
  by (simp add: fun_eq_iff io_simps)

lemma bindM_option:
  "bindM (case x of None \<Rightarrow> m | Some y \<Rightarrow> f y) g = (case x of None \<Rightarrow> bindM m g | Some y \<Rightarrow> bindM (f y) g)"
  by (cases x) auto

lemma bindM_sum:
  "bindM (case x of Inl e \<Rightarrow> f e | Inr y \<Rightarrow> h y) g = (case x of Inl e \<Rightarrow> bindM (f e) g | Inr y \<Rightarrow> bindM (h y) g)"
  by (cases x) auto

lemmas bindM_norm = bindM_assoc bindM_prod bindM_if bindM_option bindM_sum bindM_return bindM_raise

text \<open>With nothing in between, the awaits after a statement find the storage open.\<close>

definition opened :: "'a nodeM \<Rightarrow> bool" where
  "opened m \<longleftrightarrow> (\<forall>s x s'. m s = (Inr x, s') \<longrightarrow> ns_open s')"

lemma alone_storage:
  assumes "opened m"
  shows "alone (query m) = m"
  using assms
  by (auto simp: fun_eq_iff query_def alone_bind alone_atom still_open_def io_simps opened_def alone_lift simp del: alone.simps
      split: prod.splits sum.splits)

lemma alone_executed:
  assumes "opened m"
  shows "alone (executed m) = m"
  using assms
  by (auto simp: fun_eq_iff executed_def alone_bind alone_atom still_open_def io_simps opened_def simp del: alone.simps
      split: prod.splits sum.splits)

lemma opened_bind: "(\<And>x. opened (f x)) \<Longrightarrow> opened (bindM m f)"
  by (force simp: opened_def io_simps split: prod.splits sum.splits)

lemma opened_storage:
  "opened (db_read f)" "opened (db_write g)" "opened (raiseM e)"
  by (auto simp: opened_def io_simps split: if_splits)

lemma opened_calls:
  "opened (db_write_now E g)" "opened (db_read_now E f)" "opened (upsertM E e)" "opened (buffer_packet E c h p)"
  "opened (remove_by v)" "opened (handle_pong E p)" "opened (upsert_seen_now E i a ty ac)" "opened (insert_discovered E n v w)"
  unfolding db_write_now_def db_read_now_def upsertM_def buffer_packet_def remove_by_def handle_pong_def upsert_seen_now_def
    insert_discovered_def
  by (auto intro!: opened_bind opened_storage)

lemmas alone_opened [alone_simps] =
  alone_storage [OF opened_storage(1)] alone_executed [OF opened_storage(2)] alone_executed [OF opened_calls(1)]
  alone_storage [OF opened_calls(2)] alone_executed [OF opened_calls(4)] alone_executed [OF opened_calls(5)]
  alone_executed [OF opened_calls(6)] alone_executed [OF opened_calls(7)] alone_executed [OF opened_calls(8)]
  alone_storage [OF opened_bind [OF opened_storage(1)]]

lemma add_discovered_split:
  "add_discovered E n v a = bindM (insert_discovered E n v a) (\<lambda>_. if sliceable v then returnM () else raiseM TypeError)"
  unfolding add_discovered_def insert_discovered_def bindM_assoc ..

lemma alone_add_discovered [alone_simps]: "alone (add_discovered_co E n v a) = add_discovered E n v a"
  unfolding add_discovered_co_def add_discovered_split alone_simps ..

lemma alone_do_auth [alone_simps]: "alone (do_auth_co E nd ws x) = do_auth E nd ws x"
  unfolding do_auth_co_def do_auth_def auth_exchange_def auth_answer_def auth_conclude_def alone_simps bindM_norm ..

lemma alone_connect [alone_simps]:
  "alone (open_and_auth_co E nd a x) = open_and_auth E nd a x"
  "alone (transport_connect_co E nd a) = transport_connect E nd a"
  "alone (connect_to_node_co E nd n a) = connect_to_node E nd n a"
  unfolding open_and_auth_co_def open_and_auth_def transport_connect_co_def transport_connect_def
    connect_to_node_co_def connect_to_node_def alone_simps bindM_norm by (rule refl)+

lemma alone_send_to [alone_simps]: "alone (send_to_co E nd n p) = send_to E nd n p"
  unfolding send_to_co_def send_to_def alone_simps ..

lemma alone_router [alone_simps]:
  "alone (deliver_local_co E nd p) = deliver_local E nd p"
  "alone (connect_and_send_co E nd n a p) = connect_and_send E nd n a p"
  unfolding deliver_local_co_def deliver_local_def connect_and_send_co_def connect_and_send_def alone_simps
  by (rule refl)+

lemma alone_send_to_node [alone_simps]: "alone (send_to_node_co E nd n p) = send_to_node E nd n p"
  unfolding send_to_node_co_def send_to_node_def alone_simps ..

lemma alone_route [alone_simps]: "alone (route_co E nd p) = route E nd p"
  unfolding route_co_def route_def alone_simps ..

lemma alone_flush [alone_simps]: "alone (flush_buffer_co E nd c) = flush_buffer E nd c"
  unfolding flush_buffer_co_def flush_buffer_def flush_message_co_def flush_message_def alone_simps ..

lemma alone_gossip [alone_simps]:
  "alone (ping_node_co E nd e) = ping_node E nd e" "alone (exchange_co E nd e) = exchange E nd e"
  "alone (handle_gossip_co E p) = handle_gossip E p"
  unfolding ping_node_co_def ping_node_def exchange_co_def exchange_def handle_gossip_co_def handle_gossip_def
    merge_node_co_def merge_node_def alone_simps bindM_norm by (rule refl)+

lemma alone_gossip_turn [alone_simps]: "alone (gossip_turn_co E nd) = gossip_turn E nd"
  unfolding gossip_turn_co_def gossip_turn_def gossip_round_co_def gossip_round_def Let_def alone_simps ..

lemma alone_handlers [alone_simps]:
  "alone (log_slice_co v) = log_slice v"
  "alone (handle_node_remove_co E p) = handle_node_remove E p"
  "alone (handle_node_leaving_co p) = handle_node_leaving p"
  "alone (handle_presence_query_co E nd p conn) = handle_presence_query E nd p conn"
  "alone (handle_cell_register_co E nd p conn) = handle_cell_register E nd p conn"
  unfolding log_slice_co_def log_slice_def handle_node_remove_co_def handle_node_remove_def
    handle_node_leaving_co_def handle_node_leaving_def handle_presence_query_co_def handle_presence_query_def
    handle_cell_register_co_def handle_cell_register_def Let_def alone_simps bindM_norm by (rule refl)+

lemma alone_dispatch [alone_simps]: "alone (dispatch_co E nd p conn) = dispatch E nd p conn"
  unfolding dispatch_co_def dispatch_def Let_def alone_simps ..

lemma alone_calls [alone_simps]:
  "alone (node_join_co E nd a) = node_join E nd a"
  "alone (register_cell_locally_co E nd c sp ep) = register_cell_locally E nd c sp ep"
  "alone (send_message_co E nd to pt f) = send_message E nd to pt f"
  "alone (node_stop_co E) = node_stop E"
  unfolding node_join_co_def node_join_def register_cell_locally_co_def register_cell_locally_def
    send_message_co_def send_message_def node_stop_co_def node_stop_def transport_stop_co_def transport_stop_def
    Let_def alone_simps bindM_norm by (rule refl)+

lemma alone_incoming [alone_simps]:
  "alone (recv_loop_co E (dispatch_co E nd) conn frames) = recv_loop E (dispatch E nd) conn frames"
  "alone (handle_incoming_co E nd (dispatch_co E nd) ws frames) = handle_incoming E nd (dispatch E nd) ws frames"
proof -
  have last: "bindM m (\<lambda>_. returnM ()) = m" for m :: "unit nodeM"
    by (auto simp: fun_eq_iff io_simps split: prod.splits sum.splits)
  have frame: "alone (recv_frame_co E (dispatch_co E nd) conn raw) = recv_frame E (dispatch E nd) conn raw" for conn raw
    unfolding recv_frame_co_def recv_frame_def alone_simps bindM_norm ..
  show loop: "alone (recv_loop_co E (dispatch_co E nd) conn frames) = recv_loop E (dispatch E nd) conn frames" for conn
    unfolding recv_loop_co_def recv_loop_def alone_simps frame last ..
  show "alone (handle_incoming_co E nd (dispatch_co E nd) ws frames) = handle_incoming E nd (dispatch E nd) ws frames"
    unfolding handle_incoming_co_def handle_incoming_def serve_conn_co_def fun_eq_iff alone_then alone_simps loop
    by (auto split: prod.splits sum.splits)
qed

section \<open>Each coroutine keeps the node's invariant at each of its awaits\<close>

definition node_inv :: "Node \<Rightarrow> node_state \<Rightarrow> bool" where
  "node_inv nd s \<longleftrightarrow> on_db (db_inv nd) s \<and> on_conns net_ok s"

lemma node_inv_free [simp, intro]: "world_free (node_inv nd)"
  using on_db_free [of "db_inv nd"] on_conns_free [of net_ok] by (simp add: world_free_def node_inv_def)

lemma keeps_node: "keeps (on_db (db_inv nd)) m \<Longrightarrow> keeps (on_conns net_ok) m \<Longrightarrow> keeps (node_inv nd) m"
  by (simp add: keeps_def node_inv_def)

lemma keeps_node_registry [keeps_intros]:
  "keeps (node_inv nd) (conn_get k)" "keeps (node_inv nd) (conn_remove k)" "keeps (node_inv nd) conn_all"
  by (intro keeps_node keeps_intros)+

lemma keeps_node_register: "conn_ok c \<Longrightarrow> keeps (node_inv nd) (conn_add c)"
  "conn_ok c \<Longrightarrow> keeps (node_inv nd) (bindM (conn_add c) (\<lambda>_. spawn_recv_loop c))"
  by (intro keeps_node keeps_bind keeps_intros keeps_conns_add, assumption)+

lemma keeps_node_write:
  "(\<And>now d. db_inv nd d \<Longrightarrow> db_inv nd (f now d)) \<Longrightarrow> keeps (node_inv nd) (db_write_now E f)"
  by (intro keeps_node keeps_db_write_now keeps_intros)

lemma keeps_node_message [keeps_intros]: "keeps (node_inv nd) (call_on_message cb p)"
  by (intro keeps_node keeps_intros)

lemma keeps_still_open [keeps_intros]: "keeps I (still_open e)"
  by (simp add: keeps_def still_open_def)

lemma guar_query:
  assumes "guar I G (on_value P) (atom m)" "\<And>s. I s \<Longrightarrow> G s s"
  shows "guar I G (on_value P) (query m)"
proof -
  have "acts I G (atom (still_open e))" for e
    using assms(2) by (intro acts_atom) (simp add: still_open_def)
  then show ?thesis
    unfolding query_def by (intro guar_bind_value [OF assms(1)] guar_bind_on guar_done) simp_all
qed

lemma steady_query [safe_intros]: "keeps I m \<Longrightarrow> steady I (query m)"
  unfolding query_def by (intro safe_intros keeps_intros TrueI)

lemma steady_executed [safe_intros]: "keeps I m \<Longrightarrow> steady I (executed m)"
  unfolding executed_def by (intro safe_intros keeps_intros TrueI)

lemmas value_intros = guar_bind_done guar_bind_on safe_sync guar_done guar_option guar_if guar_prod guar_sum

lemma safe_do_auth: "safe (node_inv nd) (on_value conn_ok) (do_auth_co E nd ws x)"
  unfolding do_auth_co_def
  by (intro value_intros safe_intros keeps_intros node_inv_free)
    (auto simp: conn_ok_def dest!: verify_response_SomeD)

lemma steady_connect [safe_intros]:
  "steady (node_inv nd) (open_and_auth_co E nd a x)" "steady (node_inv nd) (transport_connect_co E nd a)"
  "steady (node_inv nd) (connect_to_node_co E nd n a)"
proof -
  have a: "steady (node_inv nd) (bindC (do_auth_co E nd ws x) (\<lambda>conn.
      bindC (atom (bindM (conn_add conn) (\<lambda>_. spawn_recv_loop conn))) (\<lambda>_. returnC conn)))" for ws x
    by (rule acts_bind_value [OF safe_do_auth]) (intro safe_intros keeps_node_register TrueI)
  show o: "steady (node_inv nd) (open_and_auth_co E nd a x)" for x
    unfolding open_and_auth_co_def
    by (rule acts_bind [OF steady_atom a]) (intro keeps_intros node_inv_free)
  show "steady (node_inv nd) (transport_connect_co E nd a)" "steady (node_inv nd) (connect_to_node_co E nd n a)"
    unfolding transport_connect_co_def connect_to_node_co_def by (intro safe_intros o TrueI)+
qed

lemma steady_send [safe_intros]:
  "steady (node_inv nd) (send_to_co E nd n p)" "steady (node_inv nd) (deliver_local_co E nd p)"
proof -
  show s: "steady (node_inv nd) (send_to_co E nd n p)" for n p
    unfolding send_to_co_def by (intro safe_intros keeps_intros node_inv_free TrueI)
  show "steady (node_inv nd) (deliver_local_co E nd p)"
    unfolding deliver_local_co_def by (intro safe_intros keeps_intros s TrueI)
qed

lemma steady_send_to_node [safe_intros]: "steady (node_inv nd) (send_to_node_co E nd n p)"
  unfolding send_to_node_co_def connect_and_send_co_def
  by (intro safe_intros keeps_intros node_inv_free TrueI)

text \<open>Sending to the node itself reports success, whatever happens between its awaits.\<close>

lemma safe_send_to_self: "safe (node_inv nd) (on_value fst) (send_to_node_co E nd (my_id nd) p)"
  unfolding send_to_node_co_def
  by (simp only: if_True simp_thms) (intro guar_bind_on steady_send guar_done, simp)

lemma steady_route [safe_intros]: "steady (node_inv nd) (route_co E nd p)"
proof -
  have read: "safe (node_inv nd) (on_value (\<lambda>pr. \<forall>q. pr = Some q \<longrightarrow> pe_home_node_id q = my_id nd))
      (query (db_read (get_presence c)))" for c
  proof (rule guar_query [OF safe_atom_value])
    fix s s' and pr assume "node_inv nd s" "db_read (get_presence c) s = (Inr pr, s')"
    then have "at_home_only nd (ns_db s)" "pr = get_presence c (ns_db s)"
      by (auto simp: node_inv_def on_db_def db_inv_def io_simps split: if_splits)
    then show "\<forall>q. pr = Some q \<longrightarrow> pe_home_node_id q = my_id nd"
      by (auto simp: at_home_only_def get_presence_def dest: tbl_get_SomeD)
  qed (intro keeps_intros)
  have home: "steady (node_inv nd) (bindC (send_to_node_co E nd h q) (\<lambda>(sent, q).
      if sent then returnC () else executed (buffer_packet E c h q)))" if "h = my_id nd" for h q c
    unfolding that by (rule acts_bind_value [OF safe_send_to_self]) (auto intro: safe_intros)
  show ?thesis
    unfolding route_co_def
    by (rule acts_bind [OF guar_done [OF TrueI]], rule guar_prod, rule guar_option)
      (auto intro!: safe_intros acts_bind_value [OF read] keeps_intros home split: pyval.splits)
qed

lemma steady_flush [safe_intros]: "steady (node_inv nd) (flush_buffer_co E nd c)"
proof -
  have "keeps (node_inv nd) (db_write (delete_buffered m))" for m
    by (intro keeps_node keeps_db_write keeps_intros db_inv_ops)
  then show ?thesis
    unfolding flush_buffer_co_def flush_message_co_def
    by (intro safe_intros keeps_intros node_inv_free TrueI)
qed

lemma steady_gossip [safe_intros]:
  "steady (node_inv nd) (gossip_loop_co E nd n)" "steady (node_inv nd) (handle_gossip_co E p)"
proof -
  have w: "keeps (node_inv nd) (db_write_now E (\<lambda>now. update_node_ping now k ok))"
    "keeps (node_inv nd) (db_write_now E cleanup_expired_nodes)"
    "keeps (node_inv nd) (db_write_now E cleanup_expired_messages)" for k ok
    by (rule keeps_node_write, erule db_inv_ops)+
  have p: "steady (node_inv nd) (ping_node_co E nd e)" "steady (node_inv nd) (exchange_co E nd e)" for e
    unfolding ping_node_co_def exchange_co_def
    by (intro safe_intros keeps_intros w node_inv_free TrueI)+
  show "steady (node_inv nd) (gossip_loop_co E nd n)"
    unfolding gossip_loop_co_def gossip_turn_co_def gossip_round_co_def Let_def
    by (intro safe_intros keeps_intros w p node_inv_free TrueI)
  have "keeps (node_inv nd) (insert_discovered E m i a)" for m i a
    unfolding insert_discovered_def
    by (intro keeps_node; intro keeps_intros keeps_upsertM db_inv_ops on_db_free on_conns_free)
  then show "steady (node_inv nd) (handle_gossip_co E p)"
    unfolding handle_gossip_co_def merge_node_co_def add_discovered_co_def by (intro safe_intros keeps_intros TrueI)
qed

lemma steady_dispatch:
  assumes "conn_ok conn"
  shows "steady (node_inv nd) (dispatch_co E nd p conn)"
proof -
  have id: "pc_peer_node_id conn = hex (pc_peer_signing_pubkey conn)" "length (pc_peer_signing_pubkey conn) = 32"
    using assms by (auto simp: conn_ok_def)
  have a: "keeps (node_inv nd) (handle_ping E nd p conn)" "keeps (node_inv nd) (handle_pong E p)"
    by (rule keeps_node; intro keeps_intros keeps_db_ping db_inv_ops)+
  have rm: "keeps (node_inv nd) (remove_by v)" for v
    unfolding remove_by_def
    by (rule keeps_node; intro keeps_intros keeps_db_write) (auto intro: db_inv_ops split: option.splits)
  have lg: "steady (node_inv nd) (log_slice_co v)" for v
    unfolding log_slice_co_def by (intro safe_intros TrueI)
  have rg: "steady (node_inv nd) (handle_cell_register_co E nd p conn)"
    unfolding handle_cell_register_co_def Let_def
    by (auto intro!: safe_intros keeps_node_write db_inv_presence db_inv_register simp: id)
  have lv: "steady (node_inv nd) (handle_node_leaving_co p)"
    unfolding handle_node_leaving_co_def
    by (intro safe_intros rm lg) (auto intro!: safe_intros keeps_intros split: pyval.splits)
  show ?thesis
    unfolding dispatch_co_def Let_def handle_node_remove_co_def handle_presence_query_co_def
    by (intro safe_intros keeps_intros a rm lg rg lv node_inv_free TrueI)
qed

lemma steady_recv_loop: "conn_ok conn \<Longrightarrow> steady (node_inv nd) (recv_loop_co E (dispatch_co E nd) conn frames)"
  unfolding recv_loop_co_def recv_frame_co_def
  by (intro safe_intros keeps_intros steady_dispatch TrueI)

section \<open>The tasks of a node\<close>

text \<open>What runs on the event loop of a node: the server's handler of an incoming connection, the
  receive loop of an outgoing one, the gossip task, and the calls of the program.\<close>

datatype node_task =
    Serve ws "bytes list"
  | Listen PeerConnection "bytes list"
  | Gossiping nat
  | Joining string
  | Sending string bytes "string option"
  | LocalCell string bytes bytes
  | Starting
  | Stopping

primrec task_co :: "env \<Rightarrow> Node \<Rightarrow> node_task \<Rightarrow> unit task" where
  "task_co E nd (Serve ws frames) = handle_incoming_co E nd (dispatch_co E nd) ws frames"
| "task_co E nd (Listen conn frames) = recv_loop_co E (dispatch_co E nd) conn frames"
| "task_co E nd (Gossiping n) = gossip_loop_co E nd n"
| "task_co E nd (Joining address) = node_join_co E nd address"
| "task_co E nd (Sending to plaintext from_cell) = send_message_co E nd to plaintext from_cell"
| "task_co E nd (LocalCell cid sp ep) = register_cell_locally_co E nd cid sp ep"
| "task_co E nd Starting = atom (node_start E nd)"
| "task_co E nd Stopping = node_stop_co E"

text \<open>A receive loop runs on a connection that authenticated; the program registers a cell under the
  id that belongs to its key, as \<^verbatim>\<open>CellIdentity.cell_id\<close> gives it.\<close>

fun task_ok :: "node_task \<Rightarrow> bool" where
  "task_ok (Listen conn frames) = conn_ok conn"
| "task_ok (LocalCell cid sp ep) = (cid = hex sp \<and> length sp = 32)"
| "task_ok _ = True"

lemma steady_incoming: "steady (node_inv nd) (handle_incoming_co E nd (dispatch_co E nd) ws frames)"
proof -
  have "steady (node_inv nd) (serve_conn_co E (dispatch_co E nd) conn frames)"
    if "conn_ok conn" for conn
    unfolding serve_conn_co_def by (intro safe_intros keeps_intros keeps_node_register steady_recv_loop that)
  moreover have "steady (node_inv nd) (atom (ws_close ws))"
    by (intro safe_intros keeps_intros node_inv_free)
  ultimately show ?thesis
    unfolding handle_incoming_co_def
    by (intro guar_then guar_mono [OF safe_do_auth]) (auto simp: on_value_def split: sum.splits)
qed

lemma task_steady:
  assumes "task_ok t"
  shows "steady (node_inv nd) (task_co E nd t)"
proof (cases t)
  case (Serve ws frames)
  then show ?thesis by (simp add: steady_incoming)
next
  case (Listen conn frames)
  then show ?thesis using assms by (simp add: steady_recv_loop)
next
  case (Joining a)
  have "keeps (node_inv nd) (upsert_seen_now E i a ty ac)" for i ty ac
    unfolding upsert_seen_now_def
    by (intro keeps_node; intro keeps_intros keeps_upsertM db_inv_ops on_db_free on_conns_free)
  then show ?thesis
    unfolding Joining task_co.simps node_join_co_def by (intro safe_intros)
next
  case (Sending to pt f)
  show ?thesis
    unfolding Sending task_co.simps send_message_co_def Let_def
    by (intro safe_intros keeps_intros node_inv_free TrueI)
next
  case (LocalCell cid sp ep)
  with assms show ?thesis
    by (auto simp: register_cell_locally_co_def intro!: safe_intros keeps_node_write db_inv_presence db_inv_register)
next
  case Starting
  then show ?thesis
    by (auto intro!: safe_intros keeps_node keeps_db_calls keeps_net_calls)
next
  case Stopping
  have flags: "keeps (node_inv nd) gossip_stop" "keeps (node_inv nd) close_storage"
    by (auto simp: keeps_def close_storage_def io_simps node_inv_def on_db_def on_conns_def)
  have server: "keeps (node_inv nd) (server_close E)"
    by (intro keeps_node keeps_intros)
  show ?thesis
    unfolding Stopping task_co.simps node_stop_co_def transport_stop_co_def
    by (intro safe_intros keeps_intros flags server node_inv_free)
qed (simp add: steady_gossip)

interpretation tasks: pool_of "node_inv nd" task_ok "task_co E nd" for nd E
  by unfold_locales (rule task_steady)

end
