(* ===== verification/Nevod_Loop.thy ===== *)
theory Nevod_Loop
  imports Nevod_Tasks
begin

text \<open>
  The event loop of a node: pools of the coroutines of \<open>Nevod_Tasks\<close> under every schedule.
  What holds for any interleaving at the awaits (the invariant of the node, the merge of node
  tables by concurrent handlers, where a routed message can go), that schedules end, how the
  sequential model sits inside the interleaved one, and two races.
\<close>

section \<open>The event loop as a transition system\<close>

text \<open>A task starts when a peer connects, when the program calls the node, or as the gossip task;
  the receive loop of an outgoing connection was put on the list of loops by \<^verbatim>\<open>create_task\<close> and
  starts later.  Then any task is resumed at its current await, in any order.\<close>

fun from_outside :: "node_task \<Rightarrow> bool" where
  "from_outside (Listen conn frames) = False"
| "from_outside t = task_ok t"

inductive loop_reach :: "env \<Rightarrow> Node \<Rightarrow> node_state pool \<Rightarrow> bool" for E nd where
  loop_init: "db_inv nd (ns_db s) \<Longrightarrow> ns_conns s = [] \<Longrightarrow> ns_loops s = [] \<Longrightarrow> loop_reach E nd (s, [])"
| loop_task: "loop_reach E nd (s, cs) \<Longrightarrow> from_outside t \<Longrightarrow> loop_reach E nd (s, cs @ [task_co E nd t])"
| loop_listen: "loop_reach E nd (s, cs) \<Longrightarrow> conn \<in> set (ns_loops s) \<Longrightarrow>
    loop_reach E nd (s\<lparr>ns_loops := remove1 conn (ns_loops s)\<rparr>, cs @ [task_co E nd (Listen conn frames)])"
| loop_resume: "loop_reach E nd p \<Longrightarrow> loop_reach E nd (resume i p)"

lemma from_outside_ok: "from_outside t \<Longrightarrow> task_ok t"
  by (cases t) auto

lemma loop_inv: "loop_reach E nd p \<Longrightarrow> pool_inv (node_inv nd) p"
proof (induction rule: loop_reach.induct)
  case (loop_init s)
  then show ?case by (simp add: node_inv_def on_db_def on_conns_def net_ok_def conns_ok_def)
next
  case (loop_task s cs t)
  then show ?case using task_steady [OF from_outside_ok] by auto
next
  case (loop_listen s cs conn frames)
  then have "conn_ok conn" by (simp add: node_inv_def on_conns_def net_ok_def)
  then have "steady (node_inv nd) (task_co E nd (Listen conn frames))" by (intro task_steady) simp
  moreover have "node_inv nd (s\<lparr>ns_loops := remove1 conn (ns_loops s)\<rparr>)"
    using loop_listen.IH by (auto simp: node_inv_def on_db_def on_conns_def net_ok_def dest: notin_set_remove1)
  ultimately show ?case using loop_listen.IH by simp
next
  case (loop_resume p i)
  then show ?case by (intro resume_inv)
qed

lemma loop_schedule: "loop_reach E nd p \<Longrightarrow> loop_reach E nd (schedule is p)"
  by (induction "is" arbitrary: p) (simp_all add: loop_resume del: resume.simps)

text \<open>
  C4: a node is safe under every interleaving.  The tasks of a node (handlers of incoming
  connections with any frames, receive loops, gossip, calls of the program) are switched at
  any await, in any order, and peers answer anything.  In every state so reached: primary keys
  are unique; a node of the table is offline exactly when it missed three pings or more, and
  online otherwise; the id of every registered cell is the hexadecimal form of its 32-byte
  signing key; every presence record names this node as home, and nothing is ever buffered;
  and every registered connection is filed under the id that belongs to the key the peer
  proved to own.
\<close>
theorem interleaved_node_safe:
  assumes "loop_reach E nd (s, cs)"
  shows "distinct (map nr_node_id (node_table (ns_db s))) \<and> distinct (map cr_cell_id (cells (ns_db s))) \<and>
    (\<forall>r \<in> set (node_table (ns_db s)). 0 \<le> nr_missed_pings r \<and>
       nr_status r = (if nr_missed_pings r \<ge> 3 then ''offline'' else ''online'')) \<and>
    (\<forall>c \<in> set (cells (ns_db s)). cr_cell_id c = hex (cr_signing_pubkey c) \<and> length (cr_signing_pubkey c) = 32) \<and>
    (\<forall>p \<in> set (presence_table (ns_db s)). pe_home_node_id p = my_id nd \<and> pe_visiting_node_id p = None) \<and>
    message_buffer (ns_db s) = [] \<and>
    distinct (map fst (ns_conns s)) \<and>
    (\<forall>(k, c) \<in> set (ns_conns s). k = hex (pc_peer_signing_pubkey c) \<and> length (pc_peer_signing_pubkey c) = 32)"
proof -
  from loop_inv [OF assms] have d: "db_inv nd (ns_db s)" and c: "conns_ok (ns_conns s)"
    by (auto simp: node_inv_def on_db_def on_conns_def net_ok_def)
  from c have "\<forall>(k, c) \<in> set (ns_conns s). k = hex (pc_peer_signing_pubkey c) \<and> length (pc_peer_signing_pubkey c) = 32"
    by (auto simp: conns_ok_def conn_ok_def)
  with d c show ?thesis
    by (simp add: db_inv_def wf_db_def healthy_db_def healthy_def cell_ok_def conns_ok_def at_home_only_def
        MISSED_PINGS_OFFLINE_def)
qed

text \<open>Two cells registered by the program, the second registration resumed between the awaits of
  the first.\<close>

definition two_cells :: "node_state pool" where
  "two_cells = schedule [0, 1, 1, 0] (state0, map (task_co env0 nd0)
     [LocalCell (hex (replicate 32 1)) (replicate 32 1) [], LocalCell (hex (replicate 32 2)) (replicate 32 2) []])"

lemma two_cells_reach: "loop_reach env0 nd0 two_cells"
proof -
  let ?t = "\<lambda>k. LocalCell (hex (replicate 32 k)) (replicate 32 k) []"
  have "loop_reach env0 nd0 (state0, [] @ [task_co env0 nd0 (?t 1)] @ [task_co env0 nd0 (?t 2)])"
    unfolding append_assoc [symmetric]
    by (intro loop_task loop_init) (simp_all add: state0_def db_inv_empty)
  then show ?thesis unfolding two_cells_def by (intro loop_schedule) simp
qed

theorem interleaved_node_safe_witness:
  "loop_reach env0 nd0 (fst two_cells, snd two_cells) \<and> distinct (map cr_cell_id (cells (ns_db (fst two_cells))))"
proof -
  have r: "loop_reach env0 nd0 (fst two_cells, snd two_cells)" using two_cells_reach by simp
  show ?thesis using r interleaved_node_safe [OF r] by blast
qed

section \<open>The sequential model inside the event loop\<close>

primrec task_io :: "env \<Rightarrow> Node \<Rightarrow> node_task \<Rightarrow> unit nodeM" where
  "task_io E nd (Serve ws frames) = handle_incoming E nd (dispatch E nd) ws frames"
| "task_io E nd (Listen conn frames) = recv_loop E (dispatch E nd) conn frames"
| "task_io E nd (Gossiping n) = forM (replicate n ()) (\<lambda>_. gossip_turn E nd)"
| "task_io E nd (Joining address) = node_join E nd address"
| "task_io E nd (Sending to plaintext from_cell) = send_message E nd to plaintext from_cell"
| "task_io E nd (LocalCell cid sp ep) = register_cell_locally E nd cid sp ep"
| "task_io E nd Starting = node_start E nd"
| "task_io E nd Stopping = node_stop E"

lemma bind_return: "bindM m returnM = m"
  by (auto simp: fun_eq_iff io_simps split: prod.splits sum.splits)

lemma alone_task: "alone (task_co E nd t) = task_io E nd t"
  by (cases t) (simp_all add: alone_simps gossip_loop_co_def bind_return del: alone.simps)

lemma schedule_alone:
  "\<exists>n. schedule (replicate n (length cs)) (s, cs @ c # ds) = (snd (alone c s), cs @ Done (fst (alone c s)) # ds)"
proof (induction c arbitrary: s)
  case (Done r)
  show ?case by (rule exI [of _ 0]) simp
next
  case (Await f k)
  obtain n where "schedule (replicate n (length cs)) (f s, cs @ k s # ds) =
      (snd (alone (k s) (f s)), cs @ Done (fst (alone (k s) (f s))) # ds)"
    using Await.IH [of "k s" "f s"] by auto
  then show ?case by (intro exI [of _ "Suc n"]) simp
qed

text \<open>
  the sequential model is the event loop that lets one task run.  Whatever other tasks wait,
  when the loop resumes one task alone until it finishes, the state and the result are those
  of the sequential model: an incoming connection, a receive loop, gossip turns, joining,
  sending, registering, starting, stopping.
\<close>
theorem one_task_runs_sequentially:
  "\<exists>n. schedule (replicate n (length cs)) (s, cs @ task_co E nd t # ds) =
     (snd (task_io E nd t s), cs @ Done (fst (task_io E nd t s)) # ds)"
  using schedule_alone [of cs s "task_co E nd t" ds] by (simp only: alone_task)

section \<open>Schedules end\<close>

text \<open>
  the event loop comes to rest.  From any state and any finite collection of tasks, whatever
  the peers answer and the clock says, there is no endless sequence of resumptions of
  unfinished tasks: without new tasks every schedule ends with all of them finished.
\<close>
theorem tasks_come_to_rest:
  "\<not> (\<exists>p i. p 0 = (s, map (task_co E nd) ts) \<and>
       (\<forall>n. i n < length ts \<and> \<not> finished (snd (p n) ! i n) \<and> p (Suc n) = resume (i n) (p n)))"
proof
  assume "\<exists>p i. p 0 = (s, map (task_co E nd) ts) \<and>
       (\<forall>n. i n < length ts \<and> \<not> finished (snd (p n) ! i n) \<and> p (Suc n) = resume (i n) (p n))"
  then obtain p i where p: "p 0 = (s, map (task_co E nd) ts)"
    and run: "\<And>n. i n < length ts \<and> \<not> finished (snd (p n) ! i n) \<and> p (Suc n) = resume (i n) (p n)" by blast
  have "length (snd (p n)) = length ts" for n
    by (induction n) (use run in \<open>simp_all add: p del: resume.simps\<close>)
  then show False using no_endless_schedule [of i p] run by simp
qed

lemma within_storage [within_intros]: "within (query m) 3" "within (executed m') 2"
  unfolding query_def executed_def by (rule cost_mono, (rule within_intros TrueI)+, simp)+

lemma within_auth [within_intros]: "within (do_auth_co E nd ws x) 4"
  unfolding do_auth_co_def by (rule cost_mono, (rule within_intros TrueI)+, simp)

lemma within_connect [within_intros]: "within (connect_to_node_co E nd n a) 6"
  unfolding connect_to_node_co_def open_and_auth_co_def by (rule cost_mono, (rule within_intros TrueI)+, simp)

lemma within_send_to [within_intros]: "within (send_to_co E nd n p) 3"
  unfolding send_to_co_def by (rule cost_mono, (rule within_intros TrueI)+, simp)

lemma within_deliver [within_intros]: "within (deliver_local_co E nd p) 4"
  unfolding deliver_local_co_def by (rule cost_mono, (rule within_intros TrueI)+, simp)

lemma within_send_to_node [within_intros]: "within (send_to_node_co E nd n p) 13"
  unfolding send_to_node_co_def connect_and_send_co_def by (rule cost_mono, (rule within_intros TrueI)+, simp)

lemma within_pyval [within_intros]:
  "(\<And>a. within (f a) n) \<Longrightarrow> within (case v of PStr a \<Rightarrow> f a | _ \<Rightarrow> Done r) n"
  by (cases v) auto

lemma within_route [within_intros]: "within (route_co E nd p) 31"
  unfolding route_co_def by (rule cost_mono, (rule within_intros TrueI)+, simp)

section \<open>Concurrent handlers of gossip\<close>

lemma only_new_overwrite:
  assumes "only_new d d2" "get_node k d = None"
  shows "only_new d (upsert_node now (discovered seen added k a t x) d2)"
proof (cases "get_node k d2")
  case None
  then show ?thesis by (rule only_new_discovered [OF assms(1)])
next
  case (Some old)
  then have "fresh_entry old" using assms by (auto simp: only_new_def dest!: spec [of _ k])
  with Some assms show ?thesis
    unfolding only_new_def get_node_upsert
    by (auto simp: upsert_node_def Let_def discovered_def fresh_entry_def split: option.splits)
qed

definition gossip_inv :: "db \<Rightarrow> node_state \<Rightarrow> bool" where
  "gossip_inv d s \<longleftrightarrow> ns_open s \<and> only_new d (ns_db s)"

lemma only_new_unknown: "only_new d d2 \<Longrightarrow> get_node k d2 = None \<Longrightarrow> get_node k d = None"
  by (cases "get_node k d") (auto simp: only_new_def dest!: spec [of _ k])

lemma insert_discovered_state: "snd (insert_discovered E n v a s) = snd (add_discovered E n v a s)"
  by (auto simp: add_discovered_split io_simps split: prod.splits sum.splits)

lemma steady_merge: "steady (gossip_inv d) (handle_gossip_co E p)"
proof -
  let ?q = "\<lambda>nid. bindM (liftM (where_text nid)) (\<lambda>key. db_read (\<lambda>d. case key of None \<Rightarrow> None | Some k \<Rightarrow> get_node k d))"
  have read: "safe (gossip_inv d) (on_value (\<lambda>x. x = None \<longrightarrow> (\<forall>k. insert_text nid = Inr k \<longrightarrow> get_node k d = None)))
      (query (?q nid))" for nid
  proof (rule guar_query [OF safe_atom_value])
    fix s s' x assume s: "gossip_inv d s" "?q nid s = (Inr x, s')"
    then have "get_node k (ns_db s) = None" if "x = None" "insert_text nid = Inr k" for k
      using that insert_where [OF that(2)] by (auto simp: gossip_inv_def io_simps)
    with s(1) show "x = None \<longrightarrow> (\<forall>k. insert_text nid = Inr k \<longrightarrow> get_node k d = None)"
      by (auto simp: gossip_inv_def intro: only_new_unknown)
  qed (intro keeps_intros)
  have add: "keeps (gossip_inv d) (insert_discovered E n nid a)"
    if "\<forall>k. insert_text nid = Inr k \<longrightarrow> get_node k d = None" for n nid a
  proof (rule keepsI)
    fix s assume s: "gossip_inv d s"
    then have "ns_open s" by (simp add: gossip_inv_def)
    from add_discovered_cases [OF this, of E n nid a] that s
    show "gossip_inv d (snd (insert_discovered E n nid a s))"
      by (auto simp: insert_discovered_state gossip_inv_def intro!: only_new_overwrite)
  qed
  have "steady (gossip_inv d) (merge_node_co E n)" for n
    unfolding merge_node_co_def add_discovered_co_def
    by (intro safe_intros TrueI acts_bind_value [OF read]) (auto intro!: add)
  then show ?thesis unfolding handle_gossip_co_def by (intro safe_intros TrueI)
qed

interpretation gossips: pool_of "gossip_inv d" "\<lambda>_. True" "handle_gossip_co E" for d E
  by unfold_locales (rule steady_merge)

text \<open>
  C25: concurrent gossip never changes what was known.  Any number of \<^verbatim>\<open>GOSSIP\<close> packets with any
  content are handled at the same time, switched at any await: every entry the node table had
  when the handlers started is still there unchanged; every new entry is online, without
  missed pings, certificate or parent; the other tables are untouched.
\<close>
theorem concurrent_gossip_keeps_known:
  assumes "ns_open s" and "d = ns_db s"
    and "d' = ns_db (fst (schedule is (s, map (handle_gossip_co E) ps)))"
  shows "(\<forall>k e. get_node k d = Some e \<longrightarrow> get_node k d' = Some e) \<and>
    (\<forall>k e. get_node k d = None \<and> get_node k d' = Some e \<longrightarrow>
       ne_status e = ''online'' \<and> ne_missed_pings e = 0 \<and> ne_cert e = [] \<and> ne_parent_node e = []) \<and>
    cells d' = cells d \<and> presence_table d' = presence_table d \<and> message_buffer d' = message_buffer d"
proof -
  have "gossip_inv d s"
    using assms(1,2) by (simp add: gossip_inv_def only_new_def split: option.splits)
  then have n: "only_new d d'"
    using gossips.pool_keeps [of d s ps "is" E] by (simp add: gossip_inv_def assms(3))
  then have old: "get_node k d' = Some e" if "get_node k d = Some e" for k e
    using that by (auto simp: only_new_def dest!: spec [of _ k])
  have "fresh_entry e" if "get_node k d = None" "get_node k d' = Some e" for k e
    using n that by (auto simp: only_new_def dest!: spec [of _ k])
  with n old show ?thesis unfolding fresh_entry_def only_new_def by blast
qed

theorem concurrent_gossip_keeps_known_witness:
  "get_node ''n1'' (ns_db (fst (schedule [0, 1, 0, 1] (knows_one, map (handle_gossip_co env0) [gossip0, gossip0]))))
     = Some example_node"
  by (rule conjunct1 [OF concurrent_gossip_keeps_known [OF knows_one_facts(1) refl refl], rule_format]) simp

text \<open>A gossip payload that names one node.\<close>

definition names_node :: "env \<Rightarrow> Packet \<Rightarrow> string \<Rightarrow> string \<Rightarrow> bool" where
  "names_node E p k a \<longleftrightarrow> k \<noteq> [] \<and> a \<noteq> [] \<and> decode_payload E (p_payload p) =
     Inr (PDict [(PStr ''nodes'', PList [PDict [(PStr ''node_id'', PStr k), (PStr ''address'', PStr a)]])])"

lemma last_return: "thenC c (\<lambda>r. case r of Inl e \<Rightarrow> raiseC e | Inr x \<Rightarrow> returnC ()) = c"
  for c :: "unit task"
  by (induction c) (auto split: sum.splits)

lemma names_node_co:
  assumes "names_node E p k a"
  shows "handle_gossip_co E p = bindC (query (db_read (get_node k))) (\<lambda>existing. case existing of
      Some e \<Rightarrow> returnC ()
    | None \<Rightarrow> executed (insert_discovered E (PDict [(PStr ''node_id'', PStr k), (PStr ''address'', PStr a)]) (PStr k) (PStr a)))"
proof -
  have key: "bindM (liftM (Inr (Some k))) (\<lambda>key. db_read (\<lambda>d. case key of None \<Rightarrow> None | Some k \<Rightarrow> get_node k d)) =
      db_read (get_node k)"
    by (simp add: fun_eq_iff io_simps)
  show ?thesis
    using assms unfolding names_node_def handle_gossip_co_def merge_node_co_def add_discovered_co_def
    by (simp add: bindC_def last_return key)
qed

lemma insert_named:
  assumes "ns_open s"
  obtains j now seen added where
    "insert_discovered E (PDict [(PStr ''node_id'', PStr k), (PStr ''address'', PStr a)]) (PStr k) (PStr a) s =
      (Inr (), s\<lparr>w_tick := j, ns_db := upsert_node now (discovered seen added k a ''permanent'' ''closed'') (ns_db s)\<rparr>)"
proof -
  let ?s = "s\<lparr>w_tick := Suc (Suc (w_tick s))\<rparr>"
  let ?n = "discovered (e_time E (w_tick s)) (e_time E (Suc (w_tick s))) k a ''permanent'' ''closed''"
  obtain j now where "upsertM E ?n ?s = (Inr (), s\<lparr>w_tick := j, ns_db := upsert_node now ?n (ns_db s)\<rparr>)"
    by (rule upsertM_apply [of ?s E ?n]) (use assms in auto)
  then show thesis by (intro that) (simp add: insert_discovered_def io_simps)
qed

text \<open>
  of two gossip packets handled at the same time the later one wins.  Two packets name the
  same unknown node with different addresses.  Handled one after the other, the first address
  stays, as the check for an existing entry wants it; when the second handler looks the node
  up before the first one has inserted it, both insert, and the table ends with the second
  address although the node was known by then.
\<close>
theorem gossip_race_overwrites:
  assumes "ns_open s" "get_node k (ns_db s) = None" "names_node E p k a" "names_node E q k b"
  shows "\<exists>e e'. get_node k (ns_db (fst (schedule [0, 0, 0, 0, 0, 1, 1, 1] (s, [handle_gossip_co E p, handle_gossip_co E q])))) = Some e \<and>
    ne_address e = a \<and>
    get_node k (ns_db (fst (schedule [0, 0, 0, 1, 1, 1, 0, 0, 1, 1] (s, [handle_gossip_co E p, handle_gossip_co E q])))) = Some e' \<and>
    ne_address e' = b"
proof -
  obtain j now seen added where A:
    "insert_discovered E (PDict [(PStr ''node_id'', PStr k), (PStr ''address'', PStr a)]) (PStr k) (PStr a) s =
      (Inr (), s\<lparr>w_tick := j, ns_db := upsert_node now (discovered seen added k a ''permanent'' ''closed'') (ns_db s)\<rparr>)"
    by (rule insert_named [OF assms(1)])
  let ?t = "s\<lparr>w_tick := j, ns_db := upsert_node now (discovered seen added k a ''permanent'' ''closed'') (ns_db s)\<rparr>"
  obtain j' now' seen' added' where B:
    "insert_discovered E (PDict [(PStr ''node_id'', PStr k), (PStr ''address'', PStr b)]) (PStr k) (PStr b) ?t =
      (Inr (), ?t\<lparr>w_tick := j', ns_db := upsert_node now' (discovered seen' added' k b ''permanent'' ''closed'') (ns_db ?t)\<rparr>)"
    by (rule insert_named [of ?t]) (use assms(1) in simp)
  note co = names_node_co [OF assms(3)] names_node_co [OF assms(4)] query_def executed_def bindC_def atom_def
    still_open_def db_read_def
  have "ns_db (fst (schedule [0, 0, 0, 0, 0, 1, 1, 1] (s, [handle_gossip_co E p, handle_gossip_co E q]))) = ns_db ?t"
    using assms(1,2) A by (simp add: co get_node_upsert discovered_def)
  moreover have "ns_db (fst (schedule [0, 0, 0, 1, 1, 1, 0, 0, 1, 1] (s, [handle_gossip_co E p, handle_gossip_co E q]))) =
      upsert_node now' (discovered seen' added' k b ''permanent'' ''closed'') (ns_db ?t)"
    using assms(1,2) A B by (simp add: co)
  ultimately show ?thesis
    using assms(2) by (simp add: get_node_upsert discovered_def)
qed

definition names_x :: "string \<Rightarrow> Packet" where
  "names_x a = msg0\<lparr>p_type := PStr ''gossip'', p_payload := PBytes (ex_pack (PDict [(PStr ''nodes'',
     PList [PDict [(PStr ''node_id'', PStr ''x''), (PStr ''address'', PStr a)]])]))\<rparr>"

lemma names_x_node: "a \<noteq> [] \<Longrightarrow> names_node env0 (names_x a) ''x'' a"
  unfolding names_x_def names_node_def
  by (simp add: decode_payload_def ex_unpack_pack del: ex_pack.simps)

theorem gossip_race_overwrites_witness:
  "\<exists>e'. get_node ''x'' (ns_db (fst (schedule [0, 0, 0, 1, 1, 1, 0, 0, 1, 1] (state0,
     [handle_gossip_co env0 (names_x ''a:1''), handle_gossip_co env0 (names_x ''b:2'')])))) = Some e' \<and>
     ne_address e' = ''b:2''"
proof -
  have s: "ns_open state0" "get_node ''x'' (ns_db state0) = None"
    by (simp_all add: state0_def empty_db_def get_node_def)
  have n: "names_node env0 (names_x ''a:1'') ''x'' ''a:1''" "names_node env0 (names_x ''b:2'') ''x'' ''b:2''"
    by (simp_all add: names_x_node)
  show ?thesis using gossip_race_overwrites [OF s n] by blast
qed

section \<open>Delivery under interference\<close>

lemma traced_query:
  assumes "\<And>s. I s \<Longrightarrow> snd (m s) = s" "\<And>h s. I s \<Longrightarrow> G h s s"
    and "\<And>xs s. I s \<Longrightarrow> Q (h @ (s, s) # xs) (fst (m s))"
    and "\<And>xs s. I s \<Longrightarrow> \<not> ns_open s \<Longrightarrow> Q (h @ xs) (Inl ValueError)"
  shows "traced I G Q (query m) h"
proof -
  have "Q (h @ (s, s) # xs) r" if "fst (m s) = r" "I s" for xs r s
    using assms(3) [OF that(2)] that(1) by simp
  then show ?thesis
    using assms(1,2) by (auto simp: query_def traced_simps still_open_def intro: assms(4) split: sum.splits)
qed

lemma traced_all: "traced I G (\<lambda>_ _. True) c h \<Longrightarrow> (\<And>h' r. Q h' r) \<Longrightarrow> traced I G Q c h"
  by (erule traced_mono) simp

text \<open>A step that sends nothing, or hands the signed packet to a connection that the registry had
  under the id of the cell at an earlier step.\<close>

definition confined :: "env \<Rightarrow> Node \<Rightarrow> Packet \<Rightarrow> string \<Rightarrow> (node_state \<times> node_state) list \<Rightarrow> node_state \<Rightarrow> node_state \<Rightarrow> bool" where
  "confined E nd pkt cid h s s' \<longleftrightarrow> w_sent s' = w_sent s \<or>
     (\<exists>conn q b. (\<exists>(t, t') \<in> set h. node_inv nd t \<and> dict_get (ns_conns t) cid = Some conn) \<and>
        transport_sign E nd pkt = Inr q \<and> pack E q = Inr b \<and> w_sent s' = w_sent s @ [(pc_ws conn, b)])"

lemma confined_quiet [simp]: "w_sent s' = w_sent s \<Longrightarrow> confined E nd p cid h s s'"
  by (simp add: confined_def)

lemma confined_send:
  assumes "node_inv nd t" "dict_get (ns_conns t) cid = Some conn" "(t, t') \<in> set h"
  shows "confined E nd p cid h s (snd (send_via E nd conn p s))"
  using assms unfolding confined_def
  by (auto simp: send_via_def conn_send_def io_simps split: sum.splits option.splits)

lemma traced_send_to:
  "traced (node_inv nd) (confined E nd p cid) (\<lambda>_ _. True) (send_to_co E nd cid p) h"
  unfolding send_to_co_def
  by (auto simp: traced_simps registry_apply bindM_apply intro: confined_send split: sum.splits option.splits)

lemma traced_deliver_local:
  assumes "p_to p = PStr (cid @ CHR ''@'' # n)" "CHR ''@'' \<notin> set cid"
  shows "traced (node_inv nd) (confined E nd p cid) (\<lambda>_ _. True) (deliver_local_co E nd p) h"
proof -
  have cb: "confined E nd p cid h s (snd (call_on_message c q s))" for c q h s
    by (simp add: call_on_message_def io_simps split: option.splits)
  have addr: "parse_addr (p_to p) = Inr (Some cid, PStr n)" by (simp only: assms(1) parse_addr_cell [OF assms(2)])
  have tail: "traced (node_inv nd) (confined E nd p cid) (\<lambda>_ _. True) (if sent then returnC q
      else case nd_on_message nd of None \<Rightarrow> returnC q
        | Some cb \<Rightarrow> bindC (atom (call_on_message cb q)) (\<lambda>_. returnC q)) h" for sent q h
    by (auto simp: traced_simps cb split: option.splits sum.splits)
  show ?thesis
    unfolding deliver_local_co_def addr using tail [of False p h]
    by (auto simp: bindC_return traced_bind [of _ _ _ "if _ then _ else _"] tail
        intro!: traced_all [OF traced_send_to] split: sum.splits)
qed

lemma traced_route:
  assumes "p_to p = PStr (cid @ CHR ''@'' # n)" "CHR ''@'' \<notin> set cid"
  shows "traced (node_inv nd) (confined E nd p cid) (\<lambda>_ _. True) (route_co E nd p) h"
proof -
  let ?T = "traced (node_inv nd) (confined E nd p cid)"
  note local = traced_deliver_local [OF assms]
  have addr: "parse_addr (p_to p) = Inr (Some cid, PStr n)" by (simp only: assms(1) parse_addr_cell [OF assms(2)])
  have here: "?T (\<lambda>_ _. True) (bindC (deliver_local_co E nd p) (\<lambda>_. returnC ())) h" for h
    unfolding traced_bind by (rule traced_all [OF local]) (simp split: sum.splits)
  have self: "?T (\<lambda>_. on_value fst) (send_to_node_co E nd (my_id nd) p) h" for h
    unfolding send_to_node_co_def
    by (simp add: traced_bind, rule traced_all [OF local]) (simp split: sum.splits)
  have home: "?T (\<lambda>_ _. True) (bindC (send_to_node_co E nd (my_id nd) p) (\<lambda>(sent, q).
      if sent then returnC () else executed (buffer_packet E c k q))) h" for c k h
    unfolding traced_bind by (rule traced_mono [OF self]) (auto simp: on_value_def split: sum.splits)
  have cell: "?T (\<lambda>_ _. True) (bindC (query (db_read (get_cell cid))) (\<lambda>cell. case cell of
      Some _ \<Rightarrow> bindC (deliver_local_co E nd p) (\<lambda>_. returnC ()) | None \<Rightarrow> returnC ())) h" for h
    unfolding traced_bind
    by (rule traced_query) (auto simp: here io_simps split: sum.splits option.splits)
  have at_home: "pe_home_node_id q = my_id nd \<and> pe_visiting_node_id q = None"
    if "node_inv nd s" "get_presence cid (ns_db s) = Some q" for s q
    using that by (auto simp: node_inv_def on_db_def db_inv_def at_home_only_def get_presence_def dest: tbl_get_SomeD)
  show ?thesis
    unfolding route_co_def addr bindC_return prod.case option.case traced_bind [of _ _ _ "query (db_read (get_presence cid))"]
    by (rule traced_query) (auto simp: cell home io_simps dest: at_home split: sum.splits option.splits)
qed

lemma schedule_inv: "pool_inv I p \<Longrightarrow> pool_inv I (schedule is p)"
  by (induction "is" arbitrary: p) (simp_all add: resume_inv del: pool_inv.simps resume.simps)

text \<open>
  C14: a message for a cell reaches only that cell, under every interleaving.  While a node routes
  a packet addressed to a cell, with any other tasks in any state running in between (peers
  connecting and leaving, other messages, gossip), each step of the routing either sends
  nothing or sends exactly one frame, the packet signed by this node, to the socket of a
  connection that the node's registry had under the id of the cell at an earlier moment of
  the run; that connection belongs to a peer that proved to own the 32-byte key whose
  hexadecimal form is the cell's id.
\<close>
theorem interleaved_message_confined:
  assumes "loop_reach E nd (s, cs)" and "p_to pkt = PStr (cid @ CHR ''@'' # n)" "CHR ''@'' \<notin> set cid"
    and "p0 = (s, cs @ [route_co E nd pkt])"
    and "p = schedule is p0" and "s' = fst (resume (length cs) p)"
  shows "w_sent s' = w_sent (fst p) \<or>
    (\<exists>k conn q b. k < length is \<and> dict_get (ns_conns (fst (schedule (take k is) p0))) cid = Some conn \<and>
       cid = hex (pc_peer_signing_pubkey conn) \<and> length (pc_peer_signing_pubkey conn) = 32 \<and>
       transport_sign E nd pkt = Inr q \<and> pack E q = Inr b \<and>
       w_sent s' = w_sent (fst p) @ [(pc_ws conn, b)])"
proof -
  let ?j = "length cs"
  have inv: "pool_inv (node_inv nd) p0" and j: "?j < length (snd p0)" "snd p0 ! ?j = route_co E nd pkt"
    using loop_inv [OF assms(1)] steady_route [of nd E pkt] by (auto simp: assms(4))
  have "traced (node_inv nd) (confined E nd pkt cid) (\<lambda>_ _. True) (snd p ! ?j) ([] @ steps ?j is p0)"
    unfolding assms(5) by (rule traced_schedule [OF inv j(1)]) (simp add: j(2) traced_route [OF assms(2,3)])
  from traced_resume [OF _ _ this] schedule_inv [OF inv] j(1)
  have "w_sent s' = w_sent (fst p) \<or> confined E nd pkt cid (steps ?j is p0) (fst p) s'"
    unfolding assms(5,6) by auto
  then show ?thesis
    by (fastforce simp: confined_def node_inv_def on_conns_def net_ok_def conn_ok_def dest!: steps_states conns_ok_get)
qed

theorem interleaved_message_confined_witness:
  "\<exists>s' p p0. p0 = (fst two_cells, snd two_cells @ [route_co env0 nd0
       (msg0\<lparr>p_to := PStr (hex (replicate 32 1) @ CHR ''@'' # my_id nd0)\<rparr>)]) \<and>
     p = schedule [2, 2] p0 \<and> s' = fst (resume (length (snd two_cells)) p) \<and>
     (w_sent s' = w_sent (fst p) \<or>
      (\<exists>k conn. k < 2 \<and> dict_get (ns_conns (fst (schedule (take k [2, 2]) p0))) (hex (replicate 32 1)) = Some conn))"
proof -
  have r: "loop_reach env0 nd0 (fst two_cells, snd two_cells)" using two_cells_reach by simp
  have to: "p_to (msg0\<lparr>p_to := PStr (hex (replicate 32 1) @ CHR ''@'' # my_id nd0)\<rparr>) =
      PStr (hex (replicate 32 1) @ CHR ''@'' # my_id nd0)" by simp
  show ?thesis
    by (intro exI conjI, rule refl, rule refl, rule refl)
      (use interleaved_message_confined [OF r to at_not_in_hex refl refl refl, of "[2, 2]"] in auto)
qed

text \<open>A step that hands a frame to a socket.\<close>

definition sends :: "node_state \<Rightarrow> node_state \<Rightarrow> bool" where
  "sends s s' \<longleftrightarrow> w_sent s' \<noteq> w_sent s"

lemma cost_quiet: "(\<And>s. w_sent (snd (m s)) = w_sent s) \<Longrightarrow> cost I sends (\<lambda>_. True) (atom m) 0"
  by (rule cost_atom_free) (simp_all add: sends_def)

lemma cost_query:
  "cost I G (on_value P) (atom m) 0 \<Longrightarrow> (\<And>s. \<not> G s s) \<Longrightarrow> cost I G (on_value P) (query m) 0"
  by (auto simp: query_def bindC_def atom_def still_open_def split: sum.splits if_splits)

lemma cost_quiet_storage:
  "(\<And>s. w_sent (snd (m s)) = w_sent s) \<Longrightarrow> cost I sends (\<lambda>_. True) (query m) 0"
  "(\<And>s. w_sent (snd (m' s)) = w_sent s) \<Longrightarrow> cost I sends (\<lambda>_. True) (executed m') 0"
  by (auto simp: query_def executed_def bindC_def atom_def still_open_def sends_def split: sum.splits if_splits)

lemma cost_send_to [within_intros]: "cost I sends (\<lambda>_. True) (send_to_co E nd n p) 1"
proof -
  have q: "cost I sends (\<lambda>_. True) (atom (conn_get k)) 0" "cost I sends (\<lambda>_. True) (atom (conn_remove k)) 0" for k
    by (intro cost_quiet; simp add: io_simps)+
  show ?thesis
    unfolding send_to_co_def by (rule cost_mono, (rule q within_intros TrueI)+, simp)
qed

lemma cost_deliver_local [within_intros]: "cost I sends (\<lambda>_. True) (deliver_local_co E nd p) 1"
proof -
  have cb: "cost I sends (\<lambda>_. True) (atom (call_on_message c q)) 0" for c q
    by (rule cost_quiet) (simp add: call_on_message_def io_simps split: option.splits)
  show ?thesis
    unfolding deliver_local_co_def by (rule cost_mono, (rule cb within_intros TrueI)+, simp)
qed

lemma cost_route:
  assumes "p_to p = PStr (cid @ CHR ''@'' # n)" "CHR ''@'' \<notin> set cid"
  shows "cost (node_inv nd) sends (\<lambda>_. True) (route_co E nd p) 1"
proof -
  have addr: "parse_addr (p_to p) = Inr (Some cid, PStr n)" by (simp only: assms(1) parse_addr_cell [OF assms(2)])
  have read: "cost (node_inv nd) sends
      (on_value (\<lambda>pr. \<forall>q. pr = Some q \<longrightarrow> pe_home_node_id q = my_id nd \<and> pe_visiting_node_id q = None))
      (query (db_read (get_presence c))) 0" for c
    by (rule cost_query [OF cost_atom_free])
      (auto simp: sends_def io_simps node_inv_def on_db_def db_inv_def at_home_only_def get_presence_def
        dest: tbl_get_SomeD)
  have q: "cost I sends (\<lambda>_. True) (query (db_read (get_cell c))) 0"
    "cost I sends (\<lambda>_. True) (executed (buffer_packet E c h r)) 0" for I c h r
    by (intro cost_quiet_storage; simp add: buffer_packet_def io_simps split: sum.splits)+
  have self: "cost I sends (\<lambda>_. True) (send_to_node_co E nd (my_id nd) r) 1" for I r
    unfolding send_to_node_co_def
    by (simp only: if_True simp_thms) (rule cost_mono, (rule within_intros TrueI)+, simp)
  have home: "cost I sends (\<lambda>_. True) (bindC (send_to_node_co E nd (my_id nd) r) (\<lambda>(sent, r).
      if sent then returnC () else executed (buffer_packet E c h r))) 1" for I r c h
    by (rule cost_mono, (rule q self within_intros TrueI)+, simp)
  have none: "cost I sends (\<lambda>_. True) (bindC (query (db_read (get_cell cid))) (\<lambda>cell. case cell of
      Some _ \<Rightarrow> bindC (deliver_local_co E nd p) (\<lambda>_. returnC ()) | None \<Rightarrow> returnC ())) 1" for I
    by (rule cost_mono, (rule q within_intros TrueI)+, simp)
  have "cost (node_inv nd) sends (\<lambda>_. True) (route_co E nd p) (0 + 1)"
    unfolding route_co_def addr
    by (simp only: bindC_return prod.case option.case, rule cost_bind_value [OF read])
      (auto simp: home none simp del: One_nat_def split: option.splits)
  then show ?thesis by simp
qed

text \<open>
  C15: a message for a cell leaves the node at most once.  Whatever other tasks run between the
  awaits of the routing, under every schedule at most one of its steps hands a frame to a
  socket: no interleaving makes a node deliver a message twice.
\<close>
theorem interleaved_message_at_most_once:
  assumes "loop_reach E nd (s, cs)" and "p_to pkt = PStr (cid @ CHR ''@'' # n)" "CHR ''@'' \<notin> set cid"
  shows "events sends (length cs) is (s, cs @ [route_co E nd pkt]) \<le> 1"
proof (rule cost_events [where I = "node_inv nd"])
  show "pool_inv (node_inv nd) (s, cs @ [route_co E nd pkt])"
    using loop_inv [OF assms(1)] steady_route [of nd E pkt] by auto
qed (simp_all add: cost_route [OF assms(2,3)] sends_def del: One_nat_def)

theorem interleaved_message_at_most_once_witness:
  "events sends (length (snd two_cells)) [2, 2, 2] (fst two_cells, snd two_cells @ [route_co env0 nd0
     (msg0\<lparr>p_to := PStr (hex (replicate 32 1) @ CHR ''@'' # my_id nd0)\<rparr>)]) \<le> 1"
proof -
  have r: "loop_reach env0 nd0 (fst two_cells, snd two_cells)" using two_cells_reach by simp
  have to: "p_to (msg0\<lparr>p_to := PStr (hex (replicate 32 1) @ CHR ''@'' # my_id nd0)\<rparr>) =
      PStr (hex (replicate 32 1) @ CHR ''@'' # my_id nd0)" by simp
  show ?thesis by (rule interleaved_message_at_most_once [OF r to at_not_in_hex])
qed

section \<open>A failed send and a new connection\<close>

lemma serve_conn_waits:
  "\<exists>f k. finallyC (recv_loop_co E h conn frames) c = Await f k"
  by (cases frames)
    (simp_all add: recv_loop_co_def recv_frame_co_def finallyC_def tryC_def bindC_def pause_def atom_def)

text \<open>
  C39: a send that fails takes the peer's new connection off the registry.  A task sends to a peer
  over a connection it looked up; before the send reports that the connection is closed, the
  peer connects again and is registered; the sender then removes the registration by peer id.
  The new connection is served and waits for frames, but the peer counts as not connected.
\<close>
theorem failed_send_unregisters_new_connection:
  assumes "dict_get (ns_conns s) k = Some old" "pc_peer_node_id new = k"
    and "transport_sign E nd pkt = Inr q" "pack E q = Inr b"
    and "e_send E (w_tick s) (pc_ws old) b = Some ConnectionClosed"
  shows "let cs = [bindC (send_to_co E nd k pkt) (\<lambda>_. returnC ()), serve_conn_co E h new frames];
      p1 = schedule [0, 1] (s, cs); p2 = schedule [0, 1, 0, 0] (s, cs) in
    dict_get (ns_conns (fst p1)) k = Some new \<and>
    dict_get (ns_conns (fst p2)) k = None \<and> finished (snd p2 ! 0) \<and> \<not> finished (snd p2 ! 1) \<and>
    w_closed (fst p2) = w_closed s"
proof -
  obtain f g where w: "finallyC (recv_loop_co E h new frames) (atom (conn_remove (pc_peer_node_id new))) = Await f g"
    using serve_conn_waits by blast
  have send: "send_via E nd old pkt t = (Inl ConnectionClosed, t\<lparr>w_tick := Suc (w_tick t)\<rparr>)"
    if "w_tick t = w_tick s" for t
    using assms(3-5) that by (simp add: send_via_def conn_send_def io_simps)
  show ?thesis
    using assms(1,2) w
    by (simp add: Let_def send_to_co_def serve_conn_co_def bindC_def tryC_def atom_def io_simps send dict_get_set)
qed

theorem failed_send_unregisters_new_connection_witness:
  "\<exists>E. let s = state0\<lparr>ns_conns := [(pc_peer_node_id peer1, peer1)]\<rparr>;
      cs = [bindC (send_to_co E nd0 (pc_peer_node_id peer1) msg0) (\<lambda>_. returnC ()),
            serve_conn_co E (dispatch_co E nd0) (peer1\<lparr>pc_ws := 10\<rparr>) []];
      p2 = schedule [0, 1, 0, 0] (s, cs) in
    dict_get (ns_conns (fst p2)) (pc_peer_node_id peer1) = None \<and> \<not> finished (snd p2 ! 1)"
proof -
  let ?E = "env0\<lparr>e_send := \<lambda>t w b. Some ConnectionClosed\<rparr>"
  let ?s = "state0\<lparr>ns_conns := [(pc_peer_node_id peer1, peer1)]\<rparr>"
  have kp: "signing_valid ?E (ni_signing (nd_identity nd0))" by (simp add: signing_valid_def kp0_def nd0_def)
  obtain sg b where q: "transport_sign ?E nd0 msg0 = Inr (typed_packet ''m1'' ''msg'' ''aa@nn'' ''cc@nn'' [1, 2] sg 7 1)"
    "pack ?E (typed_packet ''m1'' ''msg'' ''aa@nn'' ''cc@nn'' [1, 2] sg 7 1) = Inr b"
    unfolding msg0_def by (rule transport_frame [OF _ _ kp msg0_packable [unfolded msg0_def]]) auto
  have get: "dict_get (ns_conns ?s) (pc_peer_node_id peer1) = Some peer1" by (simp add: dict_get_def)
  have closed: "e_send ?E (w_tick ?s) (pc_ws peer1) b = Some ConnectionClosed" by simp
  show ?thesis
    using failed_send_unregisters_new_connection [OF get _ q closed, of "peer1\<lparr>pc_ws := 10\<rparr>" "dispatch_co ?E nd0" "[]"]
    by (intro exI [of _ ?E]) (simp add: Let_def)
qed

end
