(* ===== verification/Nevod_Settle.thy ===== *)
theory Nevod_Settle
  imports Nevod_Loop
begin

text \<open>
  Routing under interference, to its end: while other tasks run at its awaits, the coroutine that
  routes a message for a cell elsewhere returns, and some step of it has handed the message to
  a connection of the visited or the home node, or has stored it after both attempts failed.

  The statements are about the history of the coroutine (\<open>steps\<close>): the states it found and left.
  \<open>leads Q c h\<close> is the logic \<open>traced\<close> for a storage that stays open; each coroutine of the router has
  its lemma, from sending over a registered connection up to \<open>route_co\<close>.
\<close>

section \<open>What a history shows\<close>

type_synonym history = "(node_state \<times> node_state) list"

text \<open>The nodes a presence record names: the visited one, if any, and the home node.\<close>

definition targets :: "PresenceEntry \<Rightarrow> string set" where
  "targets pr = {k. k = pe_home_node_id pr \<or> pe_visiting_node_id pr = Some k \<and> k \<noteq> []}"

text \<open>A frame was handed to the socket of a connection that was registered under one of the ids.\<close>

definition handed_to :: "string set \<Rightarrow> bytes \<Rightarrow> history \<Rightarrow> bool" where
  "handed_to ids b h \<longleftrightarrow> (\<exists>(t, t') \<in> set h. \<exists>(u, u') \<in> set h. \<exists>k \<in> ids. \<exists>conn.
     dict_get (ns_conns u') k = Some conn \<and> w_sent t' = w_sent t @ [(pc_ws conn, b)])"

text \<open>No connection that would have taken the frame was registered under the id all the time.\<close>

definition missed :: "env \<Rightarrow> bytes \<Rightarrow> string \<Rightarrow> history \<Rightarrow> bool" where
  "missed E b k h \<longleftrightarrow> (\<forall>conn. (\<forall>n. e_send E n (pc_ws conn) b = None) \<longrightarrow>
     (\<exists>(t, t') \<in> set h. dict_get (ns_conns t) k \<noteq> Some conn))"

text \<open>One of the packets was stored for the cell.\<close>

definition stored_for :: "env \<Rightarrow> Packet set \<Rightarrow> string \<Rightarrow> string \<Rightarrow> string \<Rightarrow> history \<Rightarrow> bool" where
  "stored_for E ps i cid home h \<longleftrightarrow> (\<exists>(t, t') \<in> set h. \<exists>p \<in> ps. \<exists>now x.
     deserialize_packet E x = Some (p\<lparr>p_v := PInt 1\<rparr>) \<and> ns_db t' = buffer_message now i cid home x (ns_db t))"

lemma history_mono:
  assumes "set h \<subseteq> set h'"
  shows "handed_to ids b h \<Longrightarrow> handed_to ids b h'" "missed E b k h \<Longrightarrow> missed E b k h'"
  using assms unfolding handed_to_def missed_def by blast+

text \<open>What an attempt at one node ends with.\<close>

definition attempt :: "env \<Rightarrow> Packet set \<Rightarrow> bytes \<Rightarrow> string set \<Rightarrow> string \<Rightarrow> history \<Rightarrow> exn + bool \<times> Packet \<Rightarrow> bool" where
  "attempt E ps b ids k h r \<longleftrightarrow> (\<exists>ok p. r = Inr (ok, p) \<and> p \<in> ps \<and> (if ok then handed_to ids b h else missed E b k h))"

lemma attempt_simps [simp]:
  "attempt E ps b ids k h (Inr (ok, p)) \<longleftrightarrow> p \<in> ps \<and> (if ok then handed_to ids b h else missed E b k h)"
  "\<not> attempt E ps b ids k h (Inl e)"
  by (simp_all add: attempt_def)

section \<open>Attempts at one node\<close>

text \<open>Each of the packets becomes the same signed frame, and sockets fail only by being closed.\<close>

definition one_frame :: "env \<Rightarrow> Node \<Rightarrow> Packet set \<Rightarrow> bytes \<Rightarrow> bool" where
  "one_frame E nd ps b \<longleftrightarrow> (\<exists>q \<in> ps. pack E q = Inr b \<and> (\<forall>p \<in> ps. transport_sign E nd p = Inr q)) \<and>
     (\<forall>n w e. e_send E n w b = Some e \<longrightarrow> e = ConnectionClosed)"

lemma send_one_frame:
  assumes "one_frame E nd ps b" "p \<in> ps"
  shows "signed E nd p \<in> ps" "send_via E nd conn p s = ws_send E (pc_ws conn) b s"
  using assms by (auto simp: one_frame_def signed_def send_via_def conn_send_def io_simps)

abbreviation leads :: "(history \<Rightarrow> exn + 'a \<Rightarrow> bool) \<Rightarrow> 'a task \<Rightarrow> history \<Rightarrow> bool" where
  "leads Q c h \<equiv> traced ns_open (\<lambda>_ _ _. True) Q c h"

lemma leads_send_to:
  assumes "one_frame E nd ps b" "p \<in> ps" "k \<in> ids"
  shows "leads (attempt E ps b ids k) (send_to_co E nd k p) h"
proof -
  note f = send_one_frame [OF assms(1,2)]
  have closed: "e = ConnectionClosed" if "e_send E n w b = Some e" for n w e
    using that assms(1) by (auto simp: one_frame_def)
  have none: "missed E b k (h @ [(s, s)])" if "dict_get (ns_conns s) k = None" for s
    using that by (simp add: missed_def)
  have sent: "handed_to ids b (h @ (s, s) # [(t, t')])"
    if "dict_get (ns_conns s) k = Some c" "w_sent t' = w_sent t @ [(pc_ws c, b)]" for s t t' c
    using that assms(3) by (force simp: handed_to_def)
  have failed: "missed E b k (h @ (s, s) # xs)"
    if "dict_get (ns_conns s) k = Some c" "e_send E n (pc_ws c) b = Some e" for s c n e xs
  proof -
    have "conn \<noteq> c" if "\<forall>n. e_send E n (pc_ws conn) b = None" for conn :: PeerConnection
      using that \<open>e_send E n (pc_ws c) b = Some e\<close> by auto
    then show ?thesis using that(1) by (auto simp: missed_def)
  qed
  show ?thesis
    unfolding send_to_co_def
    by (auto simp: traced_simps registry_apply f assms(2) ws_send_def io_simps closed none sent failed
        split: option.split)
qed

lemma traced_of_guar: "guar I G Q c \<Longrightarrow> traced I (\<lambda>_ _ _. True) (\<lambda>_. Q) c h"
  by (induction c arbitrary: h) auto

lemma ns_open_free: "world_free ns_open"
  by (simp add: world_free_def)

lemma auth_expected:
  assumes "k \<noteq> []"
  shows "safe ns_open (on_value (\<lambda>c. pc_peer_node_id c = k)) (do_auth_co E nd ws (Some k))"
  unfolding do_auth_co_def
  by (intro value_intros safe_intros keeps_intros ns_open_free)
    (use assms in \<open>auto dest!: verify_response_SomeD\<close>)

lemma leads_connect_and_send:
  assumes "one_frame E nd ps b" "p \<in> ps" "k \<in> ids" "k \<noteq> []" "missed E b k h"
  shows "leads (attempt E ps b ids k) (connect_and_send_co E nd k a p) h"
proof -
  note f = send_one_frame [OF assms(1,2)]
  have m: "missed E b k h'" if "set h \<subseteq> set h'" for h'
    by (rule history_mono(2) [OF that assms(5)])
  define send where "send c = tryC (bindC (atom (send_via E nd c p)) (\<lambda>_. returnC (True, signed E nd p)))
      (\<lambda>e. returnC (False, signed E nd p))" for c
  have send: "leads (attempt E ps b ids k) (send c) h'"
    if "set h \<subseteq> set h'" "(u, u') \<in> set h'" "dict_get (ns_conns u') k = Some c" for h' u u' c
  proof -
    have H: "handed_to ids b (h' @ [(t, t')])" if "w_sent t' = w_sent t @ [(pc_ws c, b)]" for t t'
      using that \<open>(u, u') \<in> set h'\<close> \<open>dict_get (ns_conns u') k = Some c\<close> assms(3) by (force simp: handed_to_def)
    have M: "missed E b k (h' @ xs)" for xs
      by (rule m) (use \<open>set h \<subseteq> set h'\<close> in auto)
    show ?thesis
      by (simp add: send_def traced_simps f ws_send_def io_simps H M split: option.splits sum.splits)
  qed
  define Q where "Q h' r = (case r of Inl e \<Rightarrow> attempt E ps b ids k h' (Inr (False, p))
      | Inr c \<Rightarrow> leads (attempt E ps b ids k) (send c) h')" for h' and r :: "exn + PeerConnection"
  have raised: "Q h' (Inl e)" if "set h \<subseteq> set h'" for h' e
    using m [OF that] assms(2) by (simp add: Q_def)
  have registered: "Q h' (Inr c)" if "set h \<subseteq> set h'" "(u, u') \<in> set h'" "dict_get (ns_conns u') k = Some c" for h' u u' c
    using send [OF that] by (simp add: Q_def)
  have go: "leads Q (bindC (do_auth_co E nd ws (Some k)) (\<lambda>conn.
      bindC (atom (bindM (conn_add conn) (\<lambda>_. spawn_recv_loop conn))) (\<lambda>_. returnC conn))) h'"
    if "set h \<subseteq> set h'" for h' ws
    unfolding traced_bind [of _ _ _ "do_auth_co E nd ws (Some k)"]
  proof (rule traced_mono [OF traced_of_guar [OF auth_expected [OF assms(4)]]])
    fix h'' and r :: "exn + PeerConnection"
    assume sub: "set h' \<subseteq> set h''" and r: "on_value (\<lambda>c. pc_peer_node_id c = k) r"
    have "set h \<subseteq> set h''" using that sub by blast
    with r show "case r of Inl e \<Rightarrow> Q h'' (Inl e) | Inr conn \<Rightarrow>
        leads Q (bindC (atom (bindM (conn_add conn) (\<lambda>_. spawn_recv_loop conn))) (\<lambda>_. returnC conn)) h''"
      by (auto simp: traced_simps bindM_apply registry_apply dict_get_set intro!: raised registered split: sum.splits)
  qed
  have "leads Q (connect_to_node_co E nd k a) h"
    unfolding connect_to_node_co_def open_and_auth_co_def
    by (subst traced_bind) (auto simp: traced_atom intro!: raised go split: sum.split)
  then show ?thesis
    unfolding connect_and_send_co_def send_def [symmetric]
    by (simp add: traced_try traced_bind, elim traced_mono) (auto simp: Q_def elim!: traced_mono split: sum.splits)
qed

lemma leads_send_to_node:
  assumes "one_frame E nd ps b" "p \<in> ps" "k \<in> ids" "k \<noteq> []" "k \<noteq> my_id nd"
  shows "leads (attempt E ps b ids k) (send_to_node_co E nd k p) h"
proof -
  let ?A = "attempt E ps b ids k"
  let ?rest = "\<lambda>(sent, p). if sent then returnC (True, p) else bindC (query (db_read (get_node k))) (\<lambda>entry. case entry of
      None \<Rightarrow> returnC (False, p)
    | Some e \<Rightarrow> if ne_status e \<noteq> ''online'' then returnC (False, p) else connect_and_send_co E nd k (ne_address e) p)"
  have "leads ?A (?rest (ok, q)) h'" if "?A h' (Inr (ok, q))" for h' ok q
  proof (cases ok)
    case False
    with that have q: "q \<in> ps" "missed E b k h'" by simp_all
    have m: "missed E b k (h' @ xs)" for xs by (rule history_mono(2) [OF _ q(2)]) simp
    have "leads ?A (connect_and_send_co E nd k a q) (h' @ xs)" for a xs
      by (rule leads_connect_and_send [OF assms(1) q(1) assms(3,4) m])
    then show ?thesis
      using False q(1) m unfolding traced_bind
      by (simp add: traced_bind, intro traced_query) (auto simp: io_simps split: option.split)
  qed (use that in simp)
  then have "leads ?A (bindC (send_to_co E nd k p) ?rest) h"
    unfolding traced_bind by (intro traced_mono [OF leads_send_to [OF assms(1-3)]]) (auto simp: attempt_def)
  then show ?thesis using assms(5) by (simp add: send_to_node_co_def case_prod_beta')
qed

section \<open>From the visited node to the home node to the buffer\<close>

lemma traced_any: "(\<And>xs r. Q (h @ xs) r) \<Longrightarrow> traced I (\<lambda>_ _ _. True) Q c h"
proof (induction c arbitrary: h)
  case (Await f k)
  have "traced I (\<lambda>_ _ _. True) Q (k s) (h @ [(s, f s)])" for s
    by (rule Await.IH) (use Await.prems [of "(s, f s) # _"] in auto)
  then show ?case by simp
qed (metis append_Nil2 traced.simps(1))

definition settled :: "env \<Rightarrow> Packet set \<Rightarrow> bytes \<Rightarrow> string \<Rightarrow> string \<Rightarrow> PresenceEntry \<Rightarrow> history \<Rightarrow> exn + unit \<Rightarrow> bool" where
  "settled E ps b i cid pr h r \<longleftrightarrow> r = Inr () \<and> (handed_to (targets pr) b h \<or>
     stored_for E ps i cid (pe_home_node_id pr) h \<and> (\<forall>k \<in> targets pr. missed E b k h))"

definition storable :: "env \<Rightarrow> Packet set \<Rightarrow> string \<Rightarrow> bool" where
  "storable E ps i \<longleftrightarrow> (\<forall>p \<in> ps. p_id p = PStr i \<and>
     (\<exists>x. serialize_packet E p = Inr x \<and> deserialize_packet E x = Some (p\<lparr>p_v := PInt 1\<rparr>)))"

lemma storable_typed:
  assumes "msgpack_ok E" "packable (packet_dict (typed_packet i t f a pl sg ts v))"
  shows "storable E {typed_packet i t f a pl sg ts v} i"
proof -
  obtain x where "serialize_packet E (typed_packet i t f a pl sg ts v) = Inr x"
    "deserialize_packet E x = Some ((typed_packet i t f a pl sg ts v)\<lparr>p_v := PInt 1\<rparr>)"
    by (rule deserialize_serialize [OF assms]) (auto simp: typed_packet_def)
  then show ?thesis by (simp add: storable_def typed_packet_def)
qed

lemma leads_store:
  assumes "storable E ps i" "p \<in> ps" "\<And>k. k \<in> targets pr \<Longrightarrow> missed E b k h"
  shows "leads (settled E ps b i cid pr) (executed (buffer_packet E cid (pe_home_node_id pr) p)) h"
proof -
  from assms(1,2) obtain x where x: "p_id p = PStr i" "serialize_packet E p = Inr x"
    "deserialize_packet E x = Some (p\<lparr>p_v := PInt 1\<rparr>)" by (auto simp: storable_def)
  have m: "missed E b k (h @ xs)" if "k \<in> targets pr" for k xs
    by (rule history_mono(2) [OF _ assms(3) [OF that]]) simp
  have st: "stored_for E ps i cid (pe_home_node_id pr) (h @ (s, s') # xs)"
    if "ns_db s' = buffer_message now i cid (pe_home_node_id pr) x (ns_db s)" for s s' now xs
    using that x(3) assms(2) by (auto simp: stored_for_def)
  show ?thesis
    by (auto simp: executed_def traced_simps still_open_def buffer_packet_def io_simps x settled_def m st)
qed

lemma leads_attempts:
  assumes "one_frame E nd ps b" "storable E ps i" "p \<in> ps" "[] \<notin> targets pr" "my_id nd \<notin> targets pr"
  shows "leads (settled E ps b i cid pr)
    (bindC (case pe_visiting_node_id pr of
              None \<Rightarrow> returnC (False, p)
            | Some v \<Rightarrow> if v = [] then returnC (False, p) else send_to_node_co E nd v p) (\<lambda>(sent, p).
     if sent then returnC ()
     else bindC (send_to_node_co E nd (pe_home_node_id pr) p) (\<lambda>(sent, p).
     if sent then returnC () else executed (buffer_packet E cid (pe_home_node_id pr) p)))) h"
proof -
  let ?S = "settled E ps b i cid pr"
  define elsewhere where "elsewhere h \<longleftrightarrow> (\<forall>k. pe_visiting_node_id pr = Some k \<longrightarrow> k \<noteq> [] \<longrightarrow> missed E b k h)" for h
  have last: "?S h' (Inr ())" if "handed_to (targets pr) b h'" for h'
    using that by (simp add: settled_def)
  have home: "leads ?S (bindC (send_to_node_co E nd (pe_home_node_id pr) q) (\<lambda>(sent, p).
      if sent then returnC () else executed (buffer_packet E cid (pe_home_node_id pr) p))) h'"
    if "q \<in> ps" "elsewhere h'" for q h'
    unfolding traced_bind
  proof (rule traced_mono [OF leads_send_to_node [OF assms(1) \<open>q \<in> ps\<close>]])
    show "pe_home_node_id pr \<in> targets pr" "pe_home_node_id pr \<noteq> []" "pe_home_node_id pr \<noteq> my_id nd"
      using assms(4,5) by (auto simp: targets_def)
    fix h'' and r :: "exn + bool \<times> Packet" assume sub: "set h' \<subseteq> set h''" and r: "attempt E ps b (targets pr) (pe_home_node_id pr) h'' r"
    have "missed E b k h''" if "k \<in> targets pr" "missed E b (pe_home_node_id pr) h''" for k
      using that history_mono(2) [OF sub] \<open>elsewhere h'\<close> by (auto simp: targets_def elsewhere_def)
    with r show "case r of Inl e \<Rightarrow> ?S h'' (Inl e) | Inr x \<Rightarrow> leads ?S ((\<lambda>(sent, p).
        if sent then returnC () else executed (buffer_packet E cid (pe_home_node_id pr) p)) x) h''"
      by (auto simp: attempt_def last intro!: leads_store [OF assms(2)])
  qed
  let ?F = "\<lambda>h r. \<exists>ok q. r = Inr (ok, q) \<and> q \<in> ps \<and> (if ok then handed_to (targets pr) b h else elsewhere h)"
  have first: "leads ?F
      (case pe_visiting_node_id pr of None \<Rightarrow> returnC (False, p)
       | Some v \<Rightarrow> if v = [] then returnC (False, p) else send_to_node_co E nd v p) h"
  proof (cases "\<exists>v. pe_visiting_node_id pr = Some v \<and> v \<noteq> []")
    case True
    then obtain v where v: "pe_visiting_node_id pr = Some v" "v \<noteq> []" by blast
    then have "v \<in> targets pr" "v \<noteq> my_id nd" using assms(5) by (auto simp: targets_def)
    then have "leads ?F (send_to_node_co E nd v p) h"
      by (intro traced_mono [OF leads_send_to_node [OF assms(1,3) _ v(2)]]) (auto simp: attempt_def elsewhere_def v)
    with v show ?thesis by simp
  next
    case False
    then show ?thesis using assms(3) by (auto simp: elsewhere_def split: option.split)
  qed
  show ?thesis
    unfolding traced_bind [of _ _ _ "case pe_visiting_node_id pr of None \<Rightarrow> _ | Some v \<Rightarrow> _ v"]
    by (rule traced_mono [OF first]) (auto simp: last home)
qed

lemma leads_route:
  assumes "one_frame E nd ps b" "storable E ps i" "p \<in> ps" "[] \<notin> targets pr" "my_id nd \<notin> targets pr"
    and "p_to p = PStr (cid @ CHR ''@'' # n)" "CHR ''@'' \<notin> set cid"
  shows "leads (\<lambda>h r. get_presence cid (ns_db (fst (hd h))) = Some pr \<longrightarrow> settled E ps b i cid pr h r) (route_co E nd p) []"
proof -
  have addr: "parse_addr (p_to p) = Inr (Some cid, PStr n)" by (simp only: assms(6) parse_addr_cell [OF assms(7)])
  show ?thesis
    unfolding route_co_def addr bindC_return prod.case option.case traced_bind [of _ _ _ "query (db_read (get_presence cid))"]
  proof (rule traced_query)
    fix xs and s :: node_state assume s: "ns_open s"
    let ?Q = "\<lambda>h r. get_presence cid (ns_db (fst (hd h))) = Some pr \<longrightarrow> settled E ps b i cid pr h r"
    show "case fst (db_read (get_presence cid) s) of Inl e \<Rightarrow> ?Q ([] @ (s, s) # xs) (Inl e) | Inr x \<Rightarrow> leads ?Q
        (case x of None \<Rightarrow> bindC (query (db_read (get_cell cid))) (\<lambda>cell. case cell of
            Some _ \<Rightarrow> bindC (deliver_local_co E nd p) (\<lambda>_. returnC ()) | None \<Rightarrow> returnC ())
         | Some pr \<Rightarrow> bindC (case pe_visiting_node_id pr of None \<Rightarrow> returnC (False, p)
              | Some v \<Rightarrow> if v = [] then returnC (False, p) else send_to_node_co E nd v p) (\<lambda>(sent, pkt).
            if sent then returnC () else bindC (send_to_node_co E nd (pe_home_node_id pr) pkt) (\<lambda>(sent, pkt).
            if sent then returnC () else executed (buffer_packet E cid (pe_home_node_id pr) pkt)))) ([] @ (s, s) # xs)"
    proof (cases "get_presence cid (ns_db s) = Some pr")
      case True
      then show ?thesis
        using s traced_mono [OF leads_attempts [OF assms(1-5)]] by (simp add: db_read_apply)
    next
      case False
      then show ?thesis using s by (auto simp: db_read_apply intro!: traced_any)
    qed
  qed (auto simp: db_read_apply)
qed

section \<open>Tasks that leave the storage open\<close>

lemma steady_open_calls [keeps_intros]:
  "keeps ns_open (conn_add c)" "keeps ns_open (conn_remove k)" "keeps ns_open (conn_get k)" "keeps ns_open conn_all"
  "keeps ns_open (spawn_recv_loop c)" "keeps ns_open (db_read f)" "keeps ns_open (db_write g)"
  "keeps ns_open (call_on_message cb p)" "keeps ns_open gossip_start"
  by (auto simp: keeps_def io_simps call_on_message_def gossip_start_def split: option.splits)

lemma keeps_open_storage [keeps_intros]:
  "keeps ns_open (db_write_now E w)" "keeps ns_open (db_read_now E f)" "keeps ns_open (upsertM E e)"
  "keeps ns_open (buffer_packet E c h p)" "keeps ns_open (remove_by v)" "keeps ns_open (upsert_seen_now E i a ty ac)"
  "keeps ns_open (insert_discovered E n v x)"
  unfolding db_write_now_def db_read_now_def upsertM_def buffer_packet_def remove_by_def upsert_seen_now_def
    insert_discovered_def
  by (intro keeps_intros ns_open_free)+

lemma steady_open_send [safe_intros]:
  "steady ns_open (connect_to_node_co E nd k a)" "steady ns_open (send_to_co E nd k p)"
  "steady ns_open (deliver_local_co E nd p)" "steady ns_open (transport_connect_co E nd a)"
  unfolding connect_to_node_co_def open_and_auth_co_def do_auth_co_def send_to_co_def deliver_local_co_def
    transport_connect_co_def
  by (intro safe_intros keeps_intros ns_open_free TrueI)+

lemma steady_open_route [safe_intros]: "steady ns_open (route_co E nd p)"
  unfolding route_co_def send_to_node_co_def connect_and_send_co_def
  by (intro safe_intros keeps_intros ns_open_free TrueI) (auto intro!: safe_intros keeps_intros ns_open_free split: pyval.splits)

lemma steady_open_gossip [safe_intros]:
  "steady ns_open (flush_buffer_co E nd c)" "steady ns_open (gossip_loop_co E nd n)" "steady ns_open (handle_gossip_co E p)"
  unfolding flush_buffer_co_def flush_message_co_def gossip_loop_co_def gossip_turn_co_def gossip_round_co_def Let_def
    ping_node_co_def exchange_co_def handle_gossip_co_def merge_node_co_def add_discovered_co_def
  by (intro safe_intros keeps_intros ns_open_free TrueI)+

lemma steady_open_dispatch [safe_intros]: "steady ns_open (dispatch_co E nd p conn)"
proof -
  have a: "keeps ns_open (handle_ping E nd p conn)" "keeps ns_open (handle_pong E p)"
    unfolding handle_ping_def handle_pong_def by (intro keeps_intros ns_open_free)+
  have "steady ns_open (log_slice_co v)" for v
    unfolding log_slice_co_def by (intro safe_intros TrueI)
  moreover have "steady ns_open (handle_node_leaving_co p)"
    unfolding handle_node_leaving_co_def log_slice_co_def
    by (auto intro!: safe_intros keeps_intros split: pyval.splits)
  ultimately show ?thesis
    unfolding dispatch_co_def Let_def handle_node_remove_co_def handle_presence_query_co_def handle_cell_register_co_def
    by (intro safe_intros keeps_intros a ns_open_free TrueI)
qed

text \<open>Every task but the one that stops the node leaves the storage open.\<close>

lemma task_open:
  assumes "t \<noteq> Stopping"
  shows "steady ns_open (task_co E nd t)"
proof -
  have loop: "steady ns_open (recv_loop_co E (dispatch_co E nd) conn frames)" for conn frames
    unfolding recv_loop_co_def recv_frame_co_def by (intro safe_intros keeps_intros TrueI)
  have auth: "steady ns_open (do_auth_co E nd ws x)" for ws x
    unfolding do_auth_co_def by (intro safe_intros keeps_intros ns_open_free TrueI)
  have "steady ns_open (handle_incoming_co E nd (dispatch_co E nd) ws frames)" for ws frames
    unfolding handle_incoming_co_def serve_conn_co_def
    by (rule guar_then, rule guar_mono [OF auth], rule guar_sum) (intro safe_intros keeps_intros loop ns_open_free TrueI)+
  moreover have "keeps ns_open (transport_start E h p)" for h p
    by (simp add: keeps_def transport_start_def io_simps split: option.splits)
  ultimately show ?thesis
    using assms unfolding node_start_def
    by (cases t) (auto simp: node_join_co_def send_message_co_def Let_def register_cell_locally_co_def node_start_def
        intro!: safe_intros keeps_intros loop ns_open_free)
qed

section \<open>Routing settles\<close>

lemma steps_first:
  "j < length (snd p) \<Longrightarrow> \<not> finished (snd p ! j) \<Longrightarrow> fst (hd (steps j (j # is) p)) = fst p"
  by simp

text \<open>
  C24: routing ends, with the message sent or kept.  While other tasks run at its awaits, changing
  the registry and the database as they like but leaving the storage open, a node routes a
  packet of the declared types to a cell whose presence record names other nodes.  Once the
  event loop has resumed the routing often enough (31 awaits at most: the query of the
  presence record, an attempt at the visited and one at the home node with registry, socket,
  query, dialling and authentication, the insertion), it has returned without an error, and
  one of its steps has either handed the packet, signed by this node, to a connection that was
  registered under the id of the visited or of the home node, or has stored the packet for the
  cell.  It stores only when both attempts failed: neither of the two nodes had, all the
  while, a connection registered that would have taken the frame.
\<close>
theorem routing_settles:
  assumes "node_ok E nd" and "pkt = typed_packet i t f (cid @ CHR ''@'' # n) pl sg ts v" "CHR ''@'' \<notin> set cid"
    and "packable (packet_dict pkt)" "transport_sign E nd pkt = Inr q" "pack E q = Inr b"
    and "\<And>k w e. e_send E k w b = Some e \<Longrightarrow> e = ConnectionClosed"
    and "ns_open s" "\<forall>c \<in> set cs. steady ns_open c"
    and "p0 = (s, cs @ [route_co E nd pkt])" "h = steps (length cs) is p0" "31 \<le> count_list is (length cs)"
    and "get_presence cid (ns_db (fst (hd h))) = Some pr" "[] \<notin> targets pr" "my_id nd \<notin> targets pr"
  shows "snd (schedule is p0) ! length cs = returnC () \<and>
    (handed_to (targets pr) b h \<or>
     stored_for E {pkt, q} i cid (pe_home_node_id pr) h \<and> (\<forall>k \<in> targets pr. missed E b k h))"
proof -
  let ?j = "length cs"
  have ok: "msgpack_ok E" "ed25519_ok E" "signing_valid E (ni_signing (nd_identity nd))"
    using assms(1) by (auto simp: node_ok_def)
  from signed_frame [OF ok assms(4) [unfolded assms(2)]] assms(5) obtain sg' where
    q: "q = typed_packet i t f (cid @ CHR ''@'' # n) pl sg' ts v" "packable (packet_dict q)"
    unfolding transport_sign_def assms(2) by (metis sum.inject(2))
  have "transport_sign E nd q = Inr q"
    using assms(5) unfolding assms(2) q(1) by (simp add: transport_sign_def sign_packet_def sign_data_strs typed_packet_def)
  then have one: "one_frame E nd {pkt, q} b"
    using assms(5-7) by (auto simp: one_frame_def)
  have st: "storable E {pkt, q} i"
    using storable_typed [OF ok(1) assms(4) [unfolded assms(2)]] storable_typed [OF ok(1) q(2) [unfolded q(1)]]
    by (simp add: storable_def assms(2) q(1))
  have to: "p_to pkt = PStr (cid @ CHR ''@'' # n)" by (simp add: assms(2) typed_packet_def)
  have inv: "pool_inv ns_open p0" and j: "?j < length (snd p0)" "snd p0 ! ?j = route_co E nd pkt"
    using assms(8,9) steady_open_route [of E nd pkt] by (auto simp: assms(10))
  have "leads (\<lambda>h r. get_presence cid (ns_db (fst (hd h))) = Some pr \<longrightarrow> settled E {pkt, q} b i cid pr h r)
      (snd (schedule is p0) ! ?j) ([] @ h)"
    unfolding assms(11)
    by (rule traced_schedule [OF inv j(1)])
      (unfold j(2), rule leads_route [OF one st _ assms(14,15) to assms(3)], simp)
  moreover have "finished (snd (schedule is p0) ! ?j)"
    by (rule resumed_enough [OF j(1) _ assms(12)]) (simp add: j(2) within_route)
  ultimately obtain r where "snd (schedule is p0) ! ?j = Done r" "settled E {pkt, q} b i cid pr h r"
    using traced_finished assms(13) by fastforce
  then show ?thesis by (simp add: settled_def)
qed

theorem routing_settles_witness:
  "\<exists>q b h. transport_sign env0 nd0 msg0 = Inr q \<and> pack env0 q = Inr b \<and>
    h = steps 1 (replicate 31 1) (at_home ''hh'', [task_co env0 nd0 (Joining ''x:1''), route_co env0 nd0 msg0]) \<and>
    (handed_to {''hh''} b h \<or> stored_for env0 {msg0, q} ''m1'' ''cc'' ''hh'' h)"
proof -
  let ?pr = "\<lparr>pe_cell_id = ''cc'', pe_home_node_id = ''hh'', pe_visiting_node_id = None, pe_updated_at = 1\<rparr>"
  let ?cs = "[task_co env0 nd0 (Joining ''x:1'')]" and ?s = "at_home ''hh''"
  let ?h = "steps (length ?cs) (replicate 31 1) (?s, ?cs @ [route_co env0 nd0 msg0])"
  have kp: "signing_valid env0 (ni_signing (nd_identity nd0))" by (simp add: signing_valid_def kp0_def nd0_def)
  obtain sg b where q: "transport_sign env0 nd0 msg0 = Inr (typed_packet ''m1'' ''msg'' ''aa@nn'' ''cc@nn'' [1, 2] sg 7 1)"
    "pack env0 (typed_packet ''m1'' ''msg'' ''aa@nn'' ''cc@nn'' [1, 2] sg 7 1) = Inr b"
    unfolding msg0_def by (rule transport_frame [OF _ _ kp msg0_packable [unfolded msg0_def]]) auto
  have m: "msg0 = typed_packet ''m1'' ''msg'' ''aa@nn'' (''cc'' @ CHR ''@'' # ''nn'') [1, 2] [] 7 1" by (simp add: msg0_def)
  have "\<not> finished (route_co env0 nd0 msg0)"
    by (simp add: route_co_def query_def bindC_def atom_def m typed_packet_def)
  then have "fst (hd ?h) = ?s"
    using steps_first [of 1 "(?s, ?cs @ [route_co env0 nd0 msg0])" "replicate 30 1"] by (simp add: numeral_eq_Suc)
  then have pr: "get_presence ''cc'' (ns_db (fst (hd ?h))) = Some ?pr" by simp
  have t: "targets ?pr = {''hh''}" by (auto simp: targets_def)
  have "handed_to (targets ?pr) b ?h \<or> stored_for env0 {msg0, typed_packet ''m1'' ''msg'' ''aa@nn'' ''cc@nn'' [1, 2] sg 7 1}
      ''m1'' ''cc'' (pe_home_node_id ?pr) ?h \<and> (\<forall>k \<in> targets ?pr. missed env0 b k ?h)"
    by (rule conjunct2 [OF routing_settles [OF node_ok_env0 m _ msg0_packable q _ at_home_simps(1) _ refl refl _ pr]])
      (simp_all add: t short_not_nd0 [symmetric] task_open numeral_eq_Suc del: task_co.simps)
  with q t show ?thesis by auto
qed

end
