(* ===== verification/Nevod_Pdf.thy ===== *)
theory Nevod_Pdf
  imports Complex_Main Nevod_Table
begin

text \<open>
  The concept document (\<^verbatim>\<open>generate_zki_v2.py\<close>): a script that composes a PDF page by page from
  paragraphs, spaces, rules and nested tables and hands the list to the layout library.  The
  model has the choice of the fonts, the palette, the styles, the functions that build boxes
  and cards, and the whole list of elements in the order of the script.

  The library's element classes are the constructors of \<open>flowable\<close>, with the arguments the script
  passes.  The page size and the millimetre come from the library, the files that exist and
  the joining of paths from the operating system: they are parameters (\<open>layout\<close>, \<open>find_font\<close>).
  Lengths are exact rational numbers.  A text that is plain ASCII is itself, any other literal
  is \<open>Lit l k\<close>, the literal number \<open>k\<close> (from 0) that starts on line \<open>l\<close> of the script, with the
  lines that continue it: the words do not matter for what is shown, their places do.

  Shown: whatever fonts are installed, every style and table command names a font that is
  registered or built in; and on an A4 page every table has as many cells in each row as it
  has columns, every nested table fits its cell inside the padding, every top-level table
  stays between the margins, and everything else fits the frame of the page, which the
  library makes 6 points narrower than the margins on each side.
\<close>

section \<open>Fonts\<close>

definition FONT_DIRS :: "string list" where
  "FONT_DIRS = [''C:'' @ [CHR 0x5C] @ ''Windows'' @ [CHR 0x5C] @ ''Fonts'', ''/usr/share/fonts/truetype/dejavu'']"

definition find_font :: "(string \<Rightarrow> string \<Rightarrow> string) \<Rightarrow> (string \<Rightarrow> bool) \<Rightarrow> string \<Rightarrow> string option" where
  "find_font join exists n = find exists (map (\<lambda>d. join d n) FONT_DIRS)"

text \<open>\<^verbatim>\<open>a or b\<close> of two results of \<^verbatim>\<open>find_font\<close>; an empty path counts as nothing found.\<close>

definition or_font :: "string option \<Rightarrow> string option \<Rightarrow> string option" where
  "or_font a b = (case a of Some p \<Rightarrow> if p \<noteq> [] then a else b | None \<Rightarrow> b)"

definition found :: "string option \<Rightarrow> bool" where
  "found a \<longleftrightarrow> a \<noteq> None \<and> a \<noteq> Some []"

definition regular_font :: "(string \<Rightarrow> string \<Rightarrow> string) \<Rightarrow> (string \<Rightarrow> bool) \<Rightarrow> string option" where
  "regular_font join exists =
     or_font (find_font join exists ''DejaVuSans.ttf'') (find_font join exists ''arial.ttf'')"

definition bold_font :: "(string \<Rightarrow> string \<Rightarrow> string) \<Rightarrow> (string \<Rightarrow> bool) \<Rightarrow> string option" where
  "bold_font join exists =
     or_font (find_font join exists ''DejaVuSans-Bold.ttf'') (find_font join exists ''arialbd.ttf'')"

text \<open>The calls of \<^verbatim>\<open>pdfmetrics.registerFont\<close>: names with their files.\<close>

definition registered_fonts ::
  "(string \<Rightarrow> string \<Rightarrow> string) \<Rightarrow> (string \<Rightarrow> bool) \<Rightarrow> (string \<times> string) list" where
  "registered_fonts join exists =
     (let r = regular_font join exists; b = bold_font join exists in
      (if found r then [(''R'', the r)] else []) @ (if found b then [(''B'', the b)] else []))"

definition F_name :: "(string \<Rightarrow> string \<Rightarrow> string) \<Rightarrow> (string \<Rightarrow> bool) \<Rightarrow> string" where
  "F_name join exists = (if found (regular_font join exists) then ''R'' else ''Helvetica'')"

definition FB_name :: "(string \<Rightarrow> string \<Rightarrow> string) \<Rightarrow> (string \<Rightarrow> bool) \<Rightarrow> string" where
  "FB_name join exists = (if found (bold_font join exists) then ''B'' else ''Helvetica-Bold'')"

section \<open>Palette and page\<close>

datatype colour = HexColor string | White

definition col_BG :: colour where
  "col_BG = HexColor ''#0D1117''"

definition col_BG2 :: colour where
  "col_BG2 = HexColor ''#1E293B''"

definition col_ACC :: colour where
  "col_ACC = HexColor ''#3B82F6''"

definition col_GRN :: colour where
  "col_GRN = HexColor ''#10B981''"

definition col_AMB :: colour where
  "col_AMB = HexColor ''#F59E0B''"

definition col_PUR :: colour where
  "col_PUR = HexColor ''#8B5CF6''"

definition col_LITE :: colour where
  "col_LITE = HexColor ''#F0F4FF''"

definition col_GLITE :: colour where
  "col_GLITE = HexColor ''#ECFDF5''"

definition col_ALITE :: colour where
  "col_ALITE = HexColor ''#FFFBEB''"

definition col_PLITE :: colour where
  "col_PLITE = HexColor ''#F5F3FF''"

definition col_MID :: colour where
  "col_MID = HexColor ''#64748B''"

definition col_BRD :: colour where
  "col_BRD = HexColor ''#CBD5E1''"

definition col_WHT :: colour where
  "col_WHT = White"

lemmas palette = col_BG_def col_BG2_def col_ACC_def col_GRN_def col_AMB_def col_PUR_def
  col_LITE_def col_GLITE_def col_ALITE_def col_PLITE_def col_MID_def col_BRD_def col_WHT_def

record layout =
  ly_W :: rat
  ly_H :: rat
  ly_mm :: rat
  ly_F :: string
  ly_FB :: string

definition margin :: "layout \<Rightarrow> rat" where
  "margin ly = 18 * ly_mm ly"

abbreviation text_w :: "layout \<Rightarrow> rat" where
  "text_w ly \<equiv> ly_W ly - 2 * margin ly"

section \<open>Styles\<close>

datatype alignment = TA_LEFT | TA_CENTER | TA_JUSTIFY
datatype attr = AFont string | ANum rat | ACol colour | AAlign alignment

record pstyle =
  ps_name :: string
  ps_attrs :: "(string \<times> attr) list"

abbreviation font :: "string \<Rightarrow> string \<times> attr" where "font f \<equiv> (''fontName'', AFont f)"
abbreviation fsize :: "rat \<Rightarrow> string \<times> attr" where "fsize x \<equiv> (''fontSize'', ANum x)"
abbreviation lead :: "rat \<Rightarrow> string \<times> attr" where "lead x \<equiv> (''leading'', ANum x)"
abbreviation tcol :: "colour \<Rightarrow> string \<times> attr" where "tcol c \<equiv> (''textColor'', ACol c)"
abbreviation align :: "alignment \<Rightarrow> string \<times> attr" where "align a \<equiv> (''alignment'', AAlign a)"
abbreviation before :: "rat \<Rightarrow> string \<times> attr" where "before x \<equiv> (''spaceBefore'', ANum x)"
abbreviation after :: "rat \<Rightarrow> string \<times> attr" where "after x \<equiv> (''spaceAfter'', ANum x)"
abbreviation indent :: "rat \<Rightarrow> string \<times> attr" where "indent x \<equiv> (''leftIndent'', ANum x)"

text \<open>\<^verbatim>\<open>S(n, **kw)\<close>: the defaults, updated with the keyword arguments.\<close>

definition style_S :: "layout \<Rightarrow> string \<Rightarrow> (string \<times> attr) list \<Rightarrow> pstyle" where
  "style_S ly n kw = \<lparr>ps_name = n, ps_attrs = fold (\<lambda>(k, v). dict_set k v) kw
     [font (ly_F ly), fsize 10, lead 15, tcol col_BG]\<rparr>"

definition sH0 :: "layout \<Rightarrow> pstyle" where
  "sH0 ly = style_S ly ''h0'' [font (ly_FB ly), fsize 30, lead 38, tcol col_WHT, align TA_CENTER]"

definition sH0s :: "layout \<Rightarrow> pstyle" where
  "sH0s ly = style_S ly ''h0s'' [font (ly_F ly), fsize 11, lead 16, tcol (HexColor ''#BFD7FF''), align TA_CENTER]"

definition sH0d :: "layout \<Rightarrow> pstyle" where
  "sH0d ly = style_S ly ''h0d'' [font (ly_F ly), fsize 8, lead 12, tcol (HexColor ''#64748B''), align TA_CENTER]"

definition sH1 :: "layout \<Rightarrow> pstyle" where
  "sH1 ly = style_S ly ''h1'' [font (ly_FB ly), fsize 16, lead 21, tcol col_ACC, before 4]"

definition sH2 :: "layout \<Rightarrow> pstyle" where
  "sH2 ly = style_S ly ''h2'' [font (ly_FB ly), fsize 11, lead 15, tcol col_BG, before 3]"

definition sH2w :: "layout \<Rightarrow> pstyle" where
  "sH2w ly = style_S ly ''h2w'' [font (ly_FB ly), fsize 12, lead 16, tcol col_WHT]"

definition sH2p :: "layout \<Rightarrow> pstyle" where
  "sH2p ly = style_S ly ''h2p'' [font (ly_FB ly), fsize 11, lead 15, tcol col_PUR]"

definition sBody :: "layout \<Rightarrow> pstyle" where
  "sBody ly = style_S ly ''bd'' [font (ly_F ly), fsize 10, lead 15, tcol col_BG, align TA_JUSTIFY]"

definition sBodyW :: "layout \<Rightarrow> pstyle" where
  "sBodyW ly = style_S ly ''bw'' [font (ly_F ly), fsize 10, lead 15, tcol col_WHT, align TA_JUSTIFY]"

definition sMuted :: "layout \<Rightarrow> pstyle" where
  "sMuted ly = style_S ly ''mu'' [font (ly_F ly), fsize 9, lead 13, tcol col_MID]"

definition sMutedC :: "layout \<Rightarrow> pstyle" where
  "sMutedC ly = style_S ly ''mc'' [font (ly_F ly), fsize 9, lead 13, tcol col_MID, align TA_CENTER]"

definition sBul :: "layout \<Rightarrow> pstyle" where
  "sBul ly = style_S ly ''bl'' [font (ly_F ly), fsize 10, lead 15, tcol col_BG, indent 12, after 2]"

definition sBulW :: "layout \<Rightarrow> pstyle" where
  "sBulW ly = style_S ly ''bW'' [font (ly_F ly), fsize 10, lead 15, tcol col_WHT, indent 12, after 2]"

definition sBig :: "layout \<Rightarrow> pstyle" where
  "sBig ly = style_S ly ''Bi'' [font (ly_FB ly), fsize 19, lead 25, tcol col_ACC, align TA_CENTER]"

definition sBigP :: "layout \<Rightarrow> pstyle" where
  "sBigP ly = style_S ly ''BiP'' [font (ly_FB ly), fsize 19, lead 25, tcol col_PUR, align TA_CENTER]"

definition sBigS :: "layout \<Rightarrow> pstyle" where
  "sBigS ly = style_S ly ''Bs'' [font (ly_F ly), fsize 9, lead 13, tcol col_MID, align TA_CENTER]"

definition sFooter :: "layout \<Rightarrow> pstyle" where
  "sFooter ly = style_S ly ''fo'' [font (ly_F ly), fsize 8, lead 11, tcol col_MID, align TA_CENTER]"

definition sDOI :: "layout \<Rightarrow> pstyle" where
  "sDOI ly = style_S ly ''doi'' [font (ly_F ly), fsize 8, lead 11, tcol (HexColor ''#94A3B8''), align TA_CENTER]"

definition sTag :: "layout \<Rightarrow> pstyle" where
  "sTag ly = style_S ly ''tg'' [font (ly_FB ly), fsize 9, lead 12, tcol col_WHT, align TA_CENTER]"

definition sCode :: "layout \<Rightarrow> pstyle" where
  "sCode ly = style_S ly ''cd'' [font (ly_F ly), fsize (17 / 2), lead 13, tcol (HexColor ''#E2E8F0''), indent 8]"

lemmas styles = sH0_def sH0s_def sH0d_def sH1_def sH2_def sH2w_def sH2p_def sBody_def
  sBodyW_def sMuted_def sMutedC_def sBul_def sBulW_def sBig_def sBigP_def sBigS_def sFooter_def sDOI_def sTag_def sCode_def

section \<open>Elements\<close>

datatype words = Str string | Lit nat nat | Cat "words list"

datatype tval = VNum rat | VCol colour | VStr string | VNums "rat list" | VGrid rat colour | VCols "colour list"

text \<open>A command of \<^verbatim>\<open>TableStyle\<close>: name, first and last cell, argument.\<close>

datatype tcmd = TCmd string "int \<times> int" "int \<times> int" tval

abbreviation whole :: "string \<Rightarrow> tval \<Rightarrow> tcmd" where
  "whole n v \<equiv> TCmd n (0, 0) (-1, -1) v"

datatype flowable =
    Para words pstyle
  | Spacer rat rat
  | HRFlowable string rat colour rat rat
  | RTable "flowable list list" "rat list" "tcmd list"
  | KeepTogether "flowable list"
  | Raw words

definition bul :: "layout \<Rightarrow> words \<Rightarrow> pstyle option \<Rightarrow> flowable" where
  "bul ly t st = Para (Cat [Lit 75 0, t]) (case st of Some x \<Rightarrow> x | None \<Rightarrow> sBul ly)"

definition bulw :: "layout \<Rightarrow> words \<Rightarrow> flowable" where
  "bulw ly t = Para (Cat [Lit 76 0, t]) (sBulW ly)"

definition sp :: "layout \<Rightarrow> rat \<Rightarrow> flowable" where
  "sp ly h = Spacer 1 (h * ly_mm ly)"

definition hr :: "layout \<Rightarrow> colour \<Rightarrow> rat \<Rightarrow> flowable" where
  "hr ly c th = HRFlowable ''100%'' th c (2 * ly_mm ly) (2 * ly_mm ly)"

abbreviation hr_default :: "layout \<Rightarrow> flowable" where
  "hr_default ly \<equiv> hr ly col_BRD (1 / 2)"

definition dbox :: "layout \<Rightarrow> flowable list \<Rightarrow> colour \<Rightarrow> rat \<Rightarrow> flowable" where
  "dbox ly items bg pad = RTable (map (\<lambda>i. [i]) items) [text_w ly]
     [whole ''BACKGROUND'' (VCol bg), whole ''TOPPADDING'' (VNum pad), whole ''BOTTOMPADDING'' (VNum 6),
      whole ''LEFTPADDING'' (VNum pad), whole ''RIGHTPADDING'' (VNum pad),
      whole ''ROUNDEDCORNERS'' (VNums [8, 8, 8, 8])]"

definition lbox :: "layout \<Rightarrow> words \<Rightarrow> colour \<Rightarrow> pstyle option \<Rightarrow> flowable" where
  "lbox ly t bg st = RTable [[Para t (case st of Some x \<Rightarrow> x | None \<Rightarrow> sBody ly)]] [text_w ly]
     [whole ''BACKGROUND'' (VCol bg), whole ''TOPPADDING'' (VNum 9), whole ''BOTTOMPADDING'' (VNum 9),
      whole ''LEFTPADDING'' (VNum 13), whole ''RIGHTPADDING'' (VNum 13),
      whole ''ROUNDEDCORNERS'' (VNums [6, 6, 6, 6])]"

definition card :: "layout \<Rightarrow> words \<Rightarrow> words \<Rightarrow> words \<Rightarrow> words list \<Rightarrow> colour \<Rightarrow> colour \<Rightarrow> flowable" where
  "card ly icon title subtitle items bg tc =
     (let cw = text_w ly / 2 - 4 * ly_mm ly;
          rows = [[Para (Cat [icon, Str ''  <b>'', title, Str ''</b>''])
                     (style_S ly ''_t'' [font (ly_FB ly), fsize 11, lead 15, tcol tc])]]
            @ [[Para subtitle (style_S ly ''_s'' [font (ly_F ly), fsize 9, lead 12, tcol col_MID])]]
            @ [[sp ly 1]]
            @ map (\<lambda>i. [Para (Cat [Lit 111 0, i])
                (style_S ly ''_i'' [font (ly_F ly), fsize 9, lead 13, tcol col_BG, indent 6, after 2])]) items in
      RTable rows [cw]
        [whole ''BACKGROUND'' (VCol bg), whole ''TOPPADDING'' (VNum 9), whole ''BOTTOMPADDING'' (VNum 9),
         whole ''LEFTPADDING'' (VNum 10), whole ''RIGHTPADDING'' (VNum 10),
         whole ''ROUNDEDCORNERS'' (VNums [7, 7, 7, 7])])"

definition cards2 :: "layout \<Rightarrow> flowable \<Rightarrow> flowable \<Rightarrow> flowable" where
  "cards2 ly c1 c2 = RTable [[c1, c2]] [text_w ly / 2, text_w ly / 2]
     [whole ''VALIGN'' (VStr ''TOP''), whole ''LEFTPADDING'' (VNum 3), whole ''RIGHTPADDING'' (VNum 3),
      whole ''TOPPADDING'' (VNum 0), whole ''BOTTOMPADDING'' (VNum 0)]"

definition stat_cell :: "layout \<Rightarrow> words \<times> words \<times> colour \<Rightarrow> flowable" where
  "stat_cell ly = (\<lambda>(val, label, tc).
     RTable [[Para val (style_S ly ''_v'' [font (ly_FB ly), fsize 18, lead 24, tcol tc, align TA_CENTER])],
             [Para label (sBigS ly)]] [text_w ly / 4 - 5 * ly_mm ly]
       [whole ''BACKGROUND'' (VCol col_LITE), whole ''ALIGN'' (VStr ''CENTER''), whole ''TOPPADDING'' (VNum 9),
        whole ''BOTTOMPADDING'' (VNum 9), whole ''ROUNDEDCORNERS'' (VNums [6, 6, 6, 6])])"

definition stat4 :: "layout \<Rightarrow> (words \<times> words \<times> colour) list \<Rightarrow> flowable" where
  "stat4 ly items = RTable [map (stat_cell ly) items] (replicate 4 (text_w ly / 4))
     [whole ''ALIGN'' (VStr ''CENTER''), whole ''VALIGN'' (VStr ''MIDDLE''),
      whole ''LEFTPADDING'' (VNum 3), whole ''RIGHTPADDING'' (VNum 3)]"

section \<open>The document\<close>

definition cover :: "layout \<Rightarrow> flowable list" where
  "cover ly = [
     dbox ly [
       Para (Str ''NEVOD'') (sH0 ly), sp ly 1,
       Para (Str ''Zero Knowledge Infrastructure'') (sH0s ly), sp ly 1,
       Para (Lit 174 0) (sH0s ly), sp ly 2,
       Para (Lit 176 0) (sH0d ly), sp ly 2] col_BG 18,
     sp ly 5]"

definition principle :: "layout \<Rightarrow> flowable list" where
  "principle ly = [
     dbox ly [
       Para (Lit 183 0) (style_S ly ''kn'' [font (ly_FB ly), fsize 14, lead 20, tcol col_WHT, align TA_CENTER]),
       sp ly 1,
       Para (Lit 187 0) (style_S ly ''ks'' [font (ly_F ly), fsize 10, lead 16,
         tcol (HexColor ''#BFD7FF''), align TA_CENTER]),
       sp ly 1] col_BG2 14,
     sp ly 4]"

definition stats :: "layout \<Rightarrow> flowable list" where
  "stats ly = [
     stat4 ly [
       (Str ''0'', Lit 198 1, col_ACC),
       (Str ''0'', Lit 199 1, col_ACC),
       (Str ''E2E'', Lit 200 1, col_GRN),
       (Lit 201 0, Lit 201 1, col_PUR)],
     sp ly 5]"

definition unified_network :: "layout \<Rightarrow> flowable list" where
  "unified_network ly = [
     Para (Lit 206 0) (sH1 ly), hr_default ly,
     Para (Lit 209 0) (sBody ly), sp ly 3,
     dbox ly [
       Para (Lit 216 0) (sH2w ly), sp ly 2,
       Para (Lit 219 0) (style_S ly ''cd2'' [font (ly_F ly), fsize 9, lead 14,
         tcol (HexColor ''#94A3B8''), align TA_CENTER]),
       sp ly 2,
       Para (Lit 226 0) (style_S ly ''_r'' [font (ly_FB ly), fsize 10, lead 14,
         tcol (HexColor ''#EF4444''), align TA_CENTER]),
       sp ly 1] col_BG2 12,
     sp ly 3,
     lbox ly (Lit 234 0) col_LITE None,
     sp ly 5]"

definition portable_identity :: "layout \<Rightarrow> flowable list" where
  "portable_identity ly = [
     Para (Lit 244 0) (sH1 ly), hr_default ly,
     Para (Lit 247 0) (sBody ly), sp ly 3,
     cards2 ly
       (card ly (Lit 253 0) (Lit 253 1) (Lit 254 0) [Lit 255 0, Lit 256 0, Lit 257 0, Lit 258 0]
          (HexColor ''#FEF2F2'') (HexColor ''#DC2626''))
       (card ly (Lit 261 0) (Lit 261 1) (Lit 262 0) [Lit 263 0, Lit 264 0, Lit 265 0, Lit 266 0]
          col_GLITE col_GRN),
     sp ly 3,
     lbox ly (Lit 272 0) col_PLITE None,
     sp ly 5]"

definition half :: "layout \<Rightarrow> words list \<Rightarrow> words \<Rightarrow> colour \<Rightarrow> colour \<Rightarrow> flowable" where
  "half ly items head bg tc =
     RTable ([[Para head (style_S ly ''_h'' [font (ly_FB ly), fsize 9, tcol tc])]]
         @ map (\<lambda>i. [Para (Cat [Lit 286 0, i])
             (style_S ly ''_b'' [font (ly_F ly), fsize 9, lead 13, tcol col_BG, indent 8, after 2])]) items)
       [text_w ly / 2 - 3 * ly_mm ly]
       [whole ''BACKGROUND'' (VCol bg), whole ''TOPPADDING'' (VNum 7), whole ''BOTTOMPADDING'' (VNum 7),
        whole ''LEFTPADDING'' (VNum 10), whole ''RIGHTPADDING'' (VNum 10),
        whole ''ROUNDEDCORNERS'' (VNums [5, 5, 5, 5])]"

definition zero_access :: "layout \<Rightarrow> flowable list" where
  "zero_access ly =
     (let lh = half ly [Lit 299 0, Lit 300 0, Lit 301 0, Lit 302 0] (Lit 303 0) col_GLITE (HexColor ''#065F46'');
          rh = half ly [Lit 304 0, Lit 305 0, Lit 306 0, Lit 307 0] (Lit 308 0) col_LITE (HexColor ''#1E40AF'') in
      [Para (Lit 279 0) (sH1 ly), hr_default ly,
       RTable [[lh, rh]] [text_w ly / 2, text_w ly / 2]
         [whole ''VALIGN'' (VStr ''TOP''), whole ''LEFTPADDING'' (VNum 3), whole ''RIGHTPADDING'' (VNum 3)],
       sp ly 3,
       lbox ly (Lit 316 0) col_ALITE None,
       sp ly 5])"

definition neutrality :: "layout \<Rightarrow> flowable list" where
  "neutrality ly = [
     Para (Lit 324 0) (sH1 ly), hr_default ly,
     Para (Lit 327 0) (sBody ly), sp ly 3,
     cards2 ly
       (card ly (Lit 333 0) (Lit 333 1) (Lit 334 0) [Lit 335 0, Lit 336 0, Lit 337 0, Lit 338 0] col_LITE col_ACC)
       (card ly (Lit 340 0) (Lit 340 1) (Lit 341 0) [Lit 342 0, Lit 343 0, Lit 344 0, Lit 345 0]
          (HexColor ''#FEF2F2'') (HexColor ''#DC2626'')),
     sp ly 3,
     lbox ly (Lit 351 0) col_GLITE None,
     sp ly 5]"

type_synonym scenario = "words \<times> words \<times> words \<times> words list \<times> colour \<times> colour"

definition sc :: "scenario list" where
  "sc = [
     (Lit 364 0, Lit 364 1, Lit 365 0, [Lit 366 0, Lit 367 0, Lit 368 0, Lit 369 0], col_LITE, col_ACC),
     (Lit 371 0, Lit 371 1, Lit 372 0, [Lit 373 0, Lit 374 0, Lit 375 0, Lit 376 0], col_LITE, col_ACC),
     (Lit 378 0, Lit 378 1, Lit 379 0, [Lit 380 0, Lit 381 0, Lit 382 0, Lit 383 0], col_LITE, col_ACC),
     (Lit 385 0, Lit 385 1, Lit 386 0, [Lit 387 0, Lit 388 0, Lit 389 0, Lit 390 0], col_LITE, col_ACC)]"

definition scenario_card :: "layout \<Rightarrow> scenario \<Rightarrow> flowable" where
  "scenario_card ly = (\<lambda>(icon, title, sub, items, bg, tc). card ly icon title sub items bg tc)"

text \<open>The loop over \<^verbatim>\<open>sc[i:i+2]\<close>: with an odd number of scenarios \<^verbatim>\<open>row[1]\<close> does not exist and the
  script stops with an error (\<open>None\<close>).\<close>

fun scenario_rows :: "layout \<Rightarrow> scenario list \<Rightarrow> flowable list option" where
  "scenario_rows ly [] = Some []"
| "scenario_rows ly [x] = None"
| "scenario_rows ly (x # y # xs) =
     map_option (\<lambda>rest. cards2 ly (scenario_card ly x) (scenario_card ly y) # sp ly 4 # rest) (scenario_rows ly xs)"

definition scenarios :: "layout \<Rightarrow> flowable list option" where
  "scenarios ly =
     map_option (\<lambda>rows. KeepTogether [Para (Lit 359 0) (sH1 ly), hr_default ly] # rows) (scenario_rows ly sc)"

definition eco_rows :: "words list list" where
  "eco_rows = [
     [Lit 408 0, Lit 408 1, Lit 408 2, Lit 408 3],
     [Str ''MCP (Anthropic)'', Lit 409 1, Str ''Anthropic'', Str ''Anthropic''],
     [Str ''OpenAI Assistants'', Lit 410 1, Str ''OpenAI'', Str ''OpenAI''],
     [Str ''LangChain / AutoGPT'', Lit 411 1, Lit 411 2, Lit 411 3],
     [Str ''Nevod'', Lit 412 1, Lit 412 2, Lit 412 3]]"

definition cw_eco :: "layout \<Rightarrow> rat list" where
  "cw_eco ly = map (\<lambda>f. text_w ly * f) [28 / 100, 28 / 100, 22 / 100, 22 / 100]"

definition eco_table :: "layout \<Rightarrow> flowable" where
  "eco_table ly = RTable (map (map Raw) eco_rows) (cw_eco ly)
     [TCmd ''FONTNAME'' (0, 0) (-1, 0) (VStr (ly_FB ly)), TCmd ''FONTNAME'' (0, 1) (-1, -1) (VStr (ly_F ly)),
      whole ''FONTSIZE'' (VNum 9),
      TCmd ''BACKGROUND'' (0, 0) (-1, 0) (VCol col_BG), TCmd ''TEXTCOLOR'' (0, 0) (-1, 0) (VCol col_WHT),
      TCmd ''BACKGROUND'' (0, 4) (-1, 4) (VCol col_LITE), TCmd ''TEXTCOLOR'' (0, 4) (-1, 4) (VCol col_ACC),
      TCmd ''FONTNAME'' (0, 4) (-1, 4) (VStr (ly_FB ly)),
      TCmd ''ALIGN'' (1, 0) (-1, -1) (VStr ''CENTER''), whole ''VALIGN'' (VStr ''MIDDLE''),
      whole ''GRID'' (VGrid (1 / 2) col_BRD),
      TCmd ''ROWBACKGROUNDS'' (0, 1) (-1, 3) (VCols [col_WHT, HexColor ''#F8FAFF'']),
      whole ''TOPPADDING'' (VNum 5), whole ''BOTTOMPADDING'' (VNum 5),
      whole ''LEFTPADDING'' (VNum 7), whole ''RIGHTPADDING'' (VNum 7)]"

definition ecosystem :: "layout \<Rightarrow> flowable list" where
  "ecosystem ly = [
     KeepTogether [Para (Lit 403 0) (sH1 ly), hr_default ly],
     eco_table ly, sp ly 3,
     lbox ly (Lit 437 0) col_LITE None,
     sp ly 5]"

definition phases :: "(words \<times> colour \<times> colour \<times> words list) list" where
  "phases = [
     (Lit 450 0, col_ACC, col_LITE, [Lit 451 0, Str ''E2E: Ed25519 + X25519 + ChaCha20'', Lit 453 0,
        Str ''Gossip + WebSocket + CLI'']),
     (Lit 455 0, col_GRN, col_GLITE, [Lit 456 0, Str ''cell_type: human | agent'',
        Str ''Portable agent keypair (user-owned)'', Lit 459 0]),
     (Lit 460 0, col_PUR, col_PLITE, [Lit 461 0, Lit 462 0, Lit 463 0, Lit 464 0])]"

definition phase_cell :: "layout \<Rightarrow> words \<times> colour \<times> colour \<times> words list \<Rightarrow> flowable" where
  "phase_cell ly = (\<lambda>(title, tc, bg, items).
     RTable ([[Para title (style_S ly ''_pt'' [font (ly_FB ly), fsize 10, lead 14, tcol tc])]]
         @ map (\<lambda>i. [Para (Cat [Lit 470 0, i])
             (style_S ly ''_pi'' [font (ly_F ly), fsize (17 / 2), lead 13, tcol col_BG, after 2])]) items)
       [text_w ly / 3 - 5 * ly_mm ly]
       [whole ''BACKGROUND'' (VCol bg), whole ''TOPPADDING'' (VNum 8), whole ''BOTTOMPADDING'' (VNum 8),
        whole ''LEFTPADDING'' (VNum 10), whole ''RIGHTPADDING'' (VNum 10),
        whole ''ROUNDEDCORNERS'' (VNums [6, 6, 6, 6])])"

definition roadmap :: "layout \<Rightarrow> flowable list" where
  "roadmap ly = [
     KeepTogether [Para (Str ''Roadmap'') (sH1 ly), hr_default ly],
     RTable [map (phase_cell ly) phases] (replicate 3 (text_w ly / 3))
       [whole ''VALIGN'' (VStr ''TOP''), whole ''LEFTPADDING'' (VNum 3), whole ''RIGHTPADDING'' (VNum 3)],
     sp ly 5]"

definition authorship :: "layout \<Rightarrow> flowable list" where
  "authorship ly = [
     dbox ly [
       Para (Lit 494 0) (sH2w ly), sp ly 2,
       Para (Lit 497 0) (sBodyW ly), sp ly 2,
       Para (Str ''Kolpakov Andrey'') (style_S ly ''_a'' [font (ly_FB ly), fsize 12, lead 16, tcol col_WHT, align TA_CENTER]),
       sp ly 1,
       Para (Lit 506 0) (style_S ly ''_l'' [font (ly_F ly), fsize (17 / 2), lead 13,
         tcol (HexColor ''#94A3B8''), align TA_CENTER]),
       sp ly 1] col_BG2 12,
     sp ly 3]"

definition footer :: "layout \<Rightarrow> flowable list" where
  "footer ly = [
     hr ly col_ACC 1, sp ly 2,
     Para (Lit 518 0) (sFooter ly),
     Para (Lit 519 0) (sMutedC ly)]"

text \<open>The list handed to \<^verbatim>\<open>doc.build\<close>.\<close>

definition story :: "layout \<Rightarrow> flowable list option" where
  "story ly = map_option (\<lambda>scs.
     cover ly @ principle ly @ stats ly @ unified_network ly @ portable_identity ly @ zero_access ly
     @ neutrality ly @ scs @ ecosystem ly @ roadmap ly @ authorship ly @ footer ly) (scenarios ly)"

text \<open>The settings of the document and the script as a whole: \<^verbatim>\<open>register\<close> and \<^verbatim>\<open>build\<close> are the
  layout library, which reads a font and writes the file or raises; printing may raise too, on
  an output that cannot encode the line.  The result is the line that was printed.\<close>

record SimpleDocTemplate =
  dt_filename :: string
  dt_pagesize :: "rat \<times> rat"
  dt_leftMargin :: rat
  dt_rightMargin :: rat
  dt_topMargin :: rat
  dt_bottomMargin :: rat
  dt_title :: words
  dt_author :: words

definition OUT_path :: "(string \<Rightarrow> string \<Rightarrow> string) \<Rightarrow> string \<Rightarrow> string" where
  "OUT_path join script_dir = join script_dir ''Nevod_ZKI_v2.pdf''"

definition doc :: "layout \<Rightarrow> string \<Rightarrow> SimpleDocTemplate" where
  "doc ly out = \<lparr>dt_filename = out, dt_pagesize = (ly_W ly, ly_H ly), dt_leftMargin = margin ly,
     dt_rightMargin = margin ly, dt_topMargin = margin ly, dt_bottomMargin = margin ly,
     dt_title = Lit 164 0, dt_author = Str ''Kolpakov Andrey''\<rparr>"

datatype 'e script_error = FontError 'e | IndexError | BuildError 'e | PrintError 'e

text \<open>The fonts are registered one after the other; \<^verbatim>\<open>TTFont\<close> raises on a file it cannot read.\<close>

primrec register_all :: "(string \<Rightarrow> string \<Rightarrow> 'e option) \<Rightarrow> (string \<times> string) list \<Rightarrow> 'e option" where
  "register_all register [] = None"
| "register_all register (x # xs) =
     (case register (fst x) (snd x) of Some e \<Rightarrow> Some e | None \<Rightarrow> register_all register xs)"

definition with_fonts :: "(string \<Rightarrow> string \<Rightarrow> string) \<Rightarrow> (string \<Rightarrow> bool) \<Rightarrow> layout \<Rightarrow> layout" where
  "with_fonts join exists page = page\<lparr>ly_F := F_name join exists, ly_FB := FB_name join exists\<rparr>"

definition script ::
  "(string \<Rightarrow> string \<Rightarrow> 'e option) \<Rightarrow> (SimpleDocTemplate \<Rightarrow> flowable list \<Rightarrow> 'e option) \<Rightarrow> (words \<Rightarrow> 'e option) \<Rightarrow>
   (string \<Rightarrow> string \<Rightarrow> string) \<Rightarrow> (string \<Rightarrow> bool) \<Rightarrow> layout \<Rightarrow> string \<Rightarrow> 'e script_error + words" where
  "script register build print join exists page script_dir =
     (case register_all register (registered_fonts join exists) of
        Some e \<Rightarrow> Inl (FontError e)
      | None \<Rightarrow>
          let ly = with_fonts join exists page; out = OUT_path join script_dir in
          (case story ly of
             None \<Rightarrow> Inl IndexError
           | Some s \<Rightarrow>
               (case build (doc ly out) s of
                  Some e \<Rightarrow> Inl (BuildError e)
                | None \<Rightarrow>
                    let line = Cat [Lit 522 0, Str out] in
                    (case print line of Some e \<Rightarrow> Inl (PrintError e) | None \<Rightarrow> Inr line))))"

section \<open>Tables that fit\<close>

text \<open>The padding a table's commands give its cells; 6 points when none does.\<close>

fun padding :: "string \<Rightarrow> tcmd list \<Rightarrow> rat" where
  "padding n [] = 6"
| "padding n (TCmd m a b v # cs) = (case v of VNum x \<Rightarrow> if m = n then x else padding n cs | _ \<Rightarrow> padding n cs)"

primrec laid_out :: "flowable \<Rightarrow> rat \<Rightarrow> bool" where
  "laid_out (Para t st) = (\<lambda>w. 0 < w)"
| "laid_out (Spacer x y) = (\<lambda>w. x \<le> w)"
| "laid_out (HRFlowable wd th c a b) = (\<lambda>w. 0 < w)"
| "laid_out (RTable rows ws st) = (\<lambda>w. sum_list ws \<le> w \<and>
     list_all (\<lambda>row. list_all2 (\<lambda>g cw. g (cw - padding ''LEFTPADDING'' st - padding ''RIGHTPADDING'' st)) row ws)
       (map (map laid_out) rows))"
| "laid_out (KeepTogether fs) = (\<lambda>w. list_all (\<lambda>g. g w) (map laid_out fs))"
| "laid_out (Raw t) = (\<lambda>w. 0 < w)"

text \<open>The frame \<^verbatim>\<open>SimpleDocTemplate\<close> lays elements out in has the library's default padding of 6 points
  inside the margins.  A table is centred in the frame, whatever its width; any other element
  gets the width of the frame.\<close>

definition frame_width :: "SimpleDocTemplate \<Rightarrow> rat" where
  "frame_width d = fst (dt_pagesize d) - dt_leftMargin d - dt_rightMargin d - 12"

fun placed :: "SimpleDocTemplate \<Rightarrow> flowable \<Rightarrow> bool" where
  "placed d (RTable rows ws st) =
     (let left = dt_leftMargin d + 6 + (frame_width d - sum_list ws) / 2 in
      dt_leftMargin d \<le> left \<and> left + sum_list ws \<le> fst (dt_pagesize d) - dt_rightMargin d \<and>
      laid_out (RTable rows ws st) (sum_list ws))"
| "placed d f = laid_out f (frame_width d)"

text \<open>What the layout library documents of A4 and of its unit: 210 by 297 millimetres, a millimetre
  being 72 points to 25.4 millimetres.\<close>

definition a4 :: "layout \<Rightarrow> bool" where
  "a4 ly \<longleftrightarrow> ly_mm ly = 7200 / 2540 \<and> ly_W ly = 210 * ly_mm ly \<and> ly_H ly = 297 * ly_mm ly"

lemmas width_simps = margin_def a4_def

lemma laid_out_plain:
  assumes "1 \<le> w"
  shows "laid_out (hr ly c th) w" "laid_out (Para t q) w" "laid_out (sp ly h) w" "laid_out (Raw t) w"
  using assms by (simp_all add: hr_def sp_def)

lemma text_w_a4: "a4 ly \<Longrightarrow> text_w ly = 174 * (7200 / 2540)"
  by (simp add: margin_def a4_def)

lemma laid_out_boxes:
  assumes "a4 ly"
  shows "laid_out (lbox ly t bg st) (text_w ly)"
    "laid_out (card ly i tt sub items bg tc) (text_w ly / 2 - 6)"
    "laid_out (half ly items h bg tc) (text_w ly / 2 - 6)"
    "laid_out (stat_cell ly x) (text_w ly / 4 - 6)" "laid_out (phase_cell ly y) (text_w ly / 3 - 6)"
proof -
  have mm: "ly_mm ly = 7200 / 2540" using assms by (simp add: a4_def)
  note w = text_w_a4 [OF assms]
  show "laid_out (lbox ly t bg st) (text_w ly)"
    by (simp add: lbox_def w del: diff_le_eq)
  show "laid_out (card ly i tt sub items bg tc) (text_w ly / 2 - 6)"
    by (simp add: card_def w mm Let_def sp_def list_all_iff)
  show "laid_out (half ly items h bg tc) (text_w ly / 2 - 6)"
    by (simp add: half_def w mm list_all_iff)
  show "laid_out (stat_cell ly x) (text_w ly / 4 - 6)"
    by (simp add: stat_cell_def w mm split: prod.splits)
  show "laid_out (phase_cell ly y) (text_w ly / 3 - 6)"
    by (simp add: phase_cell_def w mm list_all_iff split: prod.splits)
qed

lemma laid_out_dbox: "\<forall>i \<in> set items. laid_out i (text_w ly - pad - pad) \<Longrightarrow> laid_out (dbox ly items bg pad) (text_w ly)"
  by (simp add: dbox_def list_all_iff)

lemma laid_out_pair:
  assumes "laid_out f (text_w ly / 2 - 6)" "laid_out g (text_w ly / 2 - 6)"
    "padding ''LEFTPADDING'' st = 3" "padding ''RIGHTPADDING'' st = 3"
  shows "laid_out (RTable [[f, g]] [text_w ly / 2, text_w ly / 2] st) (text_w ly)"
  using assms by simp

lemma laid_out_cards2:
  "laid_out f (text_w ly / 2 - 6) \<Longrightarrow> laid_out g (text_w ly / 2 - 6) \<Longrightarrow> laid_out (cards2 ly f g) (text_w ly)"
  unfolding cards2_def by (rule laid_out_pair) simp_all

lemma laid_out_sections:
  assumes "a4 ly"
  shows "\<forall>f \<in> set (cover ly @ principle ly @ stats ly). laid_out f (text_w ly)"
    "\<forall>f \<in> set (unified_network ly @ portable_identity ly @ zero_access ly @ neutrality ly). laid_out f (text_w ly)"
    "\<forall>f \<in> set (ecosystem ly @ roadmap ly @ authorship ly @ footer ly). laid_out f (text_w ly)"
proof -
  have w: "1 \<le> text_w ly" "1 \<le> text_w ly - 24" "1 \<le> text_w ly - 28" "1 \<le> text_w ly - 36"
    by (simp_all add: text_w_a4 [OF assms])
  note plain = w [THEN laid_out_plain(1)] w [THEN laid_out_plain(2)] w [THEN laid_out_plain(3)]
  note boxes = laid_out_boxes [OF assms] laid_out_cards2
  have stat: "laid_out (stat4 ly [a, b, c, d]) (text_w ly)" for a b c d
    by (simp add: stat4_def boxes numeral_eq_Suc) (simp add: field_simps)
  show "\<forall>f \<in> set (cover ly @ principle ly @ stats ly). laid_out f (text_w ly)"
    unfolding cover_def principle_def stats_def by (auto intro!: laid_out_dbox simp: stat plain simp del: laid_out.simps)
  have both: "laid_out (RTable [[half ly is h bg tc, half ly is' h' bg' tc']] [text_w ly / 2, text_w ly / 2]
      [whole ''VALIGN'' (VStr ''TOP''), whole ''LEFTPADDING'' (VNum 3), whole ''RIGHTPADDING'' (VNum 3)]) (text_w ly)"
    for "is" h bg tc is' h' bg' tc'
    by (rule laid_out_pair) (simp_all add: boxes del: laid_out.simps)
  show "\<forall>f \<in> set (unified_network ly @ portable_identity ly @ zero_access ly @ neutrality ly). laid_out f (text_w ly)"
    unfolding unified_network_def portable_identity_def zero_access_def neutrality_def Let_def
    by (auto intro!: laid_out_dbox simp: both boxes plain simp del: laid_out.simps)
  have eco: "laid_out (eco_table ly) (text_w ly)"
    by (simp add: eco_table_def eco_rows_def cw_eco_def text_w_a4 [OF assms])
  have road: "laid_out (RTable [map (phase_cell ly) phases] (replicate 3 (text_w ly / 3))
      [whole ''VALIGN'' (VStr ''TOP''), whole ''LEFTPADDING'' (VNum 3), whole ''RIGHTPADDING'' (VNum 3)]) (text_w ly)"
    by (simp add: phases_def boxes numeral_eq_Suc) (simp add: field_simps)
  have keep: "laid_out (KeepTogether fs) v = (\<forall>f \<in> set fs. laid_out f v)" for fs v
    by (simp add: list_all_iff)
  show "\<forall>f \<in> set (ecosystem ly @ roadmap ly @ authorship ly @ footer ly). laid_out f (text_w ly)"
    unfolding ecosystem_def roadmap_def authorship_def footer_def
    by (auto intro!: laid_out_dbox simp: eco road keep boxes plain simp del: laid_out.simps)
qed

lemma laid_out_scenarios:
  assumes "a4 ly"
  obtains fs where "scenarios ly = Some fs" "\<forall>f \<in> set fs. laid_out f (text_w ly)"
proof -
  have w: "1 \<le> text_w ly" by (simp add: text_w_a4 [OF assms])
  have pair: "laid_out (cards2 ly (scenario_card ly x) (scenario_card ly y)) (text_w ly)" for x y
    by (rule laid_out_cards2) (simp_all add: scenario_card_def laid_out_boxes [OF assms] split: prod.splits)
  have rows: "\<exists>fs. scenario_rows ly xs = Some fs \<and> (\<forall>f \<in> set fs. laid_out f (text_w ly))" if "even (length xs)" for xs
    using that by (induction xs rule: induct_list012) (auto simp: pair laid_out_plain [OF w] simp del: laid_out.simps)
  have "even (length sc)" by (simp add: sc_def)
  from rows [OF this] obtain fs where "scenario_rows ly sc = Some fs" "\<forall>f \<in> set fs. laid_out f (text_w ly)"
    by blast
  then show thesis
    by (intro that [of "KeepTogether [Para (Lit 359 0) (sH1 ly), hr_default ly] # fs"])
      (simp_all add: scenarios_def list_all_iff laid_out_plain [OF w] del: laid_out.simps(1,3))
qed

text \<open>Elements of the page are tables, or they fit the narrower frame.\<close>

fun table :: "flowable \<Rightarrow> bool" where
  "table (RTable rows ws st) = True"
| "table f = False"

lemma table_boxes [simp]:
  "table (dbox ly items bg pad)" "table (lbox ly t bg st)" "table (cards2 ly c1 c2)" "table (stat4 ly cells)"
  "table (eco_table ly)"
  by (simp_all add: dbox_def lbox_def cards2_def stat4_def eco_table_def)

lemma placed_doc:
  assumes "laid_out f (text_w ly)" "table f \<or> laid_out f (text_w ly - 12)"
  shows "placed (doc ly out) f"
  using assms by (cases f) (simp_all add: doc_def frame_width_def Let_def field_simps)

lemma in_frame_sections:
  assumes "a4 ly"
  shows "\<forall>f \<in> set (cover ly @ principle ly @ stats ly). table f \<or> laid_out f (text_w ly - 12)"
    "\<forall>f \<in> set (unified_network ly @ portable_identity ly @ zero_access ly @ neutrality ly). table f \<or> laid_out f (text_w ly - 12)"
    "\<forall>f \<in> set (ecosystem ly @ roadmap ly @ authorship ly @ footer ly). table f \<or> laid_out f (text_w ly - 12)"
    "scenarios ly = Some fs \<Longrightarrow> \<forall>f \<in> set fs. table f \<or> laid_out f (text_w ly - 12)"
proof -
  have "1 \<le> text_w ly - 12" by (simp add: text_w_a4 [OF assms])
  note plain = laid_out_plain [OF this]
  have keep: "laid_out (KeepTogether fs) v = (\<forall>f \<in> set fs. laid_out f v)" for fs v
    by (simp add: list_all_iff)
  have rows: "table f \<or> laid_out f (text_w ly - 12)" if "scenario_rows ly xs = Some fs" "f \<in> set fs" for xs fs f
    using that by (induction xs arbitrary: fs rule: induct_list012) (auto simp: plain simp del: laid_out.simps)
  show "\<forall>f \<in> set (cover ly @ principle ly @ stats ly). table f \<or> laid_out f (text_w ly - 12)"
    by (simp add: cover_def principle_def stats_def plain del: laid_out.simps)
  show "\<forall>f \<in> set (unified_network ly @ portable_identity ly @ zero_access ly @ neutrality ly). table f \<or> laid_out f (text_w ly - 12)"
    by (simp add: unified_network_def portable_identity_def zero_access_def neutrality_def Let_def plain del: laid_out.simps)
  show "\<forall>f \<in> set (ecosystem ly @ roadmap ly @ authorship ly @ footer ly). table f \<or> laid_out f (text_w ly - 12)"
    by (simp add: ecosystem_def roadmap_def authorship_def footer_def keep plain del: laid_out.simps)
  show "scenarios ly = Some fs \<Longrightarrow> \<forall>f \<in> set fs. table f \<or> laid_out f (text_w ly - 12)"
    by (auto simp: scenarios_def keep plain simp del: laid_out.simps dest: rows)
qed

text \<open>
  C30: the document stays inside its page.  On an A4 page the script composes its elements without
  error, so that it fails only if a font cannot be read, the layout library fails or the line
  cannot be printed.  In the elements it hands over, every table, at any depth, has in each row
  exactly as many cells as it has columns; every table inside a table fits the width its cell
  has between the paddings; every table of the page, which the library centres in its frame,
  begins and ends between the margins of the settings handed over; every other element of the
  page fits the frame, 12 points narrower; and no paragraph is left without width.
\<close>
theorem document_fits:
  assumes "a4 page" and "ly = with_fonts join exists page" and "out = OUT_path join dir"
  shows "\<exists>s. (\<forall>f \<in> set s. placed (doc ly out) f) \<and>
    script register build print join exists page dir =
      (case register_all register (registered_fonts join exists) of
         Some e \<Rightarrow> Inl (FontError e)
       | None \<Rightarrow>
           (case build (doc ly out) s of
              Some e \<Rightarrow> Inl (BuildError e)
            | None \<Rightarrow>
                (case print (Cat [Lit 522 0, Str out]) of
                   Some e \<Rightarrow> Inl (PrintError e)
                 | None \<Rightarrow> Inr (Cat [Lit 522 0, Str out]))))"
proof -
  have ly: "a4 ly" using assms(1) by (simp add: assms(2) with_fonts_def a4_def)
  obtain fs where fs: "scenarios ly = Some fs" "\<forall>f \<in> set fs. laid_out f (text_w ly)"
    by (rule laid_out_scenarios [OF ly])
  then obtain s where s: "story ly = Some s" "set s = set (cover ly @ principle ly @ stats ly) \<union>
      set (unified_network ly @ portable_identity ly @ zero_access ly @ neutrality ly) \<union> set fs \<union>
      set (ecosystem ly @ roadmap ly @ authorship ly @ footer ly)"
    by (auto simp: story_def)
  have "\<forall>f \<in> set s. placed (doc ly out) f"
    unfolding s(2) using laid_out_sections [OF ly] in_frame_sections [OF ly] fs
    by (intro ballI placed_doc) blast+
  with s(1) show ?thesis
    by (intro exI [of _ s]) (simp add: script_def Let_def assms(2,3) split: option.split)
qed

theorem document_fits_witness:
  "\<exists>page. script (\<lambda>n p. None) (\<lambda>d s. if \<forall>f \<in> set s. placed d f then None else Some ''outside'') (\<lambda>l. None)
     (@) (\<lambda>p. True) page ''d/'' = Inr (Cat [Lit 522 0, Str (''d/'' @ ''Nevod_ZKI_v2.pdf'')]) \<and> ly_W page = 210 * (7200 / 2540)"
proof -
  let ?page = "\<lparr>ly_W = 210 * (7200 / 2540), ly_H = 297 * (7200 / 2540), ly_mm = 7200 / 2540, ly_F = [], ly_FB = []\<rparr>"
  have a: "a4 ?page" by (simp add: a4_def)
  have reg: "register_all (\<lambda>n p. None) fs = None" for fs by (induction fs) simp_all
  show ?thesis
    using document_fits [OF a refl refl, of "(@)" "\<lambda>p. True" "''d/''" "\<lambda>n p. None"
        "\<lambda>d s. if \<forall>f \<in> set s. placed d f then None else Some ''outside''" "\<lambda>l. None"]
    by (intro exI [of _ ?page]) (auto simp: reg OUT_path_def)
qed

section \<open>Fonts that exist\<close>

definition style_fonts :: "pstyle \<Rightarrow> string list" where
  "style_fonts st = (case dict_get (ps_attrs st) ''fontName'' of Some (AFont f) \<Rightarrow> [f] | _ \<Rightarrow> [])"

fun command_fonts :: "tcmd \<Rightarrow> string list" where
  "command_fonts (TCmd n a b v) = (case v of VStr f \<Rightarrow> if n = ''FONTNAME'' then [f] else [] | _ \<Rightarrow> [])"

primrec fonts_of :: "flowable \<Rightarrow> string list" where
  "fonts_of (Para t st) = style_fonts st"
| "fonts_of (Spacer x y) = []"
| "fonts_of (HRFlowable wd th c a b) = []"
| "fonts_of (RTable rows ws st) = concat (map concat (map (map fonts_of) rows)) @ concat (map command_fonts st)"
| "fonts_of (KeepTogether fs) = concat (map fonts_of fs)"
| "fonts_of (Raw t) = []"

definition two_fonts :: "layout \<Rightarrow> flowable \<Rightarrow> bool" where
  "two_fonts ly f \<longleftrightarrow> set (fonts_of f) \<subseteq> {ly_F ly, ly_FB ly}"

lemma style_fonts_S:
  "set (style_fonts (style_S ly n kw)) \<subseteq> insert (ly_F ly) {f. (''fontName'', AFont f) \<in> set kw}"
proof -
  have upd: "dict_get d ''fontName'' = Some (AFont f) \<or> (''fontName'', AFont f) \<in> set kw"
    if "dict_get (fold (\<lambda>(k, v). dict_set k v) kw d) ''fontName'' = Some (AFont f)" for d f
    using that
  proof (induction kw arbitrary: d)
    case (Cons a kw)
    then have "dict_get (dict_set (fst a) (snd a) d) ''fontName'' = Some (AFont f) \<or> (''fontName'', AFont f) \<in> set kw"
      by (simp add: case_prod_beta)
    then show ?case by (cases a) (auto simp: dict_get_set split: if_splits)
  qed simp
  show ?thesis
  proof
    fix f assume "f \<in> set (style_fonts (style_S ly n kw))"
    then have "dict_get (ps_attrs (style_S ly n kw)) ''fontName'' = Some (AFont f)"
      by (auto simp: style_fonts_def split: option.splits attr.splits)
    from upd [OF this [unfolded style_S_def, simplified]]
    show "f \<in> insert (ly_F ly) {f. (''fontName'', AFont f) \<in> set kw}" by (auto simp: dict_get_def)
  qed
qed

lemma two_fonts_styles:
  "two_fonts ly (Para t (style_S ly n (font (ly_F ly) # kw)))" if "\<forall>f. (''fontName'', AFont f) \<notin> set kw" for kw
  using style_fonts_S [of ly n "font (ly_F ly) # kw"] that by (auto simp: two_fonts_def)

lemma two_fonts_bold:
  "two_fonts ly (Para t (style_S ly n (font (ly_FB ly) # kw)))" if "\<forall>f. (''fontName'', AFont f) \<notin> set kw" for kw
  using style_fonts_S [of ly n "font (ly_FB ly) # kw"] that by (auto simp: two_fonts_def)

lemma two_fonts_simps:
  "two_fonts ly (sp ly h)" "two_fonts ly (hr ly c th)" "two_fonts ly (Raw t)"
  "two_fonts ly (KeepTogether fs) = (\<forall>f \<in> set fs. two_fonts ly f)"
  "two_fonts ly (RTable rows ws st) = ((\<forall>row \<in> set rows. \<forall>f \<in> set row. two_fonts ly f) \<and>
     (\<forall>c \<in> set st. set (command_fonts c) \<subseteq> {ly_F ly, ly_FB ly}))"
  by (auto simp: two_fonts_def sp_def hr_def)

lemma two_fonts_boxes:
  "two_fonts ly (lbox ly t bg None)" "two_fonts ly (card ly i tt sub items bg tc)"
  "two_fonts ly (half ly items h bg tc)" "two_fonts ly (stat_cell ly x)" "two_fonts ly (phase_cell ly y)"
  by (auto simp: lbox_def card_def half_def stat_cell_def phase_cell_def Let_def styles two_fonts_simps
      two_fonts_styles two_fonts_bold split: prod.splits)

lemma two_fonts_dbox: "two_fonts ly (dbox ly items bg pad) = (\<forall>i \<in> set items. two_fonts ly i)"
  by (auto simp: dbox_def two_fonts_simps)

lemma two_fonts_cards2: "two_fonts ly (cards2 ly f g) = (two_fonts ly f \<and> two_fonts ly g)"
  by (auto simp: cards2_def two_fonts_simps)

lemma two_fonts_scenario_rows:
  "scenario_rows ly xs = Some fs \<Longrightarrow> f \<in> set fs \<Longrightarrow> two_fonts ly f"
  by (induction xs arbitrary: fs rule: induct_list012)
    (auto simp: two_fonts_cards2 two_fonts_simps scenario_card_def two_fonts_boxes split: prod.splits)

lemma two_fonts_scenarios:
  assumes "scenarios ly = Some fs"
  shows "\<forall>f \<in> set fs. two_fonts ly f"
proof -
  from assms obtain rows where "scenario_rows ly sc = Some rows"
    and "fs = KeepTogether [Para (Lit 359 0) (sH1 ly), hr_default ly] # rows"
    by (auto simp: scenarios_def)
  then show ?thesis
    using two_fonts_scenario_rows [of ly sc rows] by (simp add: styles two_fonts_simps two_fonts_bold)
qed

lemmas two_fonts_all = two_fonts_simps two_fonts_styles two_fonts_bold two_fonts_boxes two_fonts_dbox two_fonts_cards2

lemma two_fonts_sections:
  "\<forall>f \<in> set (cover ly @ principle ly @ stats ly). two_fonts ly f"
  "\<forall>f \<in> set (unified_network ly @ portable_identity ly @ zero_access ly @ neutrality ly). two_fonts ly f"
  "\<forall>f \<in> set (ecosystem ly @ roadmap ly @ authorship ly @ footer ly). two_fonts ly f"
proof -
  show "\<forall>f \<in> set (cover ly @ principle ly @ stats ly). two_fonts ly f"
    by (simp add: cover_def principle_def stats_def stat4_def styles two_fonts_all)
  show "\<forall>f \<in> set (unified_network ly @ portable_identity ly @ zero_access ly @ neutrality ly). two_fonts ly f"
    by (simp add: unified_network_def portable_identity_def zero_access_def neutrality_def Let_def styles two_fonts_all)
  show "\<forall>f \<in> set (ecosystem ly @ roadmap ly @ authorship ly @ footer ly). two_fonts ly f"
    by (simp add: ecosystem_def eco_table_def roadmap_def authorship_def footer_def styles two_fonts_all)
qed

text \<open>
  C40: the document asks only for fonts that are there.  Whatever font files the machine has and
  whatever the page, every font a style or a table command of the document names is one the
  script registered from an existing file, or one of the two built-in fonts.
\<close>
theorem document_fonts_available:
  assumes "story \<lparr>ly_W = w, ly_H = h, ly_mm = mm, ly_F = F_name join exists, ly_FB = FB_name join exists\<rparr> = Some s"
    and "f \<in> set s" and "x \<in> set (fonts_of f)"
  shows "x = ''Helvetica'' \<or> x = ''Helvetica-Bold'' \<or>
    (\<exists>path. (x, path) \<in> set (registered_fonts join exists) \<and> exists path)"
proof -
  let ?ly = "\<lparr>ly_W = w, ly_H = h, ly_mm = mm, ly_F = F_name join exists, ly_FB = FB_name join exists\<rparr>"
  obtain scs where scs: "scenarios ?ly = Some scs" using assms(1) by (auto simp: story_def)
  have "two_fonts ?ly f"
    using assms(1,2) scs two_fonts_sections [of ?ly] two_fonts_scenarios [OF scs] by (auto simp: story_def)
  then have x: "x = F_name join exists \<or> x = FB_name join exists"
    using assms(3) by (auto simp: two_fonts_def)
  have ff: "exists p" if "find_font join exists n = Some p" for n p
    using that by (auto simp: find_font_def find_Some_iff)
  have "exists p" if "regular_font join exists = Some p \<or> bold_font join exists = Some p" "p \<noteq> []" for p
    using that ff by (auto simp: regular_font_def bold_font_def or_font_def split: option.splits if_splits)
  with x show ?thesis
    by (auto simp: F_name_def FB_name_def registered_fonts_def found_def Let_def split: if_splits)
qed

theorem document_fonts_available_witness:
  "\<exists>s. story \<lparr>ly_W = 1, ly_H = 1, ly_mm = 1, ly_F = F_name (@) (\<lambda>_. False), ly_FB = FB_name (@) (\<lambda>_. False)\<rparr> = Some s \<and>
     (\<forall>f \<in> set s. \<forall>x \<in> set (fonts_of f). x = ''Helvetica'' \<or> x = ''Helvetica-Bold'')"
proof -
  let ?ly = "\<lparr>ly_W = 1, ly_H = 1, ly_mm = 1, ly_F = F_name (@) (\<lambda>_. False), ly_FB = FB_name (@) (\<lambda>_. False)\<rparr>"
  obtain s where s: "story ?ly = Some s" by (auto simp: story_def scenarios_def sc_def)
  have "x = ''Helvetica'' \<or> x = ''Helvetica-Bold''" if "f \<in> set s" "x \<in> set (fonts_of f)" for f x
    using document_fonts_available [OF s that] by blast
  with s show ?thesis by blast
qed

end
