(* ===== verification/Spec2Isabelle.thy ===== *)
theory Spec2Isabelle
  imports Nevod_Session Nevod_Runs Nevod_Network Nevod_Settle Nevod_Pdf
begin

text \<open>
  Nevod: a verification development.

  Nevod (\<^verbatim>\<open>src/node/\<close>, \<^verbatim>\<open>src/nevod.py\<close>) is a peer-to-peer messenger.  Cells (users, agents) hold an Ed25519 and an
  X25519 key pair and connect by WebSocket to a node; nodes know each other through a node
  table they gossip, authenticate each other by challenge and response, sign every packet they
  send, route end-to-end encrypted messages to the cells at home with them or visiting another
  node, and buffer what cannot be delivered for 72 hours in an SQLite file.

  \<^bold>\<open>Layers and theories\<close>, in the order the code has them.  Each names its group of definitions
  and what its lemmas show.

  \<^item> \<open>Nevod_Prelude\<close>: Python values, exceptions and text (\<open>pyval\<close>, \<open>exn\<close>, \<open>hex\<close>, \<open>split1\<close>,
    decimal and UTF-8 notation), the monad \<open>io\<close> of computations with state and exceptions in
    which all stateful code is written (the state survives an exception, as in Python), and
    \<open>keeps\<close>, the preservation of a predicate on normal and exceptional exit, with its
    collection \<open>keeps_intros\<close>; the locale \<open>stepper\<close> of steps that keep an invariant, interpreted
    on the turns of a node and on the processes of its life.
  \<^item> \<open>Nevod_Table\<close>: SQL tables with a primary key (locale \<open>keyed_table\<close>, interpreted on each
    of the four tables) and Python dictionaries (locale \<open>dictionary\<close>, interpreted on the
    dictionary the registry uses).
  \<^item> \<open>Nevod_Storage\<close> (\<^verbatim>\<open>storage.py\<close>): the database, one function per method of \<^verbatim>\<open>Storage\<close>, the
    databases sequences of calls reach, the schema invariant, the refinement of a
    specification over finite maps, the ping counter, expiry, and the buffer as an
    interpretation of the locale \<open>message_store\<close>.
  \<^item> \<open>Nevod_Env\<close>: what Nevod does not contain, as the fields of the record \<open>env\<close>, an argument of
    everything that uses it: MessagePack, Ed25519, X25519, HKDF, ChaCha20-Poly1305, the clock,
    random bytes, UUIDs, sampling, sockets, the server socket.  A call whose answer varies is indexed by a counter
    in the state, so an environment is an arbitrary script of answers, failures included.
    Documented behaviour is stated by predicates (\<open>msgpack_ok\<close>, \<open>ed25519_ok\<close>, \<open>x25519_ok\<close>,
    \<open>chacha_ok\<close>, \<open>urandom_ok\<close>) that appear as hypotheses where they are needed;
    \<open>Nevod_Example\<close> has an environment that satisfies them all, used by the witnesses.
  \<^item> \<open>Nevod_Crypto\<close> (\<^verbatim>\<open>crypto.py\<close>), \<open>Nevod_Protocol\<close> (\<^verbatim>\<open>protocol.py\<close>), \<open>Nevod_Identity\<close>
    (\<^verbatim>\<open>identity.py\<close>): keys, hybrid encryption, packets, their wire form and signatures, identity
    files (locale \<open>identity_store\<close>, interpreted for nodes and cells); round trips, the types a
    verified packet has, what the signature covers.
  \<^item> \<open>Nevod_Auth\<close> (\<^verbatim>\<open>auth.py\<close> and the exchange of \<^verbatim>\<open>Transport._do_auth\<close> and \<^verbatim>\<open>client._do_auth\<close>):
    challenge, response, verification; an honest pair authenticates mutually, an accepted
    response proves the key, and what the protocol does not prevent.
  \<^item> \<open>Nevod_State\<close>, \<open>Nevod_Transport\<close> (\<^verbatim>\<open>transport.py\<close>): the state of a running node, the
    connection registry, starting the server, which may fail, and stopping it, which ends the
    connections it accepted, connecting, signing, sending, the receive loop; what an outgoing
    connection proves of the peer for the nonce of this call, and what a connection does with
    its frames from beginning to end.
  \<^item> \<open>Nevod_Router\<close> (\<^verbatim>\<open>router.py\<close>): addresses, the routing decision, local delivery,
    store and forward, flushing.
  \<^item> \<open>Nevod_Gossip\<close> (\<^verbatim>\<open>gossip.py\<close>): pings, the round with the frames it sends and the marks it
    leaves, the merge of node tables.
  \<^item> \<open>Nevod_Node\<close> (\<^verbatim>\<open>node.py\<close>): lifecycle, dispatcher and handlers; the node as a step relation
    (\<open>node_step\<close>, \<open>node_reach\<close>) and its invariant (\<open>db_inv\<close>, \<open>net_ok\<close>).
  \<^item> \<open>Nevod_Client\<close> (\<^verbatim>\<open>client.py\<close>): the cell client, its receive loop also frame by frame.
  \<^item> \<open>Nevod_Network\<close>: two nodes, the path of a message over both, and where a message for a cell
    can go in the states a node reaches.
  \<^item> \<open>Nevod_Text\<close>: Python's text methods on UTF-8 strings (\<^verbatim>\<open>strip\<close>, \<^verbatim>\<open>split\<close>, slices).
  \<^item> \<open>Nevod_Console\<close>, \<open>Nevod_Session\<close>, \<open>Nevod_Commands\<close> (\<^verbatim>\<open>nevod.py\<close>): output and files of a process and
    the identity commands; the interactive session of a cell as a function of the events that
    happen to it (\<open>session_wait\<close>), its invariant (\<open>session_inv\<close>), computations that never raise
    (\<open>calm\<close>); the commands that run a node until a signal (\<open>node_turn\<close>, \<open>run_until_signal\<close>) and
    the files of a node over several processes (\<open>exec_run\<close>, \<open>proc_inv\<close>).
  \<^item> \<open>Nevod_Runs\<close>: complete runs of \<^verbatim>\<open>_handle_incoming\<close> are sequences of turns (\<open>blind\<close>, \<open>sim\<close>), which
    ties the two ways of running a node sequentially to each other.
  \<^item> \<open>Nevod_Async\<close>: coroutines as trees of their awaits (\<open>co\<close>), run alone (\<open>alone\<close>) or in a pool
    under a schedule (\<open>resume\<close>, \<open>schedule\<close>); what a coroutine guarantees at each await (\<open>guar\<close>, with
    its forms \<open>acts\<close>, \<open>safe\<close>, \<open>steady\<close>), how many of its steps are of a kind (\<open>cost\<close>, \<open>within\<close>), what
    its history shows (\<open>steps\<close>, \<open>traced\<close>), and the locale \<open>pool_of\<close> of coroutines that keep an invariant, interpreted on the tasks of a node and
    on concurrent handlers of gossip.
  \<^item> \<open>Nevod_Tasks\<close>: transport, router, gossip and node once more, with their awaits (\<open>route_co\<close>,
    \<open>dispatch_co\<close> and so on; the storage awaits the execution of a query, the fetch and the end
    of the cursor, or the execution and the commit of a change); each is, run alone, its sequential counterpart, and keeps the
    node's invariant at every await.
  \<^item> \<open>Nevod_Loop\<close>: the event loop (\<open>loop_reach\<close>).  Under every interleaving the node keeps its
    invariant, a message for a cell goes at most once and only over a connection registered for
    that cell, concurrent gossip changes nothing that was known; two races.
  \<^item> \<open>Nevod_Settle\<close>: under interference, routing a message to a cell elsewhere ends, with the message
    handed to the visited or the home node or, after both attempts failed, stored.
  \<^item> \<open>Nevod_Pdf\<close> (\<^verbatim>\<open>generate_zki_v2.py\<close>): the concept document as the list of elements handed to the
    layout library; its tables stay inside the margins and its fonts are available.
  \<^item> This theory: the properties of cells and nodes together.

  \<^bold>\<open>Correspondence.\<close>  A class is a record, an optional column or value an \<open>option\<close>, an awaited
  method a computation in \<open>io\<close>, a \<^verbatim>\<open>try\<close> block \<open>tryM\<close>, a \<^verbatim>\<open>finally\<close> clause \<open>finallyM\<close>, a \<^verbatim>\<open>for\<close>
  loop \<open>forM\<close>.  Fields of packets and values decoded from the wire are dynamic Python values:
  each handler has the branch the code takes on a value of the wrong type.  A Python string is
  the list of its UTF-8 bytes.  \<^verbatim>\<open>sign\<close> writes into the packet object it is given, so routing
  functions return the packet they leave behind.  All loops are over lists, so every function
  is total; a receive loop is given the list of frames that arrive before its socket closes,
  \<open>gossip_turn\<close> is one turn of the endless gossip loop, and \<open>node_reach\<close> covers any number of
  turns, frames and connections in any order.  The session of a cell and a running node process
  are given the list of what happens to them until the input ends or the signal comes.

  \<^bold>\<open>Bounds.\<close>  The bound of 31 awaits on routing is the sum over its longest path: three for the
  presence record, an attempt at the visited node and one at the home node of at most 13 each
  (looking the connection up, a failed send and its removal, three for the node's entry,
  dialling, four authentication messages, the registration, the send), and two for the buffer;
  entering the registry's lock, which is never held over an await, does not count.  \<open>gossip_loop_co\<close> takes the number of
  turns before the task is cancelled, any number; the lists of frames may have any length.

  \<^bold>\<open>Limits.\<close>  A step of \<open>node_step\<close> runs a handler to its end; \<open>loop_reach\<close> switches between handlers
  at the awaits of storage, sockets, registry and callbacks.  There
  the rows of a query are those at its execution, a cancelled task is one that is not resumed
  any more (so the clean-up a cancelled receive loop runs is not), the end of the handlers the
  server waits for when it closes is part of that await, and timeouts of the socket library are
  failures the environment may report at any await.  \<open>node_turn\<close> translates no function: a process
  that runs until a signal is given the list of what happens meanwhile, and a turn is one entry
  of that list handed to the function of the program that reacts to it.  \<^verbatim>\<open>on_message\<close> callbacks may raise but do not call back
  into the node.  The cell client and its session are modelled one event at a time.

  \<^bold>\<open>Not modelled:\<close> log output other than the exceptions its arguments can raise, the text layer
  of JSON, floats and MessagePack extension types, blobs in text columns (treated as a driver
  error), the server socket beyond its address, its failure to open and the sockets it
  accepted, of the command line the parsing of arguments
  by \<^verbatim>\<open>click\<close> (beyond the values of its choices), the installation of signal handlers and the
  text of exceptions; the frames that arrive while a session handles a line are handled after
  it.  Of the document script: the rendering by the layout library and the
  words of texts outside ASCII, which are named by their place in the script.

  \<^bold>\<open>Plan.\<close>  Left: the awaits of the cell client and of concurrent flushes of one cell's buffer.
\<close>

section \<open>Cells and nodes together\<close>

text \<open>
  C1: a message travels end to end.  When a connected cell sends a plaintext to a cell that is
  at home and connected on the same node, and the sockets work: the sender hands one frame to
  its socket; the node accepts that frame and sends one frame over the recipient's
  connection, changing nothing else; and the recipient's callback receives the sender's
  address and exactly the plaintext.
\<close>
theorem message_end_to_end:
  assumes "packages_ok E" and "fits E pt" and "signing_valid E (ni_signing (nd_identity nd))"
    and "signing_valid E (ci_signing (cc_identity alice))" and "encryption_valid E (ci_encryption (cc_identity bob))"
    and "wire_str n" "length n < 2 ^ 30" and "cs_node_id sA = my_id nd"
    and "cs_ws sA = Some ws" "\<And>k. e_open E k ws" "\<And>k b. e_send E k ws b = None"
    and "home_here nd (my_cell bob) s" "signing_valid E (ci_signing (cc_identity bob))"
    and "dict_get (ns_conns s) (my_cell bob) = Some toB" "\<And>k b. e_send E k (pc_ws toB) b = None"
    and "pc_peer_signing_pubkey fromA = sk_public (ci_signing (cc_identity alice))"
    and "cs_node_signing_pubkey sB = sk_public (ni_signing (nd_identity nd))"
    and "cc_on_message bob = Some cb" "cb (PStr (my_cell alice @ CHR ''@'' # my_id nd)) pt = None"
  shows "\<exists>b1 b2 sA'. client_send E alice (my_cell bob) n (ek_public (ci_encryption (cc_identity bob))) pt sA = (Inr (), sA') \<and>
    w_sent sA' = w_sent sA @ [(ws, b1)] \<and>
    recv_frame E (dispatch E nd) fromA b1 s =
      (Inr (), s\<lparr>w_tick := Suc (w_tick s), w_sent := w_sent s @ [(pc_ws toB, b2)]\<rparr>) \<and>
    client_frame E bob b2 sB = (Inr (), sB\<lparr>cs_received := cs_received sB @
      [(PStr (my_cell alice @ CHR ''@'' # my_id nd), pt)]\<rparr>)"
proof -
  have ed: "ed25519_ok E" using assms(1) by (simp add: packages_ok_def)
  have nok: "node_ok E nd" using assms(1,3) by (simp add: node_ok_def packages_ok_def)
  have ids: "length (my_cell bob) = 64" "length (my_id nd) = 64" "utf8_ok (my_cell bob)" "utf8_ok (my_id nd)"
    using length_public [OF ed] assms(3,13) by (simp_all add: cell_id_def node_id_def)
  obtain i ts sg pl b1 sA' where a: "client_send E alice (my_cell bob) n (ek_public (ci_encryption (cc_identity bob))) pt sA = (Inr (), sA')"
    "w_sent sA' = w_sent sA @ [(ws, b1)]" "carries E pl (ci_encryption (cc_identity bob)) pt"
    "unpack E b1 = Inr (typed_packet i ''msg'' (my_cell alice @ CHR ''@'' # my_id nd) (my_cell bob @ CHR ''@'' # n) pl sg ts 1)"
    "verify_packet E (typed_packet i ''msg'' (my_cell alice @ CHR ''@'' # my_id nd) (my_cell bob @ CHR ''@'' # n) pl sg ts 1)
       (sk_public (ci_signing (cc_identity alice))) = Inr True"
    "packable (packet_dict (typed_packet i ''msg'' (my_cell alice @ CHR ''@'' # my_id nd) (my_cell bob @ CHR ''@'' # n) pl sg ts 1))"
    by (rule client_sends [OF assms(1,4,5,2), where s = sA and c = "my_cell bob" and n = n and ws = ws])
      (use assms ids in auto)
  obtain b2 sg' where r: "route E nd (typed_packet i ''msg'' (my_cell alice @ CHR ''@'' # my_id nd) (my_cell bob @ CHR ''@'' # n) pl sg ts 1) s
      = (Inr (), s\<lparr>w_tick := Suc (w_tick s), w_sent := w_sent s @ [(pc_ws toB, b2)]\<rparr>)"
    "unpack E b2 = Inr (typed_packet i ''msg'' (my_cell alice @ CHR ''@'' # my_id nd) (my_cell bob @ CHR ''@'' # n) pl sg' ts 1)"
    "verify_packet E (typed_packet i ''msg'' (my_cell alice @ CHR ''@'' # my_id nd) (my_cell bob @ CHR ''@'' # n) pl sg' ts 1)
       (sk_public (ni_signing (nd_identity nd))) = Inr True"
    by (rule node_delivers [OF nok assms(12,14,15) a(6)])
  have "recv_frame E (dispatch E nd) fromA b1 s =
      (Inr (), s\<lparr>w_tick := Suc (w_tick s), w_sent := w_sent s @ [(pc_ws toB, b2)]\<rparr>)"
    using r(1) by (simp add: frame_accepted [OF a(4) a(5) [folded assms(16)]] tryM_apply dispatch_def typed_packet_def)
  moreover have "client_frame E bob b2 sB = (Inr (), sB\<lparr>cs_received := cs_received sB @
      [(PStr (my_cell alice @ CHR ''@'' # my_id nd), pt)]\<rparr>)"
    using client_receives [OF r(2) r(3) [folded assms(17)] _ _ a(3) assms(18)] assms(19)
    by (simp add: typed_packet_def)
  ultimately show ?thesis using a(1,2) by blast
qed

theorem message_end_to_end_witness:
  "\<exists>b1 b2 s'. recv_frame env0 (dispatch env0 nd0) peer1 b1 with_bob = (Inr (), s') \<and>
     w_sent s' = [(9, b2)] \<and>
     cs_received (snd (client_frame env0 bob0 b2 client0)) = [(PStr (my_cell alice0 @ CHR ''@'' # my_id nd0), [1, 2])]"
proof -
  have n: "wire_str ''nn''" "length ''nn'' < 2 ^ 30" by (simp_all add: Let_def)
  have st: "cs_node_id client0 = my_id nd0" "cs_ws client0 = Some 3"
    "cs_node_signing_pubkey client0 = sk_public (ni_signing (nd_identity nd0))" "cs_received client0 = []"
    "pc_peer_signing_pubkey peer1 = sk_public (ci_signing (cc_identity alice0))" "pc_ws peer1 = 9" "w_sent with_bob = []"
    "cc_on_message bob0 = Some (\<lambda>f p. None)"
    by (simp_all add: client0_def client_init_def peer1_def alice0_def with_bob_def state0_def bob0_def)
  obtain b1 b2 where run: "recv_frame env0 (dispatch env0 nd0) peer1 b1 with_bob =
      (Inr (), with_bob\<lparr>w_tick := Suc (w_tick with_bob), w_sent := w_sent with_bob @ [(pc_ws peer1, b2)]\<rparr>)"
    "client_frame env0 bob0 b2 client0 = (Inr (), client0\<lparr>cs_received := cs_received client0 @
      [(PStr (my_cell alice0 @ CHR ''@'' # my_id nd0), [1, 2])]\<rparr>)"
    using message_end_to_end [OF example_cells(5) fits_env0 example_cells(4,1,3) n st(1,2) _ _ with_bob_facts(1)
        example_cells(2) with_bob_facts(2) _ st(5,3,8)]
    by auto
  show ?thesis
    by (rule exI [of _ b1], rule exI [of _ b2]) (simp add: run st)
qed

text \<open>
  C19: registration works end to end.  The \<^verbatim>\<open>CELL_REGISTER\<close> frame a client sends after
  authentication is accepted by the node on the connection that authenticated the same key:
  afterwards the node has the cell with its two public keys, at home here.
\<close>
theorem client_registration_accepted:
  assumes "node_ok E nd" and "signing_valid E (ci_signing (cc_identity cl))"
    and "length (ek_public (ci_encryption (cc_identity cl))) = 32"
    and "\<And>b. e_packb E (register_dict cl) = Inr b \<Longrightarrow> length b < 2 ^ 32"
    and "\<And>k b. e_send E k ws b = None"
    and "ns_open sN" and "pc_peer_signing_pubkey conn = sk_public (ci_signing (cc_identity cl))"
    and "pc_peer_node_id conn = my_cell cl"
  shows "\<exists>b s'. client_register E cl ws (my_id nd) s = (Inr (), s') \<and> w_sent s' = w_sent s @ [(ws, b)] \<and>
    (\<exists>e pr. get_cell (my_cell cl) (ns_db (snd (recv_frame E (dispatch E nd) conn b sN))) = Some e \<and>
      ce_signing_pubkey e = sk_public (ci_signing (cc_identity cl)) \<and>
      ce_enc_pubkey e = ek_public (ci_encryption (cc_identity cl)) \<and>
      get_presence (my_cell cl) (ns_db (snd (recv_frame E (dispatch E nd) conn b sN))) = Some pr \<and>
      pe_home_node_id pr = my_id nd \<and> pe_visiting_node_id pr = None)"
proof -
  have env: "msgpack_ok E" "ed25519_ok E" "clock_ok E" using assms(1) by (simp_all add: node_ok_def)
  have cid: "wire_str (my_cell cl)" "length (sk_public (ci_signing (cc_identity cl))) = 32"
    using length_public [OF env(2) assms(2)] by (simp_all add: cell_id_def)
  have "packable (register_dict cl)"
    using cid assms(3) by (simp add: packable_def register_dict_def Let_def)
  then obtain pl where pl: "e_packb E (register_dict cl) = Inr pl" "e_unpackb E pl = Inr (register_dict cl)"
    by (rule msgpack_okD [OF env(1)])
  let ?p = "\<lambda>sg. typed_packet (e_uuid E (w_tick s)) ''cell_register'' (my_cell cl) (my_id nd) pl sg (e_time E (Suc (w_tick s))) 1"
  have "packable (packet_dict (?p []))"
    unfolding packable_typed
    using cid(1) node_id_wire [OF assms(1)] assms(4) [OF pl(1)]
      clock_okD [OF env(3), of "w_tick s"] clock_okD [OF env(3), of "Suc (w_tick s)"]
    by (auto simp: Let_def)
  then obtain sg b where q: "sign_packet E (?p []) (ci_signing (cc_identity cl)) = Inr (?p sg)" "pack E (?p sg) = Inr b"
    "unpack E b = Inr (?p sg)" "verify_packet E (?p sg) (sk_public (ci_signing (cc_identity cl))) = Inr True"
    by (rule signed_frame [OF env(1,2) assms(2)])
  have "client_register E cl ws (my_id nd) s = (Inr (), s\<lparr>w_tick := w_tick s + 3, w_sent := w_sent s @ [(ws, b)]\<rparr>)"
    using q(1,2) assms(5)
    by (simp add: client_register_def client_transmit_def bindM_apply payload_packet_apply [OF pl(1)] new_packet_apply
        liftM_apply ws_send_apply typed_packet_def PROTO_VERSION_def eval_nat_numeral)
  moreover have "register_fields E (?p sg) = Inr (PStr (pc_peer_node_id conn), pc_peer_signing_pubkey conn,
      ek_public (ci_encryption (cc_identity cl)), True)"
    using pl(2) assms(7,8) by (simp add: register_fields_def decode_payload_def typed_packet_def register_dict_def)
  note reg = register_runs [OF assms(6) this, of nd]
  have "snd (recv_frame E (dispatch E nd) conn b sN) = snd (handle_cell_register E nd (?p sg) conn sN)"
    by (auto simp: frame_accepted [OF q(3) q(4) [folded assms(7)]] tryM_apply dispatch_def typed_packet_def returnM_apply
        split: prod.splits sum.splits)
  ultimately show ?thesis
    unfolding reg
    by (auto simp: flush_frame_cells get_cell_register get_presence_update assms(7,8) split: option.splits)
qed

theorem client_registration_accepted_witness:
  "\<exists>b e. get_cell (my_cell alice0) (ns_db (snd (recv_frame env0 (dispatch env0 nd0) peer1 b state0))) = Some e \<and>
     ce_enc_pubkey e = ek_public en0"
proof -
  have st: "length (ek_public (ci_encryption (cc_identity alice0))) = 32" "ns_open state0"
    "pc_peer_signing_pubkey peer1 = sk_public (ci_signing (cc_identity alice0))" "pc_peer_node_id peer1 = my_cell alice0"
    by (simp_all add: alice0_def en0_def state0_def peer1_def cell_id_def)
  have len: "length b < 2 ^ 32" if "e_packb env0 (register_dict alice0) = Inr b" for b
    using that by (auto simp: register_dict_def ex_nat_def cell_id_def alice0_def kp1_def en0_def)
  show ?thesis
    using client_registration_accepted [OF node_ok_env0 example_cells(1) st(1) len _ st(2-4), of 3 client0]
    by (auto simp: alice0_def)
qed

text \<open>
  C36: the sender's address is not authenticated.  Any peer that authenticated at the recipient's
  node can put any text into the sender field: the node re-signs and delivers the packet, and
  the recipient's callback is given that text as the sender of the plaintext.
\<close>
theorem sender_address_not_authenticated:
  assumes "node_ok E nd" and "signing_valid E kp" and "pc_peer_signing_pubkey conn = sk_public kp"
    and "home_here nd c s" and "dict_get (ns_conns s) c = Some toB" and "\<And>k b. e_send E k (pc_ws toB) b = None"
    and "wire_str f" and "wire_str (c @ CHR ''@'' # n)" and "length pl < 2 ^ 32"
    and "carries E pl (ci_encryption (cc_identity bob)) pt"
    and "cs_node_signing_pubkey sB = sk_public (ni_signing (nd_identity nd))"
    and "cc_on_message bob = Some cb" and "cb (PStr f) pt = None"
  shows "\<exists>p q b1 b2. sign_packet E p kp = Inr q \<and> pack E q = Inr b1 \<and>
    recv_frame E (dispatch E nd) conn b1 s =
      (Inr (), s\<lparr>w_tick := Suc (w_tick s), w_sent := w_sent s @ [(pc_ws toB, b2)]\<rparr>) \<and>
    client_frame E bob b2 sB = (Inr (), sB\<lparr>cs_received := cs_received sB @ [(PStr f, pt)]\<rparr>)"
proof -
  let ?p = "\<lambda>sg. typed_packet ''i'' ''msg'' f (c @ CHR ''@'' # n) pl sg 0 1"
  have env: "msgpack_ok E" "ed25519_ok E" using assms(1) by (simp_all add: node_ok_def)
  have "packable (packet_dict (?p []))" using assms(7-9) by (simp add: packable_typed Let_def)
  then obtain sg b1 where a: "sign_packet E (?p []) kp = Inr (?p sg)" "pack E (?p sg) = Inr b1"
    "unpack E b1 = Inr (?p sg)" "verify_packet E (?p sg) (sk_public kp) = Inr True" "packable (packet_dict (?p sg))"
    by (rule signed_frame [OF env assms(2)])
  obtain b2 sg' where r: "route E nd (?p sg) s = (Inr (), s\<lparr>w_tick := Suc (w_tick s), w_sent := w_sent s @ [(pc_ws toB, b2)]\<rparr>)"
    "unpack E b2 = Inr (?p sg')" "verify_packet E (?p sg') (sk_public (ni_signing (nd_identity nd))) = Inr True"
    by (rule node_delivers [OF assms(1,4-6) a(5)])
  have "recv_frame E (dispatch E nd) conn b1 s =
      (Inr (), s\<lparr>w_tick := Suc (w_tick s), w_sent := w_sent s @ [(pc_ws toB, b2)]\<rparr>)"
    using r(1) by (simp add: frame_accepted [OF a(3) a(4) [folded assms(3)]] tryM_apply dispatch_def typed_packet_def)
  moreover have "client_frame E bob b2 sB = (Inr (), sB\<lparr>cs_received := cs_received sB @ [(PStr f, pt)]\<rparr>)"
    using client_receives [OF r(2) r(3) [folded assms(11)] _ _ assms(10,12)] assms(13) by (simp add: typed_packet_def)
  ultimately show ?thesis using a(1,2) by blast
qed

theorem sender_address_not_authenticated_witness:
  "\<exists>b1 b2. w_sent (snd (recv_frame env0 (dispatch env0 nd0) peer1 b1 with_bob)) = [(9, b2)] \<and>
     cs_received (snd (client_frame env0 bob0 b2 client0)) = [(PStr ''the president'', [1, 2])]"
proof -
  obtain c pl where s: "e_unpackb env0 pl = Inr (encrypted_dict c)" "length pl < 2 ^ 32"
    "decrypt env0 (em_ciphertext c) (em_nonce c) (em_ephemeral_pubkey c) (ci_encryption (cc_identity bob0)) = Inr [1, 2]"
    by (rule sealed_payload [OF example_cells(5,3) fits_env0, of world0])
  have car: "carries env0 pl (ci_encryption (cc_identity bob0)) [1, 2]" using s(1,3) by (auto simp: carries_def)
  have w: "wire_str ''the president''" by (simp add: Let_def)
  have len: "length (my_cell bob0) = 64" by (simp add: cell_id_def bob0_def kp2_def)
  have w': "wire_str (my_cell bob0 @ CHR ''@'' # ''nn'')"
    using len by (auto simp: cell_id_def Let_def intro!: utf8_ok_join)
  have st: "pc_peer_signing_pubkey peer1 = sk_public kp1" "cs_received client0 = []" "w_sent with_bob = []" "pc_ws peer1 = 9"
    "cs_node_signing_pubkey client0 = sk_public (ni_signing (nd_identity nd0))" "cc_on_message bob0 = Some (\<lambda>f p. None)"
    by (simp_all add: peer1_def client0_def client_init_def with_bob_def state0_def bob0_def)
  obtain b1 b2 where run: "recv_frame env0 (dispatch env0 nd0) peer1 b1 with_bob =
      (Inr (), with_bob\<lparr>w_tick := Suc (w_tick with_bob), w_sent := w_sent with_bob @ [(pc_ws peer1, b2)]\<rparr>)"
    "client_frame env0 bob0 b2 client0 = (Inr (), client0\<lparr>cs_received := cs_received client0 @
      [(PStr ''the president'', [1, 2])]\<rparr>)"
    using sender_address_not_authenticated [OF node_ok_env0 kp1_valid st(1) with_bob_facts _ w w' s(2) car st(5,6)]
    by auto
  show ?thesis by (rule exI [of _ b1], rule exI [of _ b2]) (simp add: run st)
qed

end
